(* ===== verification/Prelude.thy ===== *)
theory Prelude
  imports Main "HOL-Library.Word" "HOL-Library.Code_Target_Numeral"
begin

text \<open>
  Shared vocabulary of the development.

  \<^item> Python exceptions as the values of one datatype, with a constructor per exception class the
    sources raise and a \<open>msg\<close> constructor per raise site (the numbers an f-string would print are
    its arguments).
  \<^item> The effect type \<open>('s, 'a) io\<close>: a function from a state to a result and the new state. The state
    survives an exception, as it does in Python, so that \<open>finally\<close> and \<open>except ...: raise\<close> can be
    written down.
  \<^item> Byte buffers: \<open>buf_slice\<close> and \<open>buf_assign\<close> (Python's \<open>buf[a:b]\<close> and same-length
    \<open>buf[a:b] = chunk\<close>), behind the interface locale \<open>byte_store\<close>.
  \<^item> The locale \<open>state_preorder\<close>: what every combinator of the effect type keeps of a reflexive and
    transitive relation between the states before and after.
\<close>

unbundle bit_operations_syntax

type_synonym byte = "8 word"

named_theorems io_defs

subsection \<open>Exceptions\<close>

datatype msg =
    Text string
  | ConnectionClosed nat nat
  | MagicMismatch nat
  | AioError nat nat
  | AioErrorBody nat nat "byte list"
  | ReplyMismatch nat nat nat nat
  | IoReplyMismatch nat nat nat
  | IoPayloadTooShort nat
  | IoChunkInvalid nat nat nat
  | PackedExceed nat nat
  | FastLzExtraInvalid nat nat
  | FastLzReadFailed msg
  | FastLzReadGot nat nat
  | UnsupportedIoCompression nat
  | WriteReplyMismatch nat nat nat
  | ExpectedReply nat nat
  | VersionTooOld nat
  | OpenReplyTooShort nat
  | OpenedFileType nat
  | UnsupportedCompression int
  | ReadBufferSize nat nat
  | WriteDataSize nat nat
  | FastLzCap nat nat
  | NoPeerCert string nat
  | NotAttached string string

datatype exn =
    NfcProtocolError msg
  | ConnectionError msg
  | ValueError msg
  | TypeError msg
  | RuntimeError msg
  | NotImplementedError msg
  | StructError
  | UnicodeEncodeError
  | TimeoutError
  | SSLError
  | OSError msg
  | OtherError msg

text \<open>
  \<open>NfcProtocolError\<close> derives from \<open>ConnectionError\<close>, which with \<open>TimeoutError\<close> and \<open>ssl.SSLError\<close>
  derives from \<open>OSError\<close>: this is what \<open>except OSError\<close> catches.
\<close>

fun is_OSError :: "exn \<Rightarrow> bool" where
  "is_OSError (NfcProtocolError _) = True"
| "is_OSError (ConnectionError _) = True"
| "is_OSError (OSError _) = True"
| "is_OSError TimeoutError = True"
| "is_OSError SSLError = True"
| "is_OSError _ = False"

fun is_ValueError :: "exn \<Rightarrow> bool" where
  "is_ValueError (ValueError _) = True"
| "is_ValueError UnicodeEncodeError = True"
| "is_ValueError _ = False"

subsection \<open>Effects: a state and an exception\<close>

type_synonym ('s, 'a) io = "'s \<Rightarrow> (exn + 'a) \<times> 's"

definition ret :: "'a \<Rightarrow> ('s, 'a) io" where
  [io_defs]: "ret x = (\<lambda>s. (Inr x, s))"

definition raise :: "exn \<Rightarrow> ('s, 'a) io" where
  [io_defs]: "raise e = (\<lambda>s. (Inl e, s))"

definition lift :: "exn + 'a \<Rightarrow> ('s, 'a) io" where
  [io_defs]: "lift r = (\<lambda>s. (r, s))"

definition bind_io :: "('s, 'a) io \<Rightarrow> ('a \<Rightarrow> ('s, 'b) io) \<Rightarrow> ('s, 'b) io" where
  "bind_io m f = (\<lambda>s. case m s of (Inl e, s') \<Rightarrow> (Inl e, s') | (Inr x, s') \<Rightarrow> f x s')"

definition then_io :: "('s, 'a) io \<Rightarrow> ('s, 'b) io \<Rightarrow> ('s, 'b) io" where
  [io_defs]: "then_io m k = bind_io m (\<lambda>_. k)"

definition raise_if :: "bool \<Rightarrow> exn \<Rightarrow> ('s, unit) io" where
  [io_defs]: "raise_if b e = (if b then raise e else ret ())"

definition catch_io :: "('s, 'a) io \<Rightarrow> (exn \<Rightarrow> ('s, 'a) io) \<Rightarrow> ('s, 'a) io" where
  "catch_io m h = (\<lambda>s. case m s of (Inl e, s') \<Rightarrow> h e s' | (Inr x, s') \<Rightarrow> (Inr x, s'))"

text \<open>\<open>try: m  except Exception: cleanup; raise\<close>\<close>

definition on_exception :: "('s, 'a) io \<Rightarrow> ('s, unit) io \<Rightarrow> ('s, 'a) io" where
  "on_exception m cleanup = catch_io m (\<lambda>e. then_io cleanup (raise e))"

text \<open>\<open>try: m  finally: fin\<close>, where an exception of \<open>fin\<close> replaces the outcome of \<open>m\<close>.\<close>

definition try_finally :: "('s, 'a) io \<Rightarrow> ('s, unit) io \<Rightarrow> ('s, 'a) io" where
  "try_finally m fin = (\<lambda>s. case m s of (r, s') \<Rightarrow>
     (case fin s' of (Inl e, s'') \<Rightarrow> (Inl e, s'') | (Inr _, s'') \<Rightarrow> (r, s'')))"

text \<open>\<open>try: m  except OSError: pass\<close>\<close>

definition ignore_OSError :: "('s, unit) io \<Rightarrow> ('s, unit) io" where
  "ignore_OSError m = catch_io m (\<lambda>e. if is_OSError e then ret () else raise e)"

text \<open>Run an effect on one component of a larger state.\<close>

definition zoom :: "('t \<Rightarrow> 's) \<Rightarrow> ('s \<Rightarrow> 't \<Rightarrow> 't) \<Rightarrow> ('s, 'a) io \<Rightarrow> ('t, 'a) io" where
  "zoom get put m = (\<lambda>t. case m (get t) of (r, s) \<Rightarrow> (r, put s t))"

definition on_fst :: "('s, 'a) io \<Rightarrow> ('s \<times> 'u, 'a) io" where
  "on_fst m = (\<lambda>(s, u). case m s of (r, s') \<Rightarrow> (r, (s', u)))"

definition on_snd :: "('s, 'a) io \<Rightarrow> ('u \<times> 's, 'a) io" where
  "on_snd m = (\<lambda>(u, s). case m s of (r, s') \<Rightarrow> (r, (u, s')))"

lemma bind_io_cong [fundef_cong]:
  assumes "m s = m' s'" and "\<And>x t. m' s' = (Inr x, t) \<Longrightarrow> f x t = f' x t" and "s = s'"
  shows "bind_io m f s = bind_io m' f' s'"
  using assms by (auto simp: bind_io_def split: prod.splits sum.splits)

lemma bind_io_Inr [simp]: "m s = (Inr x, s') \<Longrightarrow> bind_io m f s = f x s'"
  by (simp add: bind_io_def)

lemma bind_io_Inl [simp]: "m s = (Inl e, s') \<Longrightarrow> bind_io m f s = (Inl e, s')"
  by (simp add: bind_io_def)

lemma bind_io_Inr_iff:
  "bind_io m f s = (Inr y, s'') \<longleftrightarrow> (\<exists>x s'. m s = (Inr x, s') \<and> f x s' = (Inr y, s''))"
  by (auto simp: bind_io_def split: prod.splits sum.splits)

lemma bind_io_Inl_iff:
  "bind_io m f s = (Inl e, s'') \<longleftrightarrow>
     m s = (Inl e, s'') \<or> (\<exists>x s'. m s = (Inr x, s') \<and> f x s' = (Inl e, s''))"
  by (auto simp: bind_io_def split: prod.splits sum.splits)

lemma bind_io_ret [simp]: "bind_io (ret x) f = f x"
  and bind_io_raise [simp]: "bind_io (raise e) f = raise e"
  and bind_io_lift_Inr [simp]: "bind_io (lift (Inr x)) f = f x"
  and bind_io_lift_Inl [simp]: "bind_io (lift (Inl e)) f = raise e"
  by (auto simp: bind_io_def io_defs)

lemma then_io_raise_if [simp]:
  "then_io (raise_if b e) k = (if b then raise e else k)"
  by (simp add: io_defs bind_io_def)

lemma then_io_ret [simp]: "then_io (ret x) k = k"
  and then_io_raise [simp]: "then_io (raise e) k = raise e"
  by (simp_all add: then_io_def)

lemma then_io_Inr [simp]: "m s = (Inr x, s') \<Longrightarrow> then_io m k s = k s'"
  and then_io_Inl [simp]: "m s = (Inl e, s') \<Longrightarrow> then_io m k s = (Inl e, s')"
  by (simp_all add: then_io_def)

lemma ret_app [simp]: "ret x s = (Inr x, s)"
  and raise_app [simp]: "raise e s = (Inl e, s)"
  and lift_app [simp]: "lift r s = (r, s)"
  by (simp_all add: io_defs)

lemma then_io_Inr_iff:
  "then_io m k s = (Inr y, s'') \<longleftrightarrow> (\<exists>x s'. m s = (Inr x, s') \<and> k s' = (Inr y, s''))"
  by (simp add: then_io_def bind_io_Inr_iff)

lemma snd_then_ret [simp]: "snd (then_io m (ret x) s) = snd (m s)"
  by (simp add: then_io_def bind_io_def split: prod.splits sum.splits)

lemma on_exception_InrD: "on_exception m c s = (Inr x, s') \<Longrightarrow> m s = (Inr x, s')"
  by (auto simp: on_exception_def catch_io_def then_io_def bind_io_def split: prod.splits sum.splits)

lemma try_finally_InrD: "try_finally m c s = (Inr x, s') \<Longrightarrow> \<exists>s1 u. m s = (Inr x, s1) \<and> c s1 = (Inr u, s')"
  by (auto simp: try_finally_def split: prod.splits sum.splits)

lemma snd_try_finally: "snd (try_finally m c s) = snd (c (snd (m s)))"
  by (simp add: try_finally_def split: prod.splits sum.splits)

lemma on_fst_app: "on_fst m (s, u) = (fst (m s), (snd (m s), u))"
  by (simp add: on_fst_def split: prod.splits)

lemma on_snd_app: "on_snd m (u, s) = (fst (m s), (u, snd (m s)))"
  by (simp add: on_snd_def split: prod.splits)

lemma on_snd_iff: "on_snd m (u, s) = (r, u', s') \<longleftrightarrow> u' = u \<and> m s = (r, s')"
  by (auto simp: on_snd_def split: prod.splits)

lemmas io_iffs = bind_io_Inr_iff then_io_Inr_iff

subsection \<open>What the combinators keep\<close>

definition keeps :: "('s \<Rightarrow> 's \<Rightarrow> bool) \<Rightarrow> ('s, 'a) io \<Rightarrow> bool" where
  "keeps R m \<longleftrightarrow> (\<forall>s. R s (snd (m s)))"

locale state_preorder =
  fixes R :: "'s \<Rightarrow> 's \<Rightarrow> bool"
  assumes refl_R: "R s s"
    and trans_R: "R s t \<Longrightarrow> R t u \<Longrightarrow> R s u"
begin

lemma keeps_ret: "keeps R (ret x)"
  and keeps_raise: "keeps R (raise e)"
  and keeps_lift: "keeps R (lift r)"
  by (simp_all add: keeps_def refl_R)

lemma keeps_raise_if: "keeps R (raise_if b e)"
  by (simp add: keeps_def raise_if_def refl_R)

text \<open>A relation that holds after the first part of a sequence holds after all of it.\<close>

lemma bind_from:
  assumes m: "R t (snd (m s))" and f: "\<And>x. keeps R (f x)"
  shows "R t (snd (bind_io m f s))"
proof -
  obtain r u where mu: "m s = (r, u)" by (cases "m s")
  show ?thesis
  proof (cases r)
    case (Inl e)
    then show ?thesis using mu m by simp
  next
    case (Inr x)
    have "R u (snd (f x u))" using f unfolding keeps_def by blast
    then show ?thesis using mu m Inr trans_R by simp
  qed
qed

lemma keeps_bind: "keeps R m \<Longrightarrow> (\<And>x. keeps R (f x)) \<Longrightarrow> keeps R (bind_io m f)"
  unfolding keeps_def [of R "bind_io m f"] by (auto intro!: bind_from simp: keeps_def [of R m])

lemma keeps_then: "keeps R m \<Longrightarrow> keeps R k \<Longrightarrow> keeps R (then_io m k)"
  by (simp add: then_io_def keeps_bind)

lemma keeps_catch:
  assumes m: "keeps R m" and h: "\<And>e. keeps R (h e)"
  shows "keeps R (catch_io m h)"
  unfolding keeps_def
proof
  fix s
  obtain r t where mt: "m s = (r, t)" by (cases "m s")
  have st: "R s t" using m mt unfolding keeps_def by (metis snd_conv)
  show "R s (snd (catch_io m h s))"
  proof (cases r)
    case (Inl e)
    have "R t (snd (h e t))" using h unfolding keeps_def by blast
    then show ?thesis using mt st Inl trans_R by (simp add: catch_io_def)
  next
    case (Inr x)
    then show ?thesis using mt st by (simp add: catch_io_def)
  qed
qed

lemma keeps_on_exception: "keeps R m \<Longrightarrow> keeps R c \<Longrightarrow> keeps R (on_exception m c)"
  by (simp add: on_exception_def keeps_catch keeps_then keeps_raise)

lemma keeps_ignore: "keeps R m \<Longrightarrow> keeps R (ignore_OSError m)"
  by (simp add: ignore_OSError_def keeps_catch keeps_ret keeps_raise)

lemma keeps_finally:
  assumes m: "keeps R m" and c: "keeps R c"
  shows "keeps R (try_finally m c)"
  unfolding keeps_def
proof
  fix s
  obtain r t where mt: "m s = (r, t)" by (cases "m s")
  obtain r' u where cu: "c t = (r', u)" by (cases "c t")
  have "R s t" "R t u" using m c mt cu unfolding keeps_def by (metis snd_conv)+
  then have "R s u" by (rule trans_R)
  then show "R s (snd (try_finally m c s))"
    using mt cu by (simp add: try_finally_def split: sum.splits)
qed

lemmas keeps_intros =
  keeps_ret keeps_raise keeps_lift keeps_raise_if keeps_bind keeps_then keeps_catch
  keeps_on_exception keeps_ignore keeps_finally

end

lemma keepsD: "keeps R m \<Longrightarrow> m s = (r, s') \<Longrightarrow> R s s'"
  unfolding keeps_def by (metis snd_conv)

subsection \<open>Byte buffers\<close>

definition buf_slice :: "'b list \<Rightarrow> nat \<Rightarrow> nat \<Rightarrow> 'b list" where
  "buf_slice buf off n = take n (drop off buf)"

definition buf_assign :: "'b list \<Rightarrow> nat \<Rightarrow> 'b list \<Rightarrow> 'b list" where
  "buf_assign buf off chunk = take off buf @ chunk @ drop (off + length chunk) buf"

lemma length_buf_slice [simp]: "off + n \<le> length buf \<Longrightarrow> length (buf_slice buf off n) = n"
  by (simp add: buf_slice_def)

lemma length_buf_assign [simp]:
  "off + length chunk \<le> length buf \<Longrightarrow> length (buf_assign buf off chunk) = length buf"
  by (simp add: buf_assign_def)

lemma buf_assign_Nil [simp]: "buf_assign buf off [] = buf"
  by (simp add: buf_assign_def)

lemma nth_buf_assign:
  assumes "off + length chunk \<le> length buf" and "i < length buf"
  shows "buf_assign buf off chunk ! i =
    (if off \<le> i \<and> i < off + length chunk then chunk ! (i - off) else buf ! i)"
  using assms by (auto simp: buf_assign_def nth_append min_def)

lemma nth_buf_slice: "i < n \<Longrightarrow> off + n \<le> length buf \<Longrightarrow> buf_slice buf off n ! i = buf ! (off + i)"
  by (simp add: buf_slice_def)

lemma buf_slice_eq_iff:
  "off + n \<le> length buf \<Longrightarrow>
     buf_slice buf off n = xs \<longleftrightarrow> length xs = n \<and> (\<forall>i<n. buf ! (off + i) = xs ! i)"
  by (auto simp: list_eq_iff_nth_eq nth_buf_slice)

text \<open>Two adjacent writes are one write of the concatenation.\<close>

lemma buf_assign_append:
  "off + length xs + length ys \<le> length buf \<Longrightarrow>
     buf_assign (buf_assign buf off xs) (off + length xs) ys = buf_assign buf off (xs @ ys)"
  by (cases xs) (auto simp: buf_assign_def min_def ac_simps)

definition disjoint_ranges :: "nat \<Rightarrow> nat \<Rightarrow> nat \<Rightarrow> nat \<Rightarrow> bool" where
  "disjoint_ranges a n b m \<longleftrightarrow> a + n \<le> b \<or> b + m \<le> a"

text \<open>
  The interface of a byte store: an array of \<open>size m\<close> bytes that is read and written in ranges.
\<close>

locale byte_store =
  fixes get :: "'m \<Rightarrow> nat \<Rightarrow> nat \<Rightarrow> 'b list"
    and put :: "'m \<Rightarrow> nat \<Rightarrow> 'b list \<Rightarrow> 'm"
    and size :: "'m \<Rightarrow> nat"
  assumes size_put: "off + length xs \<le> size m \<Longrightarrow> size (put m off xs) = size m"
    and get_put_same: "off + length xs \<le> size m \<Longrightarrow> get (put m off xs) off (length xs) = xs"
    and get_put_disjoint:
      "off + length xs \<le> size m \<Longrightarrow> b + n \<le> size m \<Longrightarrow>
       disjoint_ranges off (length xs) b n \<Longrightarrow> get (put m off xs) b n = get m b n"
begin

text \<open>Write a list of pieces, first to last.\<close>

definition put_all :: "'m \<Rightarrow> (nat \<times> 'b list) list \<Rightarrow> 'm" where
  "put_all m ps = fold (\<lambda>p m. put m (fst p) (snd p)) ps m"

definition fits :: "'m \<Rightarrow> nat \<times> 'b list \<Rightarrow> bool" where
  "fits m p \<longleftrightarrow> fst p + length (snd p) \<le> size m"

definition apart :: "nat \<times> 'b list \<Rightarrow> nat \<times> 'b list \<Rightarrow> bool" where
  "apart p q \<longleftrightarrow> disjoint_ranges (fst p) (length (snd p)) (fst q) (length (snd q))"

lemma put_all_Nil [simp]: "put_all m [] = m"
  and put_all_Cons [simp]: "put_all m (p # ps) = put_all (put m (fst p) (snd p)) ps"
  by (simp_all add: put_all_def)

lemma size_put_all:
  "(\<And>p. p \<in> set ps \<Longrightarrow> fits m p) \<Longrightarrow> size (put_all m ps) = size m"
  by (induction ps arbitrary: m) (simp_all add: size_put fits_def)

text \<open>A range that no piece touches keeps its contents.\<close>

lemma get_put_all_disjoint:
  assumes "\<And>p. p \<in> set ps \<Longrightarrow> fits m p"
    and "\<And>p. p \<in> set ps \<Longrightarrow> disjoint_ranges (fst p) (length (snd p)) b n"
    and "b + n \<le> size m"
  shows "get (put_all m ps) b n = get m b n"
  using assms
proof (induction ps arbitrary: m)
  case (Cons p ps)
  have f: "fst p + length (snd p) \<le> size m" using Cons.prems(1)[of p] by (simp add: fits_def)
  have "get (put_all (put m (fst p) (snd p)) ps) b n = get (put m (fst p) (snd p)) b n"
    using Cons.prems f by (intro Cons.IH) (simp_all add: fits_def size_put)
  also have "\<dots> = get m b n"
    using Cons.prems f by (intro get_put_disjoint) simp_all
  finally show ?case by simp
qed simp

text \<open>
  Every piece of a pairwise disjoint list can be read back: the order in which the pieces are
  written does not matter.
\<close>

lemma get_put_all:
  assumes "\<And>p. p \<in> set ps \<Longrightarrow> fits m p" and "sorted_wrt apart ps" and "p \<in> set ps"
  shows "get (put_all m ps) (fst p) (length (snd p)) = snd p"
  using assms
proof (induction ps arbitrary: m)
  case (Cons q ps)
  have f: "fst q + length (snd q) \<le> size m" using Cons.prems(1)[of q] by (simp add: fits_def)
  have fits': "\<And>r. r \<in> set ps \<Longrightarrow> fits (put m (fst q) (snd q)) r"
    using Cons.prems(1) f by (simp add: fits_def size_put)
  show ?case
  proof (cases "p \<in> set ps")
    case True
    then show ?thesis using Cons.IH [OF fits'] Cons.prems(2) by simp
  next
    case False
    with Cons.prems(3) have "p = q" by simp
    have "get (put_all (put m (fst q) (snd q)) ps) (fst q) (length (snd q))
        = get (put m (fst q) (snd q)) (fst q) (length (snd q))"
      using Cons.prems(2) f
      by (intro get_put_all_disjoint fits')
        (auto simp: apart_def disjoint_ranges_def size_put)
    then show ?thesis using \<open>p = q\<close> f by (simp add: get_put_same)
  qed
qed simp

end

interpretation buffer: byte_store buf_slice buf_assign length
proof
  fix off b n :: nat and xs m :: "'b list"
  assume "off + length xs \<le> length m"
  then show "length (buf_assign m off xs) = length m"
    and "buf_slice (buf_assign m off xs) off (length xs) = xs"
    by (simp_all add: buf_slice_eq_iff nth_buf_assign)
  assume "b + n \<le> length m" and "disjoint_ranges off (length xs) b n"
  with \<open>off + length xs \<le> length m\<close> show "buf_slice (buf_assign m off xs) b n = buf_slice m b n"
    by (simp add: buf_slice_eq_iff nth_buf_assign) (auto simp: nth_buf_slice disjoint_ranges_def)
qed

end
