(* ===== verification/PyStruct.thy ===== *)
theory PyStruct
  imports Prelude
begin

text \<open>
  The part of Python's \<open>struct\<close> module that \<open>nfc_open.py\<close> uses: the little-endian standard-size
  formats made of \<open>I\<close> (\<open>uint32\<close>) and \<open>Q\<close> (\<open>uint64\<close>), \<open>struct.pack\<close> (raising \<open>struct.error\<close> on
  a value out of range) and \<open>struct.unpack_from\<close> (raising it on a buffer that is too short), with
  the string encodings \<open>ascii\<close> and \<open>utf-8\<close>.

  The interface locale \<open>wire_codec\<close> states what a fixed-width encoding promises; the formats above
  and the message headers of the later theories are its interpretations.
\<close>

datatype fmt = FI | FQ

fun fmt_size :: "fmt \<Rightarrow> nat" where
  "fmt_size FI = 4"
| "fmt_size FQ = 8"

definition calcsize :: "fmt list \<Rightarrow> nat" where
  "calcsize fs = sum_list (map fmt_size fs)"

subsection \<open>Little-endian bytes\<close>

fun le_bytes :: "nat \<Rightarrow> nat \<Rightarrow> byte list" where
  "le_bytes 0 v = []"
| "le_bytes (Suc n) v = word_of_nat (v mod 256) # le_bytes n (v div 256)"

fun le_val :: "byte list \<Rightarrow> nat" where
  "le_val [] = 0"
| "le_val (b # bs) = unat b + 256 * le_val bs"

definition pack1 :: "fmt \<Rightarrow> int \<Rightarrow> exn + byte list" where
  "pack1 f v = (if 0 \<le> v \<and> v < 256 ^ fmt_size f then Inr (le_bytes (fmt_size f) (nat v))
                else Inl StructError)"

fun struct_pack :: "fmt list \<Rightarrow> int list \<Rightarrow> exn + byte list" where
  "struct_pack [] [] = Inr []"
| "struct_pack (f # fs) (v # vs) =
     (case pack1 f v of Inl e \<Rightarrow> Inl e
      | Inr b \<Rightarrow> (case struct_pack fs vs of Inl e \<Rightarrow> Inl e | Inr bs \<Rightarrow> Inr (b @ bs)))"
| "struct_pack _ _ = Inl StructError"

fun unpack_list :: "fmt list \<Rightarrow> byte list \<Rightarrow> nat list" where
  "unpack_list [] bs = []"
| "unpack_list (f # fs) bs = le_val (take (fmt_size f) bs) # unpack_list fs (drop (fmt_size f) bs)"

definition unpack_from :: "fmt list \<Rightarrow> byte list \<Rightarrow> nat \<Rightarrow> exn + nat list" where
  "unpack_from fs buf off =
     (if off + calcsize fs \<le> length buf then Inr (unpack_list fs (drop off buf)) else Inl StructError)"

text \<open>The shapes the sources unpack, with their results as tuples.\<close>

definition unpack_I :: "byte list \<Rightarrow> nat \<Rightarrow> exn + nat" where
  "unpack_I buf off = map_sum id (\<lambda>vs. vs ! 0) (unpack_from [FI] buf off)"

definition unpack_Q :: "byte list \<Rightarrow> nat \<Rightarrow> exn + nat" where
  "unpack_Q buf off = map_sum id (\<lambda>vs. vs ! 0) (unpack_from [FQ] buf off)"

definition unpack_II :: "byte list \<Rightarrow> nat \<Rightarrow> exn + (nat \<times> nat)" where
  "unpack_II buf off = map_sum id (\<lambda>vs. (vs ! 0, vs ! 1)) (unpack_from [FI, FI] buf off)"

definition unpack_IIII :: "byte list \<Rightarrow> nat \<Rightarrow> exn + (nat \<times> nat \<times> nat \<times> nat)" where
  "unpack_IIII buf off =
     map_sum id (\<lambda>vs. (vs ! 0, vs ! 1, vs ! 2, vs ! 3)) (unpack_from [FI, FI, FI, FI] buf off)"

definition unpack_QII :: "byte list \<Rightarrow> nat \<Rightarrow> exn + (nat \<times> nat \<times> nat)" where
  "unpack_QII buf off =
     map_sum id (\<lambda>vs. (vs ! 0, vs ! 1, vs ! 2)) (unpack_from [FQ, FI, FI] buf off)"

text \<open>\<open>frame.ljust(n, b"\x00")\<close>\<close>

definition ljust0 :: "nat \<Rightarrow> byte list \<Rightarrow> byte list" where
  "ljust0 n bs = bs @ replicate (n - length bs) 0"

subsection \<open>String encodings\<close>

text \<open>
  A Python string is a list of code points below 256 here (the type \<open>string\<close>). \<open>ascii\<close> refuses the
  code points from 128 on; \<open>utf-8\<close> writes them as two bytes.
\<close>

definition byte_of_char :: "char \<Rightarrow> byte" where
  "byte_of_char c = word_of_nat (of_char c)"

definition encode_ascii :: "string \<Rightarrow> exn + byte list" where
  "encode_ascii s = (if list_all (\<lambda>c. (of_char c :: nat) < 128) s then Inr (map byte_of_char s)
                     else Inl UnicodeEncodeError)"

definition utf8_char :: "char \<Rightarrow> byte list" where
  "utf8_char c = (let n = (of_char c :: nat) in
     if n < 128 then [word_of_nat n] else [word_of_nat (192 + n div 64), word_of_nat (128 + n mod 64)])"

definition encode_utf8 :: "string \<Rightarrow> byte list" where
  "encode_utf8 s = concat (map utf8_char s)"

subsection \<open>Round trips\<close>

lemma length_le_bytes [simp]: "length (le_bytes n v) = n"
  by (induction n arbitrary: v) simp_all

lemma le_val_bound: "le_val bs < 256 ^ length bs"
proof (induction bs)
  case (Cons b bs)
  have "unat b < 256" using unsigned_less [of b] by simp
  with Cons show ?case by simp
qed simp

lemma le_val_le_bytes: "v < 256 ^ n \<Longrightarrow> le_val (le_bytes n v) = v"
proof (induction n arbitrary: v)
  case (Suc n)
  have "v div 256 < 256 ^ n" using Suc.prems by (simp add: div_less_iff_less_mult mult.commute)
  then show ?case using Suc.IH by (simp add: unat_of_nat)
qed simp

lemma le_bytes_le_val: "le_bytes (length bs) (le_val bs) = bs"
proof (induction bs)
  case (Cons b bs)
  have b: "unat b < 256" using unsigned_less [of b] by simp
  then have "(unat b + 256 * le_val bs) mod 256 = unat b"
    and "(unat b + 256 * le_val bs) div 256 = le_val bs" by simp_all
  then show ?case using Cons by simp
qed simp

lemma pack1_Inr_iff:
  "pack1 f v = Inr b \<longleftrightarrow> 0 \<le> v \<and> v < 256 ^ fmt_size f \<and> b = le_bytes (fmt_size f) (nat v)"
  by (auto simp: pack1_def)

lemma calcsize_simps [simp]:
  "calcsize [] = 0" "calcsize (f # fs) = fmt_size f + calcsize fs"
  by (simp_all add: calcsize_def)

lemma struct_pack_length: "struct_pack fs vs = Inr bs \<Longrightarrow> length bs = calcsize fs"
  by (induction fs vs arbitrary: bs rule: struct_pack.induct)
    (auto simp: pack1_Inr_iff split: sum.splits)

lemma unpack_pack:
  "struct_pack fs vs = Inr bs \<Longrightarrow> unpack_list fs (bs @ rest) = map nat vs"
proof (induction fs vs arbitrary: bs rule: struct_pack.induct)
  case (2 f fs v vs)
  then obtain b bs' where b: "pack1 f v = Inr b" and bs': "struct_pack fs vs = Inr bs'"
    and bs: "bs = b @ bs'" by (auto split: sum.splits)
  have len: "length b = fmt_size f" and v: "le_val b = nat v"
    using b by (auto simp: pack1_Inr_iff le_val_le_bytes nat_less_iff)
  show ?case using bs len v "2.IH" [OF b bs'] by simp
qed simp_all

lemma struct_pack_Inr_iff:
  "(\<exists>bs. struct_pack fs vs = Inr bs) \<longleftrightarrow>
     list_all2 (\<lambda>f v. 0 \<le> v \<and> v < 256 ^ fmt_size f) fs vs"
  by (induction fs vs rule: struct_pack.induct) (auto simp: pack1_def split: sum.splits if_splits)

lemma pack1_FI_nat: "v < 2 ^ 32 \<Longrightarrow> pack1 FI (int v) = Inr (le_bytes 4 v)"
  by (simp add: pack1_def)

lemma pack1_InlD: "pack1 f v = Inl e \<Longrightarrow> e = StructError"
  by (auto simp: pack1_def split: if_splits)

lemma struct_pack_InlD: "struct_pack fs vs = Inl e \<Longrightarrow> e = StructError"
  by (induction fs vs rule: struct_pack.induct) (auto simp: pack1_def split: sum.splits if_splits)

lemma unpack_from_pack:
  "struct_pack fs vs = Inr bs \<Longrightarrow> unpack_from fs (pre @ bs @ post) (length pre) = Inr (map nat vs)"
  by (simp add: unpack_from_def struct_pack_length unpack_pack)

lemma unpack_from_InlD: "unpack_from fs buf off = Inl e \<Longrightarrow> e = StructError"
  by (simp add: unpack_from_def split: if_splits)

lemma length_ljust0 [simp]: "length bs \<le> n \<Longrightarrow> length (ljust0 n bs) = n"
  by (simp add: ljust0_def)

subsection \<open>Fixed-width encodings as an interface\<close>

locale wire_codec =
  fixes valid :: "'a \<Rightarrow> bool"
    and enc :: "'a \<Rightarrow> exn + byte list"
    and dec :: "byte list \<Rightarrow> exn + 'a"
    and width :: nat
  assumes enc_width: "valid x \<Longrightarrow> enc x = Inr bs \<Longrightarrow> length bs = width"
    and dec_enc: "valid x \<Longrightarrow> enc x = Inr bs \<Longrightarrow> dec (bs @ rest) = Inr x"
begin

lemma dec_enc_exact: "valid x \<Longrightarrow> enc x = Inr bs \<Longrightarrow> dec bs = Inr x"
  using dec_enc [of x bs "[]"] by simp

text \<open>A stream starts with at most one encoded value, and the value fixes the rest.\<close>

lemma unique_decoding:
  assumes "valid x" "enc x = Inr a" "valid y" "enc y = Inr b" "a @ r = b @ r'"
  shows "x = y \<and> r = r'"
proof -
  have "Inr x = (Inr y :: exn + 'a)"
    using dec_enc [OF assms(1,2), of r] dec_enc [OF assms(3,4), of r'] assms(5) by simp
  then have "x = y" by simp
  then show ?thesis using assms by simp
qed

lemma enc_inj: "valid x \<Longrightarrow> enc x = Inr a \<Longrightarrow> valid y \<Longrightarrow> enc y = Inr a \<Longrightarrow> x = y"
  using unique_decoding [of x a y a "[]" "[]"] by simp

end

interpretation struct_codec: wire_codec
  "\<lambda>vs. True" "\<lambda>vs. struct_pack fs (map int vs)" "\<lambda>bs. unpack_from fs bs 0" "calcsize fs" for fs
proof
  fix vs bs rest
  assume p: "struct_pack fs (map int vs) = Inr bs"
  then show "length bs = calcsize fs" by (rule struct_pack_length)
  show "unpack_from fs (bs @ rest) 0 = Inr vs"
    using unpack_from_pack [OF p, of "[]" rest] by (simp add: comp_def)
qed

end
