(* ===== verification/Socket.thy ===== *)
theory Socket
  imports PyStruct
begin

text \<open>
  A connected stream socket (a plain TCP socket or an \<open>ssl.SSLSocket\<close>) as the code uses it, and the
  receive loop \<open>_recvn\<close> / \<open>_recvn_into\<close> of \<open>nfc_open.py\<close>.

  What the peer does is in the socket's state: \<open>rx\<close> is what the successive \<open>recv\<close> calls will see
  (segments of data, an orderly shutdown, a failure; nothing at all is a timeout, since every socket
  of the program has one), \<open>room\<close> is how many more bytes the connection takes before \<open>sendall\<close>
  fails, \<open>close_fault\<close> is an exception that closing raises. The theorems quantify over all of them.

  The segmentation of the incoming data is arbitrary. \<open>avail\<close> forgets it: the bytes that can still
  be received. \<open>recvn_spec\<close> says that \<open>_recvn\<close> is a function of \<open>avail\<close> alone.
\<close>

datatype rx_event = Data "byte list" | Eof | Fault exn

record sock =
  rx :: "rx_event list"
  tx :: "byte list"
  room :: "nat option"
  is_open :: bool
  close_fault :: "exn option"

abbreviation EBADF :: exn where
  "EBADF \<equiv> OSError (Text ''Bad file descriptor'')"

abbreviation EPIPE :: exn where
  "EPIPE \<equiv> OSError (Text ''Broken pipe'')"

fun recv_events :: "nat \<Rightarrow> rx_event list \<Rightarrow> (exn + byte list) \<times> rx_event list" where
  "recv_events k [] = (Inl TimeoutError, [])"
| "recv_events k (Eof # es) = (Inr [], Eof # es)"
| "recv_events k (Fault e # es) = (Inl e, es)"
| "recv_events k (Data bs # es) =
     (if bs = [] then recv_events k es
      else (Inr (take k bs), if length bs \<le> k then es else Data (drop k bs) # es))"

text \<open>\<open>sock.recv(k)\<close>: at least one and at most \<open>k\<close> bytes, or none at the end of the stream.\<close>

definition sock_recv :: "nat \<Rightarrow> (sock, byte list) io" where
  "sock_recv k = (\<lambda>s. if is_open s
     then (case recv_events k (rx s) of (r, es) \<Rightarrow> (r, s\<lparr>rx := es\<rparr>)) else (Inl EBADF, s))"

definition sock_sendall :: "byte list \<Rightarrow> (sock, unit) io" where
  "sock_sendall bs = (\<lambda>s. if is_open s
     then (case room s of
             None \<Rightarrow> (Inr (), s\<lparr>tx := tx s @ bs\<rparr>)
           | Some n \<Rightarrow> (if length bs \<le> n
               then (Inr (), s\<lparr>tx := tx s @ bs, room := Some (n - length bs)\<rparr>)
               else (Inl EPIPE, s\<lparr>tx := tx s @ take n bs, room := Some 0\<rparr>)))
     else (Inl EBADF, s))"

text \<open>Closing releases the descriptor even when it raises; closing again does nothing.\<close>

definition sock_close :: "(sock, unit) io" where
  "sock_close = (\<lambda>s. if is_open s
     then ((case close_fault s of None \<Rightarrow> Inr () | Some e \<Rightarrow> Inl e), s\<lparr>is_open := False\<rparr>)
     else (Inr (), s))"

subsection \<open>Receiving an exact number of bytes\<close>

text \<open>
  The loop of \<open>_recvn_into\<close>, on the window of \<open>n\<close> bytes of \<open>buf\<close> that starts at \<open>lo\<close>: the bytes
  received before a failure stay in the buffer.
\<close>

lemma recv_events_le: "recv_events k es = (Inr got, es') \<Longrightarrow> length got \<le> k"
  by (induction k es rule: recv_events.induct) (auto split: if_splits)

function recvn_into_loop ::
  "nat \<Rightarrow> nat \<Rightarrow> nat \<Rightarrow> sock \<times> byte list \<Rightarrow> (exn + unit) \<times> sock \<times> byte list" where
  "recvn_into_loop lo n filled (s, buf) =
     (if filled < n
      then (case sock_recv (n - filled) s of
              (Inl e, s') \<Rightarrow> (Inl e, s', buf)
            | (Inr got, s') \<Rightarrow>
                if got = [] then (Inl (NfcProtocolError (ConnectionClosed n filled)), s', buf)
                else recvn_into_loop lo n (filled + length got) (s', buf_assign buf (lo + filled) got))
      else (Inr (), s, buf))"
  by pat_completeness auto
termination
  by (relation "measure (\<lambda>(lo, n, filled, st). n - filled)") (auto intro!: diff_less_mono2)

definition recvn_into :: "nat \<Rightarrow> nat \<Rightarrow> (sock \<times> byte list, unit) io" where
  "recvn_into lo n = recvn_into_loop lo n 0"

definition recvn :: "nat \<Rightarrow> (sock, byte list) io" where
  "recvn n = (\<lambda>s. case recvn_into 0 n (s, replicate n 0) of
     (Inl e, s', _) \<Rightarrow> (Inl e, s') | (Inr _, s', buf) \<Rightarrow> (Inr buf, s'))"

subsection \<open>The byte stream behind the segments\<close>

fun avail :: "rx_event list \<Rightarrow> byte list" where
  "avail [] = []"
| "avail (Data bs # es) = bs @ avail es"
| "avail (Eof # es) = []"
| "avail (Fault e # es) = []"

text \<open>What the events are after \<open>n\<close> available bytes have been received.\<close>

fun consume :: "nat \<Rightarrow> rx_event list \<Rightarrow> rx_event list" where
  "consume n [] = []"
| "consume n (Data bs # es) =
     (if n = 0 then Data bs # es
      else if length bs \<le> n then consume (n - length bs) es else Data (drop n bs) # es)"
| "consume n (Eof # es) = Eof # es"
| "consume n (Fault e # es) = Fault e # es"

text \<open>The exception that ends the stream, seen by a receive of \<open>n\<close> bytes that got \<open>k\<close> of them.\<close>

fun stop_exn :: "nat \<Rightarrow> nat \<Rightarrow> rx_event list \<Rightarrow> exn" where
  "stop_exn n k [] = TimeoutError"
| "stop_exn n k (Data bs # es) = stop_exn n (k + length bs) es"
| "stop_exn n k (Eof # es) = NfcProtocolError (ConnectionClosed n k)"
| "stop_exn n k (Fault e # es) = e"

fun drain :: "rx_event list \<Rightarrow> rx_event list" where
  "drain [] = []"
| "drain (Data bs # es) = drain es"
| "drain (Eof # es) = Eof # es"
| "drain (Fault e # es) = es"

lemma consume_0 [simp]: "consume 0 es = es"
  by (cases es; cases "hd es") auto

lemma avail_consume [simp]: "n \<le> length (avail es) \<Longrightarrow> avail (consume n es) = drop n (avail es)"
  by (induction n es rule: consume.induct) auto

lemma consume_consume [simp]:
  "m + n \<le> length (avail es) \<Longrightarrow> consume n (consume m es) = consume (m + n) es"
proof (induction m es arbitrary: n rule: consume.induct)
  case (2 m bs es)
  consider "m = 0" | "m \<noteq> 0" "length bs \<le> m" | "m \<noteq> 0" "m < length bs" by linarith
  then show ?case
  proof cases
    case 2
    have "consume n (consume m (Data bs # es)) = consume (m - length bs + n) es"
      using "2.IH" [of n] "2.prems" 2 by simp
    also have "m - length bs + n = m + n - length bs" using 2 by simp
    also have "consume \<dots> es = consume (m + n) (Data bs # es)" using 2 by simp
    finally show ?thesis .
  next
    case 3
    then show ?thesis by (auto simp: not_le add.commute)
  qed simp
qed auto

lemma avail_drain_le: "length (avail (consume n es)) \<le> length (avail es)"
  by (induction n es rule: consume.induct) auto

text \<open>One \<open>recv\<close> takes a non-empty prefix of what is available.\<close>

lemma recv_events_avail:
  assumes "avail es \<noteq> []" and "0 < k"
  shows "\<exists>got. recv_events k es = (Inr got, consume (length got) es) \<and> got \<noteq> [] \<and> length got \<le> k
    \<and> length got \<le> length (avail es) \<and> got = take (length got) (avail es)"
  using assms
proof (induction k es rule: recv_events.induct)
  case (4 k bs es)
  show ?case
  proof (cases "bs = []")
    case True
    with 4 obtain got where "recv_events k es = (Inr got, consume (length got) es)" "got \<noteq> []"
      "length got \<le> k" "length got \<le> length (avail es)" "got = take (length got) (avail es)" by auto
    with True show ?thesis by (intro exI [of _ got]) simp
  next
    case False
    with 4 show ?thesis by (intro exI [of _ "take k bs"]) (auto simp: min_def)
  qed
qed simp_all

lemma recv_events_stop:
  assumes "avail es = []" and "0 < k"
  shows "recv_events k es = (Inr [], drain es) \<and> stop_exn n f es = NfcProtocolError (ConnectionClosed n f)
       \<or> recv_events k es = (Inl (stop_exn n f es), drain es)"
  using assms by (induction k es rule: recv_events.induct) auto

lemma drain_consume: "n \<le> length (avail es) \<Longrightarrow> drain (consume n es) = drain es"
  by (induction n es rule: consume.induct) auto

lemma stop_exn_consume:
  "k \<le> length (avail es) \<Longrightarrow> stop_exn n (f + k) (consume k es) = stop_exn n f es"
proof (induction k es arbitrary: f rule: consume.induct)
  case (2 k bs es)
  then show ?case
    using "2.IH" [of "f + length bs"] by (auto simp: add.assoc)
qed auto

lemma sock_recv_avail:
  assumes "is_open s" and "avail (rx s) \<noteq> []" and "0 < k"
  obtains got where "sock_recv k s = (Inr got, s\<lparr>rx := consume (length got) (rx s)\<rparr>)"
    and "got \<noteq> []" and "length got \<le> k" and "length got \<le> length (avail (rx s))"
    and "got = take (length got) (avail (rx s))"
  using recv_events_avail [OF assms(2,3)] assms(1) by (auto simp: sock_recv_def)

declare recvn_into_loop.simps [simp del]

lemma recvn_into_loop_done [simp]:
  "n \<le> filled \<Longrightarrow> recvn_into_loop lo n filled (s, buf) = (Inr (), s, buf)"
  by (simp add: recvn_into_loop.simps)

text \<open>The step of the loop when bytes are available.\<close>

lemma recvn_into_loop_step:
  assumes "is_open s" and "avail (rx s) \<noteq> []" and "filled < n"
  obtains got where
    "recvn_into_loop lo n filled (s, buf) =
       recvn_into_loop lo n (filled + length got)
         (s\<lparr>rx := consume (length got) (rx s)\<rparr>, buf_assign buf (lo + filled) got)"
    and "got \<noteq> []" and "filled + length got \<le> n" and "length got \<le> length (avail (rx s))"
    and "got = take (length got) (avail (rx s))"
proof -
  have "0 < n - filled" using assms(3) by simp
  from sock_recv_avail [OF assms(1,2) this] obtain got where
    r: "sock_recv (n - filled) s = (Inr got, s\<lparr>rx := consume (length got) (rx s)\<rparr>)"
    and g: "got \<noteq> []" "length got \<le> n - filled" "length got \<le> length (avail (rx s))"
      "got = take (length got) (avail (rx s))" by metis
  have "recvn_into_loop lo n filled (s, buf) =
       recvn_into_loop lo n (filled + length got)
         (s\<lparr>rx := consume (length got) (rx s)\<rparr>, buf_assign buf (lo + filled) got)"
    using assms(3) r g(1) by (subst recvn_into_loop.simps) simp
  then show thesis using g assms(3) by (intro that) auto
qed

lemma recvn_into_loop_ok:
  assumes "is_open s" "filled \<le> n" "n - filled \<le> length (avail (rx s))" "lo + n \<le> length buf"
  shows "recvn_into_loop lo n filled (s, buf) =
    (Inr (), s\<lparr>rx := consume (n - filled) (rx s)\<rparr>,
     buf_assign buf (lo + filled) (take (n - filled) (avail (rx s))))"
  using assms
proof (induction "n - filled" arbitrary: filled s buf rule: less_induct)
  case less
  show ?case
  proof (cases "filled < n")
    case True
    with less.prems have "avail (rx s) \<noteq> []" by auto
    from recvn_into_loop_step [OF less.prems(1) this True, of lo buf] obtain got where
      step: "recvn_into_loop lo n filled (s, buf) =
        recvn_into_loop lo n (filled + length got)
          (s\<lparr>rx := consume (length got) (rx s)\<rparr>, buf_assign buf (lo + filled) got)"
      and g: "got \<noteq> []" "filled + length got \<le> n" "length got \<le> length (avail (rx s))"
        "got = take (length got) (avail (rx s))" by metis
    let ?k = "n - filled - length got"
    have lt: "n - (filled + length got) < n - filled" using g(1) True by (cases got) auto
    have eq: "n - (filled + length got) = ?k" by simp
    have "recvn_into_loop lo n filled (s, buf) =
      (Inr (), s\<lparr>rx := consume (n - filled) (rx s)\<rparr>,
       buf_assign (buf_assign buf (lo + filled) got) (lo + filled + length got)
         (take ?k (drop (length got) (avail (rx s)))))"
      using less.prems g lt unfolding step
      by (subst less.hyps) (auto simp: add.assoc)
    also have "buf_assign (buf_assign buf (lo + filled) got) (lo + filled + length got)
         (take ?k (drop (length got) (avail (rx s))))
       = buf_assign buf (lo + filled) (got @ take ?k (drop (length got) (avail (rx s))))"
      using less.prems g by (intro buf_assign_append) auto
    also have "got @ take ?k (drop (length got) (avail (rx s))) = take (n - filled) (avail (rx s))"
    proof -
      have "n - filled = length got + ?k" using g(2) by simp
      then have "take (n - filled) (avail (rx s)) =
        take (length got) (avail (rx s)) @ take ?k (drop (length got) (avail (rx s)))"
        by (metis take_add)
      then show ?thesis using g(4) by simp
    qed
    finally show ?thesis .
  qed (use less.prems in simp)
qed

lemma recvn_into_loop_stop:
  assumes "is_open s" "length (avail (rx s)) < n - filled" "lo + n \<le> length buf"
  shows "recvn_into_loop lo n filled (s, buf) =
    (Inl (stop_exn n filled (rx s)), s\<lparr>rx := drain (rx s)\<rparr>,
     buf_assign buf (lo + filled) (avail (rx s)))"
  using assms
proof (induction "n - filled" arbitrary: filled s buf rule: less_induct)
  case less
  have lt: "filled < n" using less.prems by simp
  show ?case
  proof (cases "avail (rx s) = []")
    case True
    then show ?thesis
      using recv_events_stop [OF True, of "n - filled" n filled] lt less.prems
      by (subst recvn_into_loop.simps) (auto simp: sock_recv_def)
  next
    case False
    from recvn_into_loop_step [OF less.prems(1) False lt, of lo buf] obtain got where
      step: "recvn_into_loop lo n filled (s, buf) =
        recvn_into_loop lo n (filled + length got)
          (s\<lparr>rx := consume (length got) (rx s)\<rparr>, buf_assign buf (lo + filled) got)"
      and g: "got \<noteq> []" "filled + length got \<le> n" "length got \<le> length (avail (rx s))"
        "got = take (length got) (avail (rx s))" by metis
    have "n - (filled + length got) < n - filled" using g(1) lt by (cases got) auto
    then have "recvn_into_loop lo n filled (s, buf) =
      (Inl (stop_exn n filled (rx s)), s\<lparr>rx := drain (rx s)\<rparr>,
       buf_assign (buf_assign buf (lo + filled) got) (lo + filled + length got)
         (drop (length got) (avail (rx s))))"
      using less.prems g unfolding step
      by (subst less.hyps) (auto simp: add.assoc drain_consume stop_exn_consume)
    also have "buf_assign (buf_assign buf (lo + filled) got) (lo + filled + length got)
         (drop (length got) (avail (rx s)))
       = buf_assign buf (lo + filled) (got @ drop (length got) (avail (rx s)))"
      using less.prems g by (intro buf_assign_append) auto
    also have "got @ drop (length got) (avail (rx s)) = avail (rx s)"
      using g(4) by (metis append_take_drop_id)
    finally show ?thesis .
  qed
qed

lemma recvn_into_ok:
  "is_open s \<Longrightarrow> n \<le> length (avail (rx s)) \<Longrightarrow> lo + n \<le> length buf \<Longrightarrow>
     recvn_into lo n (s, buf) =
       (Inr (), s\<lparr>rx := consume n (rx s)\<rparr>, buf_assign buf lo (take n (avail (rx s))))"
  using recvn_into_loop_ok [of s 0 n lo buf] by (simp add: recvn_into_def)

lemma recvn_into_stop:
  "is_open s \<Longrightarrow> length (avail (rx s)) < n \<Longrightarrow> lo + n \<le> length buf \<Longrightarrow>
     recvn_into lo n (s, buf) =
       (Inl (stop_exn n 0 (rx s)), s\<lparr>rx := drain (rx s)\<rparr>, buf_assign buf lo (avail (rx s)))"
  using recvn_into_loop_stop [of s n 0 lo buf] by (simp add: recvn_into_def)

lemma recvn_into_closed:
  "\<not> is_open s \<Longrightarrow> recvn_into lo n (s, buf) = (if n = 0 then Inr () else Inl EBADF, s, buf)"
  by (simp add: recvn_into_def recvn_into_loop.simps sock_recv_def)

lemma recvn_ok [simp]:
  "is_open s \<Longrightarrow> n \<le> length (avail (rx s)) \<Longrightarrow>
     recvn n s = (Inr (take n (avail (rx s))), s\<lparr>rx := consume n (rx s)\<rparr>)"
  by (simp add: recvn_def recvn_into_ok buf_assign_def)

lemma recvn_stop:
  "is_open s \<Longrightarrow> length (avail (rx s)) < n \<Longrightarrow>
     recvn n s = (Inl (stop_exn n 0 (rx s)), s\<lparr>rx := drain (rx s)\<rparr>)"
  by (simp add: recvn_def recvn_into_stop)

lemma recvn_closed: "\<not> is_open s \<Longrightarrow> recvn n s = (if n = 0 then Inr [] else Inl EBADF, s)"
  by (simp add: recvn_def recvn_into_closed)

lemma recvn_0 [simp]: "recvn 0 s = (Inr [], s)"
  by (simp add: recvn_def recvn_into_def)

text \<open>The whole behaviour of \<open>_recvn_into\<close>, by cases on what is available.\<close>

lemma recvn_into_cases:
  assumes "lo + n \<le> length buf"
  obtains (ok) "is_open s" "n \<le> length (avail (rx s))"
      "recvn_into lo n (s, buf) =
         (Inr (), s\<lparr>rx := consume n (rx s)\<rparr>, buf_assign buf lo (take n (avail (rx s))))"
  | (stop) "is_open s" "length (avail (rx s)) < n"
      "recvn_into lo n (s, buf) =
         (Inl (stop_exn n 0 (rx s)), s\<lparr>rx := drain (rx s)\<rparr>, buf_assign buf lo (avail (rx s)))"
  | (closed) "\<not> is_open s" "recvn_into lo n (s, buf) = (if n = 0 then Inr () else Inl EBADF, s, buf)"
  using recvn_into_ok [of s n lo buf] recvn_into_stop [of s n lo buf]
    recvn_into_closed [of s lo n buf] assms by (meson not_le)

lemma recvn_cases:
  obtains (ok) "is_open s" "n \<le> length (avail (rx s))"
      "recvn n s = (Inr (take n (avail (rx s))), s\<lparr>rx := consume n (rx s)\<rparr>)"
  | (stop) "is_open s" "length (avail (rx s)) < n"
      "recvn n s = (Inl (stop_exn n 0 (rx s)), s\<lparr>rx := drain (rx s)\<rparr>)"
  | (closed) "\<not> is_open s" "recvn n s = (if n = 0 then Inr [] else Inl EBADF, s)"
  using recvn_ok [of s n] recvn_stop [of s n] recvn_closed [of s n] by (meson not_le)

lemma recvn_InrD: "recvn n s = (Inr bs, s') \<Longrightarrow> length bs = n"
  by (rule recvn_cases [of s n]) (auto split: if_splits)

subsection \<open>What every socket operation keeps\<close>

text \<open>
  Bytes that were sent stay sent, a closed socket stays closed and takes nothing more, and nothing
  is ever received twice.
\<close>

definition sock_evolves :: "sock \<Rightarrow> sock \<Rightarrow> bool" where
  "sock_evolves s s' \<longleftrightarrow> (\<exists>sent. tx s' = tx s @ sent \<and> (\<not> is_open s \<longrightarrow> sent = [])) \<and>
     (is_open s' \<longrightarrow> is_open s) \<and> close_fault s' = close_fault s"

text \<open>Receiving changes the incoming stream only.\<close>

definition rx_only :: "sock \<Rightarrow> sock \<Rightarrow> bool" where
  "rx_only s s' \<longleftrightarrow> (\<exists>es. s' = s\<lparr>rx := es\<rparr>)"

lemma rx_only_iff:
  "rx_only s s' \<longleftrightarrow> tx s' = tx s \<and> room s' = room s \<and> is_open s' = is_open s \<and> close_fault s' = close_fault s"
  unfolding rx_only_def by (cases s; cases s') auto

text \<open>Sending and receiving never close a socket.\<close>

definition sock_alive :: "sock \<Rightarrow> sock \<Rightarrow> bool" where
  "sock_alive s s' \<longleftrightarrow> is_open s' = is_open s"

text \<open>
  A relation between socket states that \<open>recv\<close> keeps is kept by whatever only receives; one that
  \<open>sendall\<close> keeps too, by whatever only sends and receives. The functions of the later theories are
  added to these locales as they are defined.
\<close>

locale rx_frame = state_preorder R for R :: "sock \<Rightarrow> sock \<Rightarrow> bool" +
  assumes frame_recv: "keeps R (sock_recv k)"
begin

lemma recvn_into_loop_frame: "recvn_into_loop lo n filled (s, buf) = (r, s', buf') \<Longrightarrow> R s s'"
proof (induction lo n filled "(s, buf)" arbitrary: s buf rule: recvn_into_loop.induct)
  case (1 lo n filled s buf)
  obtain r1 s1 where rc: "sock_recv (n - filled) s = (r1, s1)" by (cases "sock_recv (n - filled) s")
  have e: "R s s1" by (rule keepsD [OF frame_recv rc])
  show ?case
  proof (cases "\<exists>got. filled < n \<and> r1 = Inr got \<and> got \<noteq> []")
    case False
    then show ?thesis
      using "1.prems" rc e refl_R by (subst (asm) recvn_into_loop.simps) (auto split: if_splits sum.splits)
  next
    case True
    then obtain got where g: "filled < n" "r1 = Inr got" "got \<noteq> []" by blast
    then have "recvn_into_loop lo n (filled + length got) (s1, buf_assign buf (lo + filled) got) = (r, s', buf')"
      using "1.prems" rc by (subst (asm) recvn_into_loop.simps) simp
    then have "R s1 s'" using "1.hyps" [OF g(1) rc [symmetric] g(2)] g(3) by blast
    then show ?thesis by (rule trans_R [OF e])
  qed
qed

lemma frame_recvn: "keeps R (recvn n)"
  unfolding keeps_def
proof
  fix s
  obtain r s' buf where l: "recvn_into 0 n (s, replicate n 0) = (r, s', buf)" by (metis prod_cases3)
  have "R s s'" using l by (intro recvn_into_loop_frame) (simp add: recvn_into_def)
  then show "R s (snd (recvn n s))" using l by (simp add: recvn_def split: sum.splits)
qed

end

locale sock_frame = rx_frame +
  assumes frame_sendall: "keeps R (sock_sendall bs)"

interpretation sock_pre: sock_frame sock_evolves
proof unfold_locales
  show "sock_evolves s s" for s by (simp add: sock_evolves_def)
  show "sock_evolves s u" if "sock_evolves s t" "sock_evolves t u" for s t u
    using that by (fastforce simp: sock_evolves_def)
  show "keeps sock_evolves (sock_recv k)" for k
    by (auto simp: keeps_def sock_evolves_def sock_recv_def split: prod.splits)
  show "keeps sock_evolves (sock_sendall bs)" for bs
    by (auto simp: keeps_def sock_evolves_def sock_sendall_def split: option.splits)
qed

interpretation rx_pre: rx_frame rx_only
  by unfold_locales (auto simp: rx_only_iff keeps_def sock_recv_def split: prod.splits)

interpretation alive_pre: sock_frame sock_alive
  by unfold_locales
    (auto simp: sock_alive_def keeps_def sock_recv_def sock_sendall_def split: prod.splits option.splits)

lemma keeps_sock_close: "keeps sock_evolves sock_close"
  by (auto simp: keeps_def sock_evolves_def sock_close_def)

lemma sock_sendall_ok [simp]:
  "is_open s \<Longrightarrow> room s = None \<Longrightarrow> sock_sendall bs s = (Inr (), s\<lparr>tx := tx s @ bs\<rparr>)"
  by (simp add: sock_sendall_def)

lemma sock_sendall_InrD:
  "sock_sendall bs s = (Inr u, s') \<Longrightarrow> tx s' = tx s @ bs \<and> rx s' = rx s \<and> is_open s \<and> is_open s'"
  by (auto simp: sock_sendall_def split: if_splits option.splits)

lemma sock_close_closes [simp]: "\<not> is_open (snd (sock_close s))"
  by (simp add: sock_close_def)

text \<open>
  C28. \<open>_recvn\<close> refines the byte stream: on an open socket it returns exactly the next \<open>n\<close> bytes of the
  stream and leaves the bytes after them, however the network cut the stream into segments; with
  fewer than \<open>n\<close> bytes before the end of the stream it raises, and with an orderly shutdown the
  exception is \<open>NfcProtocolError\<close> with the number of bytes that did arrive.
\<close>

theorem recvn_refines_stream:
  "is_open s \<Longrightarrow>
     (if n \<le> length (avail (rx s))
      then \<exists>es. recvn n s = (Inr (take n (avail (rx s))), s\<lparr>rx := es\<rparr>) \<and> avail es = drop n (avail (rx s))
      else \<exists>s'. recvn n s = (Inl (stop_exn n 0 (rx s)), s') \<and> avail (rx s') = avail (drain (rx s)))"
  by (auto simp: recvn_stop not_le)

text \<open>Two segments and a shutdown: three bytes can be received, four cannot.\<close>

definition demo_sock :: "rx_event list \<Rightarrow> sock" where
  "demo_sock es = \<lparr>rx = es, tx = [], room = None, is_open = True, close_fault = None\<rparr>"

theorem recvn_refines_stream_witness:
  "(\<exists>es. recvn 3 (demo_sock [Data [1], Data [2, 3], Eof]) =
          (Inr [1, 2, 3], (demo_sock [Data [1], Data [2, 3], Eof])\<lparr>rx := es\<rparr>) \<and> avail es = []) \<and>
   (\<exists>s'. recvn 4 (demo_sock [Data [1], Data [2, 3], Eof]) =
          (Inl (NfcProtocolError (ConnectionClosed 4 3)), s') \<and> avail (rx s') = [])"
  using recvn_refines_stream [of "demo_sock [Data [1], Data [2, 3], Eof]" 3]
    recvn_refines_stream [of "demo_sock [Data [1], Data [2, 3], Eof]" 4]
  by (simp add: demo_sock_def numeral_eq_Suc)

end
