(* ===== verification/FastLz.thy ===== *)
theory FastLz
  imports PyStruct
begin

text \<open>
  \<open>openvixdisklib/fastlz.py\<close>: the adapter between raw FastLZ extras of the NFC wire and the pip
  package \<open>pyfastlz\<close>, whose buffers carry a native \<open>uint32\<close> prefix with the uncompressed length.

  The package is a parameter of the model, the record \<open>fastlz_lib\<close> of its two functions (\<open>Inl m\<close> is
  \<open>FastlzError(m)\<close>). \<open>pyfastlz_ok\<close> states its documented behaviour: what \<open>compress\<close> returns is the
  prefix followed by compressed bytes, and \<open>decompress\<close> undoes it. The native byte order is the
  little-endian one of the supported hosts.
\<close>

record fastlz_lib =
  lib_compress :: "nat \<Rightarrow> byte list \<Rightarrow> string + byte list"
  lib_decompress :: "byte list \<Rightarrow> string + byte list"

definition PREFIX_SIZE :: nat where
  [simp]: "PREFIX_SIZE = 4"

definition compress :: "fastlz_lib \<Rightarrow> byte list \<Rightarrow> exn + byte list" where
  "compress lib data =
     (let level = (if length data < 65536 then 1 else 2) in
      case lib_compress lib level data of
        Inl m \<Rightarrow> Inl (ValueError (Text m))
      | Inr wrapped \<Rightarrow>
          if length wrapped < PREFIX_SIZE
          then Inl (ValueError (Text ''FastLZ compress returned a truncated buffer''))
          else Inr (drop PREFIX_SIZE wrapped))"

definition decompress :: "fastlz_lib \<Rightarrow> byte list \<Rightarrow> nat \<Rightarrow> exn + byte list" where
  "decompress lib data maxout =
     (if data = [] then Inl (ValueError (Text ''FastLZ input is empty''))
      else case struct_pack [FI] [int maxout] of
        Inl e \<Rightarrow> Inl e
      | Inr prefix \<Rightarrow>
          (case lib_decompress lib (prefix @ data) of
             Inl m \<Rightarrow> Inl (ValueError (Text m))
           | Inr out \<Rightarrow>
               if maxout < length out then Inl (ValueError (FastLzCap (length out) maxout))
               else Inr out))"

subsection \<open>The contract of the package\<close>

definition pyfastlz_ok :: "fastlz_lib \<Rightarrow> bool" where
  "pyfastlz_ok lib \<longleftrightarrow>
     (\<forall>level data w. length data < 2 ^ 32 \<longrightarrow> lib_compress lib level data = Inr w \<longrightarrow>
        take 4 w = le_bytes 4 (length data) \<and> lib_decompress lib w = Inr data)"

lemma pyfastlz_okD:
  assumes "pyfastlz_ok lib" "length data < 2 ^ 32" "lib_compress lib level data = Inr w"
  shows "w = le_bytes 4 (length data) @ drop 4 w" and "lib_decompress lib w = Inr data"
    and "4 \<le> length w"
proof -
  have t: "take 4 w = le_bytes 4 (length data)" and d: "lib_decompress lib w = Inr data"
    using assms unfolding pyfastlz_ok_def by blast+
  show "w = le_bytes 4 (length data) @ drop 4 w" using t by (metis append_take_drop_id)
  show "lib_decompress lib w = Inr data" by (rule d)
  have "length (take 4 w) = 4" unfolding t by simp
  then show "4 \<le> length w" by (simp add: min_def split: if_splits)
qed

lemma struct_pack_FI: "v < 2 ^ 32 \<Longrightarrow> struct_pack [FI] [int v] = Inr (le_bytes 4 v)"
  by (simp add: pack1_def)

text \<open>What \<open>decompress\<close> returns never exceeds the cap, whatever the package does.\<close>

lemma decompress_cap: "decompress lib data maxout = Inr out \<Longrightarrow> length out \<le> maxout \<and> data \<noteq> []"
  by (auto simp: decompress_def split: if_splits sum.splits)

lemma decompress_InlD:
  "decompress lib data maxout = Inl e \<Longrightarrow> (\<exists>m. e = ValueError m) \<or> e = StructError"
  by (auto simp: decompress_def dest: pack1_InlD split: if_splits sum.splits)

lemma compress_InrD:
  "compress lib data = Inr packed \<Longrightarrow> \<exists>level w. lib_compress lib level data = Inr w \<and> packed = drop 4 w"
  by (auto simp: compress_def Let_def split: sum.splits if_splits)

text \<open>The prefix that \<open>decompress\<close> rebuilds is the one that \<open>compress\<close> stripped.\<close>

lemma decompress_compress:
  assumes "pyfastlz_ok lib" and "length data < 2 ^ 32" and "compress lib data = Inr packed" and "packed \<noteq> []"
  shows "decompress lib packed (length data) = Inr data"
proof -
  obtain level w where w: "lib_compress lib level data = Inr w" and p: "packed = drop 4 w"
    using compress_InrD [OF assms(3)] by blast
  have "le_bytes 4 (length data) @ packed = w" using pyfastlz_okD(1) [OF assms(1,2) w] p by simp
  moreover have "lib_decompress lib w = Inr data" by (rule pyfastlz_okD(2) [OF assms(1,2) w])
  ultimately show ?thesis using assms(4) struct_pack_FI [OF assms(2)] by (simp add: decompress_def)
qed

text \<open>
  C31. The adapter round trip: bytes compressed by \<open>fastlz.compress\<close> and handed to
  \<open>fastlz.decompress\<close> with their uncompressed length come back unchanged, although the prefix was
  stripped on the way, for every package that behaves as documented; with a smaller cap the call
  never returns more than the cap.
\<close>

theorem fastlz_roundtrip:
  "pyfastlz_ok lib \<Longrightarrow> length data < 2 ^ 32 \<Longrightarrow> compress lib data = Inr packed \<Longrightarrow> packed \<noteq> [] \<Longrightarrow>
     decompress lib packed (length data) = Inr data \<and>
     (case decompress lib packed cap of Inl e \<Rightarrow> True | Inr out \<Rightarrow> length out \<le> cap)"
  using decompress_compress [of lib data packed] decompress_cap [of lib packed cap]
  by (auto split: sum.splits)

subsection \<open>A concrete package\<close>

text \<open>
  A package that meets the contract, for the witnesses: an all-zero buffer shrinks to one byte
  behind the prefix, every other buffer is stored behind a marker.
\<close>

definition zero_run_lz :: fastlz_lib where
  "zero_run_lz = \<lparr>
     lib_compress = (\<lambda>_ data. Inr (le_bytes 4 (length data) @
        (if data = replicate (length data) 0 then [1] else 0 # data))),
     lib_decompress = (\<lambda>w. case drop 4 w of
        [] \<Rightarrow> Inl ''empty''
      | m # d \<Rightarrow> if m = 1 \<and> d = [] then Inr (replicate (le_val (take 4 w)) 0) else Inr d)\<rparr>"

lemma zero_run_lz_ok: "pyfastlz_ok zero_run_lz"
  unfolding pyfastlz_ok_def zero_run_lz_def
  by (auto simp: le_val_le_bytes split: if_splits)

lemma decompress_zero_run:
  "n < 2 ^ 32 \<Longrightarrow> decompress zero_run_lz [1] n = Inr (replicate n 0)"
  by (simp add: decompress_def pack1_FI_nat zero_run_lz_def le_val_le_bytes)

theorem fastlz_roundtrip_witness:
  "pyfastlz_ok zero_run_lz \<and> compress zero_run_lz [0, 0, 0] = Inr [1] \<and>
   decompress zero_run_lz [1] 3 = Inr [0, 0, 0]"
proof -
  have c: "compress zero_run_lz [0, 0, 0] = Inr [1]"
    by (simp add: compress_def zero_run_lz_def)
  show ?thesis
    using fastlz_roundtrip [OF zero_run_lz_ok _ c, of 3] c zero_run_lz_ok by (simp add: numeral_3_eq_3)
qed

end
