(* ===== verification/NfcWire.thy ===== *)
theory NfcWire
  imports Socket FastLz
begin

text \<open>
  The wire formats of \<open>openvixdisklib/nfc_open.py\<close>: its constants, the classic 264-byte messages
  (\<open>_send_nfc_msg\<close>, \<open>_recv_nfc_msg\<close>), the 16-byte AIO header (\<open>_pack_aio_hdr\<close>, \<open>_unpack_aio_hdr\<close>) and
  the size of an IO extra (\<open>_aio_extra_len\<close>). The header is an interpretation of \<open>wire_codec\<close>.
\<close>

subsection \<open>Constants\<close>

definition NFC_MSG_SIZE :: nat where
  [simp]: "NFC_MSG_SIZE = 264"
definition NFC_AIO_MAGIC :: nat where
  [simp]: "NFC_AIO_MAGIC = 0xA100DA7A"
definition NFC_AIO_HDR_SIZE :: nat where
  [simp]: "NFC_AIO_HDR_SIZE = 16"
definition NFC_SECTOR_SIZE :: nat where
  [simp]: "NFC_SECTOR_SIZE = 512"
definition NFC_PROTOCOL_VERSION :: int where
  [simp]: "NFC_PROTOCOL_VERSION = 11"
definition NFC_AIO_BUFFER_SIZE :: int where
  [simp]: "NFC_AIO_BUFFER_SIZE = 65536"
definition NFC_AIO_BUFFER_COUNT :: int where
  [simp]: "NFC_AIO_BUFFER_COUNT = 1"

definition NFC_MSG_SESSION_COMPLETE :: nat where
  [simp]: "NFC_MSG_SESSION_COMPLETE = 4"
definition NFC_MSG_SESSION_PARAMS :: nat where
  [simp]: "NFC_MSG_SESSION_PARAMS = 33"
definition NFC_MSG_SESSION_PARAMS_REPLY :: nat where
  [simp]: "NFC_MSG_SESSION_PARAMS_REPLY = 36"
definition NFC_MSG_HANDSHAKE :: nat where
  [simp]: "NFC_MSG_HANDSHAKE = 43"
definition NFC_MSG_VERSION :: nat where
  [simp]: "NFC_MSG_VERSION = 51"
definition NFC_MSG_AIO_SESSION_OPEN :: nat where
  [simp]: "NFC_MSG_AIO_SESSION_OPEN = 52"
definition NFC_MSG_CONNECTION_DATA :: nat where
  [simp]: "NFC_MSG_CONNECTION_DATA = 54"
definition NFC_MSG_SESSION_FEATURES :: nat where
  [simp]: "NFC_MSG_SESSION_FEATURES = 55"

definition NFC_SESSION_FEATURE_INTERRUPTION_SWITCH :: int where
  [simp]: "NFC_SESSION_FEATURE_INTERRUPTION_SWITCH = 3"

definition NFC_AIO_MSG_ERROR :: nat where
  [simp]: "NFC_AIO_MSG_ERROR = 1"
definition NFC_AIO_MSG_OPEN_SESSION :: nat where
  [simp]: "NFC_AIO_MSG_OPEN_SESSION = 2"
definition NFC_AIO_MSG_CLOSE_SESSION :: nat where
  [simp]: "NFC_AIO_MSG_CLOSE_SESSION = 3"
definition NFC_AIO_MSG_OPEN_FILE :: nat where
  [simp]: "NFC_AIO_MSG_OPEN_FILE = 4"
definition NFC_AIO_MSG_CLOSE_FILE :: nat where
  [simp]: "NFC_AIO_MSG_CLOSE_FILE = 5"
definition NFC_AIO_MSG_IO :: nat where
  [simp]: "NFC_AIO_MSG_IO = 7"
definition NFC_AIO_MSG_SET_SOCK_OPTS :: nat where
  [simp]: "NFC_AIO_MSG_SET_SOCK_OPTS = 9"
definition NFC_AIO_MSG_SET_RES_POOL :: nat where
  [simp]: "NFC_AIO_MSG_SET_RES_POOL = 22"

definition NFC_DISK :: nat where
  [simp]: "NFC_DISK = 2"
definition NFC_OPEN_FLAGS_READ_ONLY :: int where
  [simp]: "NFC_OPEN_FLAGS_READ_ONLY = 0x1E"
definition NFC_OPEN_FLAGS_READ_WRITE :: int where
  [simp]: "NFC_OPEN_FLAGS_READ_WRITE = 0x1A"

definition NFC_AIO_IO_WRITE :: int where
  [simp]: "NFC_AIO_IO_WRITE = 0"
definition NFC_AIO_IO_READ :: int where
  [simp]: "NFC_AIO_IO_READ = 1"

definition NFC_COMPRESSION_NONE :: nat where
  [simp]: "NFC_COMPRESSION_NONE = 0"
definition NFC_COMPRESSION_FASTLZ :: nat where
  [simp]: "NFC_COMPRESSION_FASTLZ = 2"

subsection \<open>Classic messages\<close>

definition send_nfc_msg :: "nat \<Rightarrow> byte list \<Rightarrow> (sock, unit) io" where
  "send_nfc_msg msg_type body =
     then_io (raise_if (length body > NFC_MSG_SIZE - 4)
                (ValueError (Text ''NFC classic message body too large'')))
     (bind_io (lift (struct_pack [FI] [int msg_type])) (\<lambda>t.
      sock_sendall (ljust0 NFC_MSG_SIZE (t @ body))))"

definition recv_nfc_msg :: "(sock, nat \<times> byte list) io" where
  "recv_nfc_msg =
     bind_io (recvn NFC_MSG_SIZE) (\<lambda>frame.
     bind_io (lift (unpack_I frame 0)) (\<lambda>msg_type.
     ret (msg_type, drop 4 frame)))"

context rx_frame
begin

lemma frame_recv_nfc_msg: "keeps R recv_nfc_msg"
  unfolding recv_nfc_msg_def by (intro keeps_intros frame_recvn)

end

context sock_frame
begin

lemma frame_send_nfc_msg: "keeps R (send_nfc_msg t body)"
  unfolding send_nfc_msg_def by (intro keeps_intros frame_sendall)

end

subsection \<open>AIO headers\<close>

definition pack_aio_hdr :: "nat \<Rightarrow> nat \<Rightarrow> nat \<Rightarrow> exn + byte list" where
  "pack_aio_hdr msg_type payload_size op_id =
     struct_pack [FI, FI, FI, FI] [int NFC_AIO_MAGIC, int msg_type, int payload_size, int op_id]"

definition unpack_aio_hdr :: "byte list \<Rightarrow> exn + (nat \<times> nat \<times> nat)" where
  "unpack_aio_hdr hdr =
     (case unpack_IIII hdr 0 of
        Inl e \<Rightarrow> Inl e
      | Inr (magic, msg_type, rsize, op_id) \<Rightarrow>
          if magic \<noteq> NFC_AIO_MAGIC then Inl (NfcProtocolError (MagicMismatch magic))
          else if msg_type = NFC_AIO_MSG_ERROR then Inl (NfcProtocolError (AioError op_id rsize))
          else Inr (msg_type, rsize, op_id))"

definition aio_extra_len :: "nat \<Rightarrow> byte list \<Rightarrow> nat \<Rightarrow> exn + nat" where
  "aio_extra_len ctype body chunk_len =
     (if ctype = NFC_COMPRESSION_FASTLZ then
        (case unpack_I body 36 of
           Inl e \<Rightarrow> Inl e
         | Inr extra_len \<Rightarrow>
             if extra_len < 1 then Inl (NfcProtocolError (FastLzExtraInvalid extra_len chunk_len))
             else Inr extra_len)
      else if ctype = NFC_COMPRESSION_NONE then Inr chunk_len
      else Inl (NfcProtocolError (UnsupportedIoCompression ctype)))"

subsection \<open>Facts about the formats\<close>

lemma unpack_I_le: "off + 4 \<le> length buf \<Longrightarrow> unpack_I buf off = Inr (le_val (take 4 (drop off buf)))"
  by (simp add: unpack_I_def unpack_from_def)

lemma unpack_Q_le: "off + 8 \<le> length buf \<Longrightarrow> unpack_Q buf off = Inr (le_val (take 8 (drop off buf)))"
  by (simp add: unpack_Q_def unpack_from_def)

lemma unpack_II_le:
  "off + 8 \<le> length buf \<Longrightarrow> unpack_II buf off =
     Inr (le_val (take 4 (drop off buf)), le_val (take 4 (drop (off + 4) buf)))"
  by (simp add: unpack_II_def unpack_from_def add.commute)

lemma unpack_IIII_le:
  "off + 16 \<le> length buf \<Longrightarrow> unpack_IIII buf off =
     Inr (le_val (take 4 (drop off buf)), le_val (take 4 (drop (off + 4) buf)),
          le_val (take 4 (drop (off + 8) buf)), le_val (take 4 (drop (off + 12) buf)))"
  by (simp add: unpack_IIII_def unpack_from_def numeral_2_eq_2 numeral_3_eq_3 add.commute)

definition u32 :: "nat \<Rightarrow> bool" where
  "u32 v \<longleftrightarrow> v < 2 ^ 32"

definition aio_hdr :: "nat \<Rightarrow> nat \<Rightarrow> nat \<Rightarrow> byte list" where
  "aio_hdr t n op = le_bytes 4 NFC_AIO_MAGIC @ le_bytes 4 t @ le_bytes 4 n @ le_bytes 4 op"

lemma length_aio_hdr [simp]: "length (aio_hdr t n op) = 16"
  by (simp add: aio_hdr_def)

lemma pack_aio_hdr_ok: "u32 t \<Longrightarrow> u32 n \<Longrightarrow> u32 op \<Longrightarrow> pack_aio_hdr t n op = Inr (aio_hdr t n op)"
  by (simp add: pack_aio_hdr_def pack1_def u32_def aio_hdr_def)

lemma pack_aio_hdr_Inr_iff:
  "pack_aio_hdr t n op = Inr bs \<longleftrightarrow> u32 t \<and> u32 n \<and> u32 op \<and> bs = aio_hdr t n op"
  by (auto simp: pack_aio_hdr_def pack1_def u32_def aio_hdr_def split: if_splits)

lemma pack_aio_hdr_Inl_iff:
  "pack_aio_hdr t n op = Inl e \<longleftrightarrow> \<not> (u32 t \<and> u32 n \<and> u32 op) \<and> e = StructError"
  by (auto simp: pack_aio_hdr_def pack1_def u32_def split: if_splits)

lemma unpack_IIII_aio_hdr:
  "u32 t \<Longrightarrow> u32 n \<Longrightarrow> u32 op \<Longrightarrow> unpack_IIII (aio_hdr t n op @ rest) 0 = Inr (NFC_AIO_MAGIC, t, n, op)"
  by (simp add: unpack_IIII_le aio_hdr_def le_val_le_bytes u32_def)

interpretation aio_hdr_codec: wire_codec
  "\<lambda>(t, n, op). t \<noteq> NFC_AIO_MSG_ERROR" "\<lambda>(t, n, op). pack_aio_hdr t n op" unpack_aio_hdr 16
  by unfold_locales
    (auto simp: pack_aio_hdr_Inr_iff unpack_aio_hdr_def unpack_IIII_aio_hdr [simplified])

text \<open>
  C29. The AIO header round trip. Packing succeeds exactly when the type, the size and the \<open>opId\<close> all fit in
  32 bits, and raises \<open>struct.error\<close> otherwise. A packed header is 16 bytes; \<open>_unpack_aio_hdr\<close> reads back
  its three values whatever follows it in the buffer, except that a type 1 header is reported as the
  AIO error it is.
\<close>

theorem aio_hdr_roundtrip:
  "if u32 t \<and> u32 n \<and> u32 op
   then (case pack_aio_hdr t n op of
           Inl e \<Rightarrow> False
         | Inr bs \<Rightarrow> length bs = NFC_AIO_HDR_SIZE \<and>
             unpack_aio_hdr (bs @ rest) =
               (if t = NFC_AIO_MSG_ERROR then Inl (NfcProtocolError (AioError op n)) else Inr (t, n, op)))
   else pack_aio_hdr t n op = Inl StructError"
  using aio_hdr_codec.dec_enc [of "(t, n, op)" "aio_hdr t n op" rest]
  by (auto simp: pack_aio_hdr_ok pack_aio_hdr_Inl_iff unpack_aio_hdr_def unpack_IIII_aio_hdr [simplified])

theorem aio_hdr_roundtrip_witness:
  "pack_aio_hdr 7 44 18 = Inr (aio_hdr 7 44 18) \<and>
   unpack_aio_hdr (aio_hdr 7 44 18 @ [1, 2]) = Inr (7, 44, 18) \<and>
   pack_aio_hdr 7 44 (2 ^ 32) = Inl StructError"
  using aio_hdr_roundtrip [of 7 44 18 "[1, 2]"] aio_hdr_roundtrip [of 7 44 "2 ^ 32"]
  by (simp add: pack_aio_hdr_ok u32_def)

definition nfc_frame :: "nat \<Rightarrow> byte list \<Rightarrow> byte list" where
  "nfc_frame t body = ljust0 264 (le_bytes 4 t @ body)"

lemma length_nfc_frame: "length body \<le> 260 \<Longrightarrow> length (nfc_frame t body) = 264"
  by (simp add: nfc_frame_def)

lemma send_nfc_msg_alt:
  "u32 t \<Longrightarrow> send_nfc_msg t body =
     (if length body \<le> 260 then sock_sendall (nfc_frame t body)
      else raise (ValueError (Text ''NFC classic message body too large'')))"
  by (simp add: send_nfc_msg_def nfc_frame_def pack1_def u32_def not_le)

lemma send_nfc_msg_InrD:
  assumes "send_nfc_msg t body s = (Inr u, s')"
  shows "u32 t \<and> length body \<le> 260 \<and> sock_sendall (nfc_frame t body) s = (Inr u, s')"
proof -
  have "u32 t" using assms
    by (auto simp: send_nfc_msg_def pack1_def u32_def split: if_splits)
  then show ?thesis using assms by (auto simp: send_nfc_msg_alt split: if_splits)
qed

lemma nfc_frame_eq: "length body \<le> 260 \<Longrightarrow> nfc_frame t body = le_bytes 4 t @ ljust0 260 body"
  by (simp add: nfc_frame_def ljust0_def)

lemma recv_nfc_msg_ok:
  assumes "is_open p" and "264 \<le> length (avail (rx p))"
  shows "recv_nfc_msg p = (Inr (le_val (take 4 (avail (rx p))), take 260 (drop 4 (avail (rx p)))),
           p\<lparr>rx := consume 264 (rx p)\<rparr>)"
proof -
  have "recvn NFC_MSG_SIZE p = (Inr (take 264 (avail (rx p))), p\<lparr>rx := consume 264 (rx p)\<rparr>)"
    using assms by simp
  then show ?thesis
    using assms(2) by (simp add: recv_nfc_msg_def unpack_I_le min_def drop_take)
qed

text \<open>
  C30. The classic message round trip over two sockets: what \<open>_send_nfc_msg\<close> puts on the wire is one
  264-byte frame, and \<open>_recv_nfc_msg\<close> on the other side returns its type and its body padded with
  zeros to 260 bytes, leaving what follows the frame in the stream.
\<close>

theorem nfc_msg_roundtrip:
  "send_nfc_msg t body s = (Inr u, s') \<Longrightarrow> tx s' = tx s @ frame \<Longrightarrow>
   is_open p \<Longrightarrow> avail (rx p) = frame @ rest \<Longrightarrow>
     length frame = NFC_MSG_SIZE \<and>
     (\<exists>es. recv_nfc_msg p = (Inr (t, ljust0 260 body), p\<lparr>rx := es\<rparr>) \<and> avail es = rest)"
proof -
  assume send: "send_nfc_msg t body s = (Inr u, s')" and "tx s' = tx s @ frame"
    and p: "is_open p" "avail (rx p) = frame @ rest"
  then have tb: "u32 t" "length body \<le> 260" and frame: "frame = le_bytes 4 t @ ljust0 260 body"
    by (auto dest!: send_nfc_msg_InrD sock_sendall_InrD simp: nfc_frame_eq)
  have len: "length frame = 264" using frame tb by simp
  have "le_val (take 4 (avail (rx p))) = t" and "take 260 (drop 4 (avail (rx p))) = ljust0 260 body"
    using p(2) frame tb by (simp_all add: le_val_le_bytes u32_def)
  then have "recv_nfc_msg p = (Inr (t, ljust0 260 body), p\<lparr>rx := consume 264 (rx p)\<rparr>)"
    using recv_nfc_msg_ok [OF p(1)] p(2) len tb(2) by simp
  then show ?thesis
    using p(2) len by (intro conjI exI [of _ "consume 264 (rx p)"]) simp_all
qed

theorem nfc_msg_roundtrip_witness:
  "send_nfc_msg 51 [11, 0, 0, 0] (demo_sock []) =
     (Inr (), (demo_sock [])\<lparr>tx := nfc_frame 51 [11, 0, 0, 0]\<rparr>) \<and>
   (\<exists>es. recv_nfc_msg (demo_sock [Data (nfc_frame 51 [11, 0, 0, 0]), Data [9]]) =
          (Inr (51, ljust0 260 [11, 0, 0, 0]),
           (demo_sock [Data (nfc_frame 51 [11, 0, 0, 0]), Data [9]])\<lparr>rx := es\<rparr>) \<and> avail es = [9])"
proof -
  have s: "send_nfc_msg 51 [11, 0, 0, 0] (demo_sock []) =
     (Inr (), (demo_sock [])\<lparr>tx := nfc_frame 51 [11, 0, 0, 0]\<rparr>)"
    by (simp add: send_nfc_msg_alt u32_def demo_sock_def)
  show ?thesis
    using nfc_msg_roundtrip [OF s, of "nfc_frame 51 [11, 0, 0, 0]"
        "demo_sock [Data (nfc_frame 51 [11, 0, 0, 0]), Data [9]]" "[9]"] s
    by (simp add: demo_sock_def)
qed

end
