(* ===== verification/NfcDisk.thy ===== *)
theory NfcDisk
  imports NfcWire
begin

text \<open>
  The class \<open>NfcDisk\<close> of \<open>openvixdisklib/nfc_open.py\<close>: its state and every method.

  A method runs on a pair of the object (\<open>nfc_disk\<close>) and the state of the socket it owns (\<open>sock\<close>);
  \<open>readinto\<close> also on the caller's buffer (\<open>pybuf\<close>). The field \<open>nd_sock\<close> is the descriptor of that
  socket, used by the theories that keep a table of descriptors.

  The read loop has a termination proof (every fragment adds at least one byte to \<open>filled\<close>). The
  write loop advances by the length of the slice it just sent, which is 0 for an AIO buffer size of
  0: it is a \<open>partial_function\<close>, \<open>None\<close> is a call that never returns, and \<open>NfcWrite\<close> proves that
  it returns for every disk that \<open>open_disk\<close> can make.
\<close>

record nfc_disk =
  nd_sock :: nat
  nd_op_id :: nat
  nd_path :: string
  nd_handle :: nat
  nd_sector_size :: nat
  nd_compression :: nat
  nd_aio_buffer_size :: nat
  nd_aio_buffer_count :: nat
  nd_closed :: bool

type_synonym dstate = "nfc_disk \<times> sock"

definition nfc_disk_init :: "nat \<Rightarrow> string \<Rightarrow> nat \<Rightarrow> nat \<Rightarrow> nat \<Rightarrow> nat \<Rightarrow> nat \<Rightarrow> nfc_disk" where
  "nfc_disk_init fd path handle sector_size compression bufsize bufcount =
     \<lparr>nd_sock = fd, nd_op_id = 0, nd_path = path, nd_handle = handle,
      nd_sector_size = sector_size, nd_compression = compression,
      nd_aio_buffer_size = bufsize, nd_aio_buffer_count = bufcount, nd_closed = False\<rparr>"

record ReadFragment =
  rf_dest :: nat
  rf_uncompressed_length :: nat
  rf_compression_type :: nat
  rf_offset :: nat
  rf_length :: nat

record ReadResult =
  rr_uncompressed_length :: nat
  rr_compressed_length :: nat
  rr_fragments :: "ReadFragment list"

record pybuf =
  pb_readonly :: bool
  pb_bytes :: "byte list"

text \<open>The contents of the view; the methods write it back to the first \<open>n\<close> bytes of the buffer.\<close>

definition writable_bytes :: "pybuf \<Rightarrow> nat \<Rightarrow> exn + byte list" where
  "writable_bytes buf n =
     (if pb_readonly buf then Inl (TypeError (Text ''read buffer is read-only''))
      else if length (pb_bytes buf) < n then Inl (RuntimeError (ReadBufferSize (length (pb_bytes buf)) n))
      else Inr (take n (pb_bytes buf)))"

subsection \<open>AIO requests and replies\<close>

definition next_op_id :: "(dstate, nat) io" where
  "next_op_id = (\<lambda>(d, s). (Inr (nd_op_id d), (d\<lparr>nd_op_id := nd_op_id d + 1\<rparr>, s)))"

definition aio_send :: "nat \<Rightarrow> byte list \<Rightarrow> byte list \<Rightarrow> (dstate, nat) io" where
  "aio_send msg_type payload extra =
     bind_io next_op_id (\<lambda>op_id.
     bind_io (lift (pack_aio_hdr msg_type (length payload) op_id)) (\<lambda>hdr.
     then_io (on_snd (sock_sendall (hdr @ payload @ extra)))
     (ret op_id)))"

definition aio_recv_reply :: "(sock, nat \<times> nat \<times> byte list) io" where
  "aio_recv_reply =
     bind_io (recvn NFC_AIO_HDR_SIZE) (\<lambda>rhdr.
     bind_io (lift (unpack_IIII rhdr 0)) (\<lambda>(magic, rtype, rsize, rop).
     then_io (raise_if (magic \<noteq> NFC_AIO_MAGIC) (NfcProtocolError (MagicMismatch magic)))
     (bind_io (if rsize \<noteq> 0 then recvn rsize else ret []) (\<lambda>body.
      then_io (raise_if (rtype = NFC_AIO_MSG_ERROR) (NfcProtocolError (AioErrorBody rop rsize body)))
      (ret (rtype, rop, body))))))"

definition aio_roundtrip :: "nat \<Rightarrow> byte list \<Rightarrow> byte list \<Rightarrow> nat \<Rightarrow> (dstate, byte list) io" where
  "aio_roundtrip msg_type payload extra extra_recv =
     bind_io (aio_send msg_type payload extra) (\<lambda>op_id.
     bind_io (on_snd aio_recv_reply) (\<lambda>(rtype, rop, body).
     then_io (raise_if (rtype \<noteq> msg_type \<or> rop \<noteq> op_id)
                (NfcProtocolError (ReplyMismatch rtype rop msg_type op_id)))
     (if extra_recv \<noteq> 0 then bind_io (on_snd (recvn extra_recv)) (\<lambda>x. ret (body @ x))
      else ret body)))"

subsection \<open>Reading\<close>

record read_state =
  rs_filled :: nat
  rs_wire_bytes :: nat
  rs_packed_offset :: nat
  rs_fragments :: "ReadFragment list"
  rs_seen :: "nat list"

definition read_init :: read_state where
  "read_init = \<lparr>rs_filled = 0, rs_wire_bytes = 0, rs_packed_offset = 0, rs_fragments = [], rs_seen = []\<rparr>"

text \<open>The header and the payload of one reply, up to the size of its extra.\<close>

definition read_io_reply :: "nat \<Rightarrow> nat \<Rightarrow> nat list \<Rightarrow> (sock, nat \<times> nat \<times> nat \<times> nat) io" where
  "read_io_reply n op_id seen =
     bind_io (recvn NFC_AIO_HDR_SIZE) (\<lambda>rhdr.
     bind_io (lift (unpack_aio_hdr rhdr)) (\<lambda>(rtype, rsize, rop).
     then_io (raise_if (rtype \<noteq> NFC_AIO_MSG_IO \<or> rop \<noteq> op_id)
                (NfcProtocolError (IoReplyMismatch rtype rop op_id)))
     (bind_io (recvn rsize) (\<lambda>body.
      then_io (raise_if (rsize < 36) (NfcProtocolError (IoPayloadTooShort rsize)))
      (bind_io (lift (unpack_Q body 8)) (\<lambda>opcode.
       bind_io (lift (unpack_II body 28)) (\<lambda>(dest, chunk_len).
       then_io (raise_if (dest \<in> set seen \<or> chunk_len = 0 \<or> dest + chunk_len > n)
                  (NfcProtocolError (IoChunkInvalid dest chunk_len n)))
       (bind_io (lift (aio_extra_len (drop_bit 32 opcode) body chunk_len)) (\<lambda>extra_len.
        ret (dest, chunk_len, drop_bit 32 opcode, extra_len))))))))))"

text \<open>\<open>except ValueError as exc: raise NfcProtocolError(...) from exc\<close>\<close>

fun lz_chunk :: "exn + byte list \<Rightarrow> exn + byte list" where
  "lz_chunk (Inl (ValueError m)) = Inl (NfcProtocolError (FastLzReadFailed m))"
| "lz_chunk r = r"

definition assign_view :: "nat \<Rightarrow> byte list \<Rightarrow> (sock \<times> byte list, unit) io" where
  "assign_view off chunk = (\<lambda>(s, data). (Inr (), s, buf_assign data off chunk))"

text \<open>The extra of one reply, packed or decompressed into the view.\<close>

definition read_extra ::
  "fastlz_lib \<Rightarrow> nat \<Rightarrow> bool \<Rightarrow> nat \<times> nat \<times> nat \<times> nat \<Rightarrow> read_state \<Rightarrow> (sock \<times> byte list, read_state) io" where
  "read_extra lib n skip = (\<lambda>(dest, chunk_len, ctype, extra_len) rs.
     if skip then
       let stop = rs_packed_offset rs + extra_len in
       then_io (raise_if (stop > n) (NfcProtocolError (PackedExceed stop n)))
       (then_io (recvn_into (rs_packed_offset rs) extra_len)
        (ret (rs\<lparr>rs_fragments := rs_fragments rs @
                  [\<lparr>rf_dest = dest, rf_uncompressed_length = chunk_len, rf_compression_type = ctype,
                    rf_offset = rs_packed_offset rs, rf_length = extra_len\<rparr>],
                 rs_packed_offset := stop\<rparr>)))
     else if ctype = NFC_COMPRESSION_FASTLZ then
       bind_io (on_fst (recvn extra_len)) (\<lambda>extra.
       bind_io (lift (lz_chunk (decompress lib extra chunk_len))) (\<lambda>chunk.
       then_io (raise_if (length chunk \<noteq> chunk_len) (NfcProtocolError (FastLzReadGot (length chunk) chunk_len)))
       (then_io (assign_view dest chunk) (ret rs))))
     else if ctype = NFC_COMPRESSION_NONE then
       then_io (recvn_into dest chunk_len) (ret rs)
     else raise (NfcProtocolError (UnsupportedIoCompression ctype)))"

definition read_step ::
  "fastlz_lib \<Rightarrow> nat \<Rightarrow> bool \<Rightarrow> nat \<Rightarrow> read_state \<Rightarrow> (sock \<times> byte list, read_state) io" where
  "read_step lib n skip op_id rs =
     bind_io (on_fst (read_io_reply n op_id (rs_seen rs))) (\<lambda>(dest, chunk_len, ctype, extra_len).
     bind_io (read_extra lib n skip (dest, chunk_len, ctype, extra_len)
                (rs\<lparr>rs_seen := dest # rs_seen rs\<rparr>)) (\<lambda>rs'.
     ret (rs'\<lparr>rs_wire_bytes := rs_wire_bytes rs' + extra_len,
              rs_filled := rs_filled rs' + chunk_len\<rparr>)))"

lemma read_io_reply_InrD:
  assumes "read_io_reply n op_id seen s = (Inr (dest, chunk_len, ctype, extra_len), s')"
  shows "0 < chunk_len \<and> dest + chunk_len \<le> n \<and> dest \<notin> set seen \<and>
    (ctype = NFC_COMPRESSION_NONE \<and> extra_len = chunk_len \<or> ctype = NFC_COMPRESSION_FASTLZ \<and> 0 < extra_len)"
  using assms
  by (auto simp: read_io_reply_def io_iffs aio_extra_len_def split: if_splits sum.splits)

lemma read_extra_frame:
  assumes "read_extra lib n skip (dest, chunk_len, ctype, extra_len) rs st = (Inr rs', st')"
  shows "rs_filled rs' = rs_filled rs \<and> rs_wire_bytes rs' = rs_wire_bytes rs \<and> rs_seen rs' = rs_seen rs"
  using assms by (auto simp: read_extra_def Let_def io_iffs split: if_splits)

lemma read_step_InrD:
  assumes "read_step lib n skip op_id rs st = (Inr rs', st')"
  shows "\<exists>dest chunk_len ctype extra_len.
    0 < chunk_len \<and> dest + chunk_len \<le> n \<and> dest \<notin> set (rs_seen rs) \<and>
    rs_filled rs' = rs_filled rs + chunk_len \<and> rs_wire_bytes rs' = rs_wire_bytes rs + extra_len \<and>
    rs_seen rs' = dest # rs_seen rs"
  using assms
  by (cases st)
    (auto simp: read_step_def bind_io_Inr_iff on_fst_def dest!: read_io_reply_InrD read_extra_frame
      split: prod.splits)

function read_loop ::
  "fastlz_lib \<Rightarrow> nat \<Rightarrow> bool \<Rightarrow> nat \<Rightarrow> read_state \<Rightarrow> sock \<times> byte list \<Rightarrow>
     (exn + read_state) \<times> sock \<times> byte list" where
  "read_loop lib n skip op_id rs st =
     (if rs_filled rs < n
      then (case read_step lib n skip op_id rs st of
              (Inl e, st') \<Rightarrow> (Inl e, st')
            | (Inr rs', st') \<Rightarrow> read_loop lib n skip op_id rs' st')
      else (Inr rs, st))"
  by pat_completeness auto
termination
  by (relation "measure (\<lambda>(lib, n, skip, op_id, rs, st). n - rs_filled rs)")
    (auto dest!: read_step_InrD [OF sym])

declare read_loop.simps [simp del]

definition read_length :: "nfc_disk \<Rightarrow> int \<Rightarrow> nat" where
  "read_length d num_sectors = nat num_sectors * nd_sector_size d"

definition read_payload :: "nfc_disk \<Rightarrow> int \<Rightarrow> int \<Rightarrow> exn + byte list" where
  "read_payload d start_sector num_sectors =
     (let n = int (read_length d num_sectors);
          offset = start_sector * int (nd_sector_size d);
          opcode = NFC_AIO_IO_READ OR push_bit 32 (int (nd_compression d))
      in struct_pack [FQ, FQ, FQ, FQ, FI, FI, FI] [int (nd_handle d), opcode, offset, n, n, n, 0])"

text \<open>The request is packed before the \<open>opId\<close> is taken; the header is packed after it.\<close>

definition readinto ::
  "fastlz_lib \<Rightarrow> int \<Rightarrow> int \<Rightarrow> bool \<Rightarrow> (dstate \<times> pybuf, ReadResult) io" where
  "readinto lib start_sector num_sectors skip = (\<lambda>((d, s), buf).
     if num_sectors < 1 then (Inl (ValueError (Text ''num_sectors must be at least 1'')), (d, s), buf)
     else let n = read_length d num_sectors in
     case writable_bytes buf n of Inl e \<Rightarrow> (Inl e, (d, s), buf) | Inr data \<Rightarrow>
     (case read_payload d start_sector num_sectors of Inl e \<Rightarrow> (Inl e, (d, s), buf) | Inr payload \<Rightarrow>
      (case next_op_id (d, s) of (Inl e, d', s') \<Rightarrow> (Inl e, (d', s'), buf) | (Inr op_id, d', s') \<Rightarrow>
       (case pack_aio_hdr NFC_AIO_MSG_IO (length payload) op_id of
          Inl e \<Rightarrow> (Inl e, (d', s'), buf) | Inr hdr \<Rightarrow>
        (case sock_sendall (hdr @ payload) s' of
           (Inl e, s1) \<Rightarrow> (Inl e, (d', s1), buf) | (Inr _, s1) \<Rightarrow>
         (case read_loop lib n skip op_id read_init (s1, data) of (r, s2, data') \<Rightarrow>
            (map_sum id (\<lambda>rs. \<lparr>rr_uncompressed_length = n, rr_compressed_length = rs_wire_bytes rs,
                rr_fragments = (if skip then rs_fragments rs else [])\<rparr>) r,
             (d', s2), buf\<lparr>pb_bytes := data' @ drop n (pb_bytes buf)\<rparr>)))))))"

definition disk_read :: "fastlz_lib \<Rightarrow> int \<Rightarrow> int \<Rightarrow> (dstate, byte list) io" where
  "disk_read lib start_sector num_sectors = (\<lambda>(d, s).
     if num_sectors < 1 then (Inl (ValueError (Text ''num_sectors must be at least 1'')), d, s)
     else (case readinto lib start_sector num_sectors False
                  ((d, s), \<lparr>pb_readonly = False, pb_bytes = replicate (read_length d num_sectors) 0\<rparr>) of
             (Inl e, st, buf) \<Rightarrow> (Inl e, st)
           | (Inr _, st, buf) \<Rightarrow> (Inr (pb_bytes buf), st)))"

subsection \<open>Writing\<close>

text \<open>The extra of one fragment and its compression type.\<close>

definition write_extra :: "fastlz_lib \<Rightarrow> nfc_disk \<Rightarrow> byte list \<Rightarrow> exn + (byte list \<times> nat)" where
  "write_extra lib d chunk =
     (if nd_compression d = NFC_COMPRESSION_FASTLZ \<and> length chunk \<ge> 16
      then (case compress lib chunk of
              Inl e \<Rightarrow> Inl e
            | Inr compressed \<Rightarrow>
                if compressed \<noteq> [] \<and> length compressed < length chunk
                then Inr (compressed, NFC_COMPRESSION_FASTLZ)
                else Inr (chunk, NFC_COMPRESSION_NONE))
      else Inr (chunk, NFC_COMPRESSION_NONE))"

definition write_frag ::
  "fastlz_lib \<Rightarrow> nfc_disk \<Rightarrow> nat \<Rightarrow> int \<Rightarrow> nat \<Rightarrow> nat \<Rightarrow> byte list \<Rightarrow> (sock, unit) io" where
  "write_frag lib d op_id disk_offset n frag_offset chunk =
     bind_io (lift (write_extra lib d chunk)) (\<lambda>(extra, ctype).
     bind_io (lift (struct_pack [FQ, FQ, FQ, FI, FI, FI, FI, FI]
                      [int (nd_handle d), NFC_AIO_IO_WRITE OR push_bit 32 (int ctype), disk_offset,
                       int n, int frag_offset, int (length chunk), int (length extra), 0])) (\<lambda>payload.
     bind_io (lift (pack_aio_hdr NFC_AIO_MSG_IO (length payload) op_id)) (\<lambda>hdr.
     sock_sendall (hdr @ payload @ extra))))"

partial_function (option) write_loop ::
  "fastlz_lib \<Rightarrow> nfc_disk \<Rightarrow> nat \<Rightarrow> int \<Rightarrow> byte list \<Rightarrow> nat \<Rightarrow> sock \<Rightarrow> ((exn + unit) \<times> sock) option" where
  "write_loop lib d op_id disk_offset data frag_offset s =
     (if frag_offset < length data
      then let chunk = buf_slice data frag_offset (nd_aio_buffer_size d) in
        (case write_frag lib d op_id disk_offset (length data) frag_offset chunk s of
           (Inl e, s') \<Rightarrow> Some (Inl e, s')
         | (Inr _, s') \<Rightarrow> write_loop lib d op_id disk_offset data (frag_offset + length chunk) s')
      else Some (Inr (), s))"

declare write_loop.simps [code]

definition write_reply :: "nat \<Rightarrow> (sock, unit) io" where
  "write_reply op_id =
     bind_io aio_recv_reply (\<lambda>(rtype, rop, body).
     raise_if (rtype \<noteq> NFC_AIO_MSG_IO \<or> rop \<noteq> op_id)
       (NfcProtocolError (WriteReplyMismatch rtype rop op_id)))"

definition disk_write ::
  "fastlz_lib \<Rightarrow> int \<Rightarrow> int \<Rightarrow> byte list \<Rightarrow> dstate \<Rightarrow> ((exn + unit) \<times> dstate) option" where
  "disk_write lib start_sector num_sectors data = (\<lambda>(d, s).
     if num_sectors < 1 then Some (Inl (ValueError (Text ''num_sectors must be at least 1'')), d, s)
     else let n = nat num_sectors * nd_sector_size d in
     if length data \<noteq> n then Some (Inl (ValueError (WriteDataSize (length data) n)), d, s)
     else let disk_offset = start_sector * int (nd_sector_size d) in
     (case next_op_id (d, s) of (Inl e, d', s') \<Rightarrow> Some (Inl e, d', s') | (Inr op_id, d', s') \<Rightarrow>
      (case write_loop lib d' op_id disk_offset data 0 s' of
         None \<Rightarrow> None
       | Some (Inl e, s1) \<Rightarrow> Some (Inl e, d', s1)
       | Some (Inr _, s1) \<Rightarrow> (case write_reply op_id s1 of (r, s2) \<Rightarrow> Some (r, d', s2)))))"

subsection \<open>Closing\<close>

definition disk_close :: "(dstate, unit) io" where
  "disk_close = (\<lambda>(d, s).
     if nd_closed d then (Inr (), d, s)
     else try_finally
       (bind_io (lift (struct_pack [FQ] [int (nd_handle d)])) (\<lambda>p.
        then_io (aio_roundtrip NFC_AIO_MSG_CLOSE_FILE p [] 0)
        (bind_io (lift (struct_pack [FI] [0])) (\<lambda>q.
         then_io (aio_roundtrip NFC_AIO_MSG_CLOSE_SESSION q [] 0)
         (on_snd (send_nfc_msg NFC_MSG_SESSION_COMPLETE []))))))
       (on_snd (ignore_OSError sock_close))
       (d\<lparr>nd_closed := True\<rparr>, s))"

text \<open>\<open>with disk: body\<close>, that is \<open>__enter__\<close> and \<open>__exit__\<close>.\<close>

definition disk_with :: "(dstate, 'a) io \<Rightarrow> (dstate, 'a) io" where
  "disk_with body = try_finally body disk_close"

subsection \<open>Well-formed disks\<close>

text \<open>What \<open>open_disk\<close> establishes and every method keeps.\<close>

definition disk_wf :: "nfc_disk \<Rightarrow> bool" where
  "disk_wf d \<longleftrightarrow> nd_handle d < 2 ^ 64 \<and> 0 < nd_sector_size d \<and> nd_sector_size d < 2 ^ 32 \<and>
     nd_compression d \<in> {NFC_COMPRESSION_NONE, NFC_COMPRESSION_FASTLZ} \<and>
     0 < nd_aio_buffer_size d \<and> 0 < nd_aio_buffer_count d"

subsection \<open>What the parts of the methods keep\<close>

context rx_frame
begin

lemma frame_read_io_reply: "keeps R (read_io_reply n op_id seen)"
  unfolding read_io_reply_def case_prod_beta by (intro keeps_intros frame_recvn)

lemma frame_aio_recv_reply: "keeps R aio_recv_reply"
  unfolding aio_recv_reply_def case_prod_beta
  by (intro keeps_intros frame_recvn) (auto intro: frame_recvn keeps_intros)

lemma frame_write_reply: "keeps R (write_reply op)"
  unfolding write_reply_def case_prod_beta by (intro keeps_intros frame_aio_recv_reply)

end

context sock_frame
begin

lemma frame_write_frag: "keeps R (write_frag lib d op offset n off chunk)"
  unfolding write_frag_def case_prod_beta by (intro keeps_intros frame_sendall)

end

text \<open>
  The same for the pair of a disk object and its socket: a relation \<open>D\<close> that allows the socket to
  change as \<open>R\<close> does and the \<open>opId\<close> to be taken.
\<close>

locale disk_frame = sock_frame R for R :: "sock \<Rightarrow> sock \<Rightarrow> bool" +
  fixes D :: "dstate \<Rightarrow> dstate \<Rightarrow> bool"
  assumes D_refl: "D st st"
    and D_trans: "D st st' \<Longrightarrow> D st' st'' \<Longrightarrow> D st st''"
    and D_sock: "R s s' \<Longrightarrow> D (d, s) (d, s')"
    and D_op: "D (d, s) (d\<lparr>nd_op_id := nd_op_id d + 1\<rparr>, s)"

sublocale disk_frame \<subseteq> dk: state_preorder D
  by unfold_locales (fact D_refl, fact D_trans)

context disk_frame
begin

lemma frame_on_snd: "keeps R m \<Longrightarrow> keeps D (on_snd m)"
  by (auto simp: keeps_def on_snd_app intro: D_sock)

lemma frame_next_op_id: "keeps D next_op_id"
  unfolding keeps_def next_op_id_def using D_op by (simp split: prod.splits)

lemma frame_aio_send: "keeps D (aio_send t p x)"
  unfolding aio_send_def
  by (intro dk.keeps_intros frame_next_op_id frame_on_snd frame_sendall)

lemma frame_aio_roundtrip: "keeps D (aio_roundtrip t p x k)"
  unfolding aio_roundtrip_def case_prod_beta
  by (intro dk.keeps_intros frame_aio_send frame_on_snd frame_aio_recv_reply)
    (auto intro!: dk.keeps_intros frame_on_snd frame_recvn)

end

subsection \<open>A reply in the stream\<close>

definition aio_msg :: "nat \<Rightarrow> nat \<Rightarrow> byte list \<Rightarrow> byte list" where
  "aio_msg t op body = aio_hdr t (length body) op @ body"

lemma length_aio_msg [simp]: "length (aio_msg t op body) = 16 + length body"
  by (simp add: aio_msg_def)

text \<open>\<open>_aio_recv_reply\<close> consumes exactly one message, an error message included.\<close>

lemma aio_recv_reply_msg:
  assumes "is_open s" and "avail (rx s) = aio_msg t op body @ rest"
    and "u32 t" and "u32 op" and "u32 (length body)"
  shows "aio_recv_reply s =
    (if t = NFC_AIO_MSG_ERROR then Inl (NfcProtocolError (AioErrorBody op (length body) body))
     else Inr (t, op, body), s\<lparr>rx := consume (16 + length body) (rx s)\<rparr>)"
proof -
  let ?s1 = "s\<lparr>rx := consume 16 (rx s)\<rparr>"
  have av: "avail (rx s) = aio_hdr t (length body) op @ body @ rest"
    using assms(2) by (simp add: aio_msg_def)
  have hdr: "recvn NFC_AIO_HDR_SIZE s = (Inr (aio_hdr t (length body) op), ?s1)"
    using assms(1) av by simp
  have body: "(if length body \<noteq> 0 then recvn (length body) else ret []) ?s1 =
      (Inr body, s\<lparr>rx := consume (16 + length body) (rx s)\<rparr>)"
    using assms(1) av by simp
  show ?thesis
    unfolding aio_recv_reply_def
    using hdr body unpack_IIII_aio_hdr [of t "length body" op "[]"] assms(3-5) by simp
qed

end
