(* ===== verification/NfcReadSafety.thy ===== *)
theory NfcReadSafety
  imports NfcRead
begin

text \<open>
  What \<open>NfcDisk.readinto\<close> does with a server that answers anything at all: what it sends and writes
  on every path, the layout of the packed mode, and the replies that its checks do not catch.
\<close>

subsection \<open>The view is written in place\<close>

lemma recvn_into_rx:
  "lo + n \<le> length buf \<Longrightarrow> recvn_into lo n (s, buf) = (r, s', buf') \<Longrightarrow>
     rx_only s s' \<and> length buf' = length buf"
  by (rule recvn_into_cases [of lo n buf s]) (auto simp: rx_only_iff split: if_splits)

definition view_safe :: "sock \<times> byte list \<Rightarrow> sock \<times> byte list \<Rightarrow> bool" where
  "view_safe st st' \<longleftrightarrow> rx_only (fst st) (fst st') \<and> length (snd st') = length (snd st)"

interpretation view_pre: state_preorder view_safe
  by unfold_locales (auto simp: view_safe_def intro: rx_pre.refl_R rx_pre.trans_R)

lemma keeps_on_fst: "keeps rx_only m \<Longrightarrow> keeps view_safe (on_fst m)"
  by (auto simp: keeps_def view_safe_def on_fst_app)

lemma recvn_into_safe: "lo + n \<le> length buf \<Longrightarrow> view_safe (s, buf) (snd (recvn_into lo n (s, buf)))"
  using recvn_into_rx [of lo n buf s] by (cases "recvn_into lo n (s, buf)") (auto simp: view_safe_def)

lemma read_extra_lz_safe:
  assumes "length data = n" "dest + chunk_len \<le> n"
  shows "view_safe (s, data)
    (snd (read_extra lib n False (dest, chunk_len, NFC_COMPRESSION_FASTLZ, extra_len) rs (s, data)))"
proof -
  obtain r s1 where r: "recvn extra_len s = (r, s1)" by (cases "recvn extra_len s")
  then have rx: "rx_only s s1" using keepsD [OF rx_pre.frame_recvn] by blast
  show ?thesis
    using r rx assms
    by (auto simp: read_extra_def bind_io_def on_fst_def assign_view_def view_safe_def
        io_defs split: sum.splits)
qed

lemma read_extra_safe:
  assumes "length data = n" "dest + chunk_len \<le> n"
  shows "view_safe (s, data) (snd (read_extra lib n skip (dest, chunk_len, ctype, extra_len) rs (s, data)))"
proof (cases "\<not> skip \<and> ctype = NFC_COMPRESSION_FASTLZ")
  case True
  then show ?thesis using read_extra_lz_safe [OF assms] by simp
next
  case False
  then show ?thesis
    using assms recvn_into_safe [of "rs_packed_offset rs" extra_len data s]
      recvn_into_safe [of dest chunk_len data s]
    by (auto simp: read_extra_def Let_def view_pre.refl_R)
qed

lemma read_step_safe:
  assumes "length data = n"
  shows "view_safe (s, data) (snd (read_step lib n skip op rs (s, data)))"
proof -
  obtain r s1 where r: "read_io_reply n op (rs_seen rs) s = (r, s1)"
    by (cases "read_io_reply n op (rs_seen rs) s")
  have v1: "view_safe (s, data) (s1, data)"
    using keepsD [OF rx_pre.frame_read_io_reply r] by (simp add: view_safe_def)
  show ?thesis
  proof (cases r)
    case (Inl e)
    then show ?thesis using r v1 by (simp add: read_step_def on_fst_def)
  next
    case (Inr x)
    obtain dest chunk_len ctype extra_len where x: "x = (dest, chunk_len, ctype, extra_len)"
      by (metis prod_cases4)
    let ?rs1 = "rs\<lparr>rs_seen := dest # rs_seen rs\<rparr>"
    have "dest + chunk_len \<le> n" using read_io_reply_InrD r Inr x by blast
    then have v2: "view_safe (s1, data)
        (snd (read_extra lib n skip (dest, chunk_len, ctype, extra_len) ?rs1 (s1, data)))"
      using assms by (intro read_extra_safe) simp_all
    have "snd (read_step lib n skip op rs (s, data)) =
        snd (read_extra lib n skip (dest, chunk_len, ctype, extra_len) ?rs1 (s1, data))"
      using r Inr x by (simp add: read_step_def on_fst_def bind_io_def split: prod.splits sum.splits)
    then show ?thesis using view_pre.trans_R [OF v1 v2] by simp
  qed
qed

lemma read_loop_safe:
  "length (snd st) = n \<Longrightarrow> view_safe st (snd (read_loop lib n skip op rs st))"
proof (induction lib n skip op rs st rule: read_loop.induct)
  case (1 lib n skip op rs st)
  obtain s data where st: "st = (s, data)" by (cases st)
  obtain r st1 where r: "read_step lib n skip op rs st = (r, st1)" by (cases "read_step lib n skip op rs st")
  have v1: "view_safe st st1" using read_step_safe [of data n s lib skip op rs] "1.prems" r st by simp
  show ?case
  proof (cases "rs_filled rs < n")
    case False
    then show ?thesis by (simp add: read_loop.simps view_pre.refl_R)
  next
    case True
    show ?thesis
    proof (cases r)
      case (Inl e)
      then show ?thesis using True r v1 by (simp add: read_loop.simps)
    next
      case (Inr rs')
      have "length (snd st1) = n" using v1 "1.prems" by (simp add: view_safe_def)
      then have "view_safe st1 (snd (read_loop lib n skip op rs' st1))"
        using "1.IH" [OF True r [symmetric]] Inr by simp
      then have "view_safe st (snd (read_loop lib n skip op rs' st1))" by (rule view_pre.trans_R [OF v1])
      then show ?thesis using True r Inr by (subst read_loop.simps) simp
    qed
  qed
qed

subsection \<open>Any server\<close>

text \<open>The three ways a read ends: before sending, while sending, in the loop.\<close>

lemma readinto_cases:
  assumes "readinto lib start num skip ((d, s), buf) = (r, (d', s'), buf')"
  obtains (early) e where "r = Inl e" "d' = d \<or> d' = d\<lparr>nd_op_id := nd_op_id d + 1\<rparr>" "s' = s" "buf' = buf"
    | (send) hdr payload e where "d' = d\<lparr>nd_op_id := nd_op_id d + 1\<rparr>" "length (hdr @ payload) = 60"
        "sock_sendall (hdr @ payload) s = (Inl e, s')" "r = Inl e" "buf' = buf"
        "pack_aio_hdr NFC_AIO_MSG_IO 44 (nd_op_id d) = Inr hdr" "read_payload d start num = Inr payload"
    | (loop) hdr payload s1 rl data' where "d' = d\<lparr>nd_op_id := nd_op_id d + 1\<rparr>"
        "length (hdr @ payload) = 60" "sock_sendall (hdr @ payload) s = (Inr (), s1)"
        "read_length d num \<le> length (pb_bytes buf)"
        "read_loop lib (read_length d num) skip (nd_op_id d) read_init
           (s1, take (read_length d num) (pb_bytes buf)) = (rl, s', data')"
        "buf' = buf\<lparr>pb_bytes := data' @ drop (read_length d num) (pb_bytes buf)\<rparr>"
        "r = map_sum id (\<lambda>rs. \<lparr>rr_uncompressed_length = read_length d num,
                rr_compressed_length = rs_wire_bytes rs,
                rr_fragments = (if skip then rs_fragments rs else [])\<rparr>) rl"
        "pack_aio_hdr NFC_AIO_MSG_IO 44 (nd_op_id d) = Inr hdr" "read_payload d start num = Inr payload"
proof -
  let ?n = "read_length d num"
  note def = readinto_def Let_def next_op_id_def
  show thesis
  proof (cases "num < 1 \<or> (\<exists>e. writable_bytes buf ?n = Inl e) \<or> (\<exists>e. read_payload d start num = Inl e)")
    case True
    with assms have "r \<in> range Inl" "d' = d" "s' = s" "buf' = buf"
      by (auto simp: def split: sum.splits if_splits)
    then show thesis using early by blast
  next
    case False
    then obtain data payload where w: "writable_bytes buf ?n = Inr data"
      and p: "read_payload d start num = Inr payload" and num: "\<not> num < 1"
      by (meson sumE)
    have data: "data = take ?n (pb_bytes buf)" "?n \<le> length (pb_bytes buf)"
      using w by (auto simp: writable_bytes_def split: if_splits)
    have plen: "length payload = 44"
      using struct_pack_length [OF p [unfolded read_payload_def Let_def]] by simp
    show thesis
    proof (cases "pack_aio_hdr NFC_AIO_MSG_IO 44 (nd_op_id d)")
      case (Inl e)
      with assms w p num plen show thesis by (intro early [of e]) (simp_all add: def)
    next
      case (Inr hdr)
      have hlen: "length (hdr @ payload) = 60" using Inr plen by (auto simp: pack_aio_hdr_Inr_iff)
      obtain rs s1 where sd: "sock_sendall (hdr @ payload) s = (rs, s1)"
        by (cases "sock_sendall (hdr @ payload) s")
      show thesis
      proof (cases rs)
        case (Inl e)
        with assms w p num plen Inr sd hlen show thesis
          by (intro send [of hdr payload e]) (simp_all add: def)
      next
        case Inr': (Inr u)
        obtain rl s2 data' where l: "read_loop lib ?n skip (nd_op_id d) read_init (s1, data) = (rl, s2, data')"
          by (metis prod_cases3)
        have "(r, (d', s'), buf') =
          (map_sum id (\<lambda>rs. \<lparr>rr_uncompressed_length = ?n, rr_compressed_length = rs_wire_bytes rs,
                rr_fragments = (if skip then rs_fragments rs else [])\<rparr>) rl,
           (d\<lparr>nd_op_id := nd_op_id d + 1\<rparr>, s2), buf\<lparr>pb_bytes := data' @ drop ?n (pb_bytes buf)\<rparr>)"
          using assms w p num plen Inr Inr' sd l by (simp add: def)
        then show thesis
          using loop [of hdr payload s1 rl data'] Inr Inr' sd l hlen data p by simp
      qed
    qed
  qed
qed

text \<open>
  C17. A read is confined, whatever the server sends and however the call ends. The object keeps
  every field but the \<open>opId\<close> counter; nothing is sent when no \<open>opId\<close> is spent, and otherwise at most a prefix
  of the one read request, with the \<open>opId\<close>, the handle, the byte offset and the length of this call;
  the buffer keeps its length and every byte after the first \<open>num_sectors * sector_size\<close>; and a result
  reports that length.
\<close>

theorem readinto_confined:
  assumes "disk_wf d" and "readinto lib start num skip ((d, s), buf) = (r, (d', s'), buf')"
  shows "(d' = d \<and> s' = s \<or> d' = d\<lparr>nd_op_id := nd_op_id d + 1\<rparr>) \<and>
    (\<exists>k. tx s' = tx s @ take k (aio_hdr NFC_AIO_MSG_IO 44 (nd_op_id d) @ read_request d start num)) \<and>
    length (pb_bytes buf') = length (pb_bytes buf) \<and>
    drop (read_length d num) (pb_bytes buf') = drop (read_length d num) (pb_bytes buf) \<and>
    (\<forall>res. r = Inr res \<longrightarrow> rr_uncompressed_length res = read_length d num \<and>
       (\<not> skip \<longrightarrow> rr_fragments res = []))"
proof -
  have req: "hdr @ payload = aio_hdr NFC_AIO_MSG_IO 44 (nd_op_id d) @ read_request d start num"
    if "pack_aio_hdr NFC_AIO_MSG_IO 44 (nd_op_id d) = Inr hdr" "read_payload d start num = Inr payload" for hdr payload
    using that by (auto simp: pack_aio_hdr_Inr_iff read_payload_eq [OF assms(1)] split: if_splits)
  show ?thesis
    using assms(2)
  proof (cases rule: readinto_cases)
    case early
    then show ?thesis by (auto intro!: exI [of _ 0])
  next
    case (send hdr payload e)
    have "\<exists>k. tx s' = tx s @ take k (hdr @ payload)"
      using send(3) by (auto simp: sock_sendall_def intro: exI [of _ 0] split: if_splits option.splits)
    then show ?thesis using send req [OF send(6,7)] by simp
  next
    case (loop hdr payload s1 rl data')
    let ?n = "read_length d num" and ?data = "take (read_length d num) (pb_bytes buf)"
    have "view_safe (s1, ?data) (s', data')"
      using read_loop_safe [of "(s1, ?data)" ?n lib skip "nd_op_id d" read_init] loop(4,5) by simp
    then have "tx s' = tx s1" "length data' = ?n"
      using loop(4) by (simp_all add: view_safe_def rx_only_iff)
    moreover have "tx s1 = tx s @ take 60 (hdr @ payload)"
      using sock_sendall_InrD [OF loop(3)] loop(2) by simp
    moreover have "rr_uncompressed_length res = ?n \<and> (\<not> skip \<longrightarrow> rr_fragments res = [])" if "r = Inr res" for res
      using that loop(7) by (cases rl) auto
    moreover have "\<exists>k. tx s' = tx s @ take k (hdr @ payload)"
      using calculation(1,3) by auto
    ultimately show ?thesis using loop(1,4,6) req [OF loop(8,9)] by auto
  qed
qed

definition demo_buf :: pybuf where
  "demo_buf = \<lparr>pb_readonly = False, pb_bytes = [9, 9, 9, 9, 8]\<rparr>"

theorem readinto_confined_witness:
  "\<exists>r d' s' buf'. readinto zero_run_lz 3 2 False ((demo_disk, demo_read_sock), demo_buf) = (r, (d', s'), buf') \<and>
     (\<exists>k. tx s' = take k (aio_hdr 7 44 5 @ read_request demo_disk 3 2)) \<and>
     length (pb_bytes buf') = 5 \<and> drop 4 (pb_bytes buf') = [8]"
proof -
  obtain r d' s' buf' where run:
    "readinto zero_run_lz 3 2 False ((demo_disk, demo_read_sock), demo_buf) = (r, (d', s'), buf')"
    by (metis prod.collapse)
  have "read_length demo_disk 2 = 4" "tx demo_read_sock = []" "pb_bytes demo_buf = [9, 9, 9, 9, 8]" "nd_op_id demo_disk = 5"
    by code_simp+
  with readinto_confined [OF demo_disk_wf run] run show ?thesis by auto
qed

text \<open>
  C26. A request that the 44-byte payload cannot carry (a negative start sector, a byte offset of
  \<open>2 ^ 64\<close> or more, a byte length of \<open>2 ^ 32\<close> or more) is refused by \<open>struct.error\<close> before anything is
  sent and before an \<open>opId\<close> is spent; so is a call for no sector, a read-only or a short buffer.
\<close>

theorem readinto_refuses:
  assumes "disk_wf d"
  shows "readinto lib start num skip ((d, s), buf) = (r, st, buf') \<Longrightarrow>
    num < 1 \<or> pb_readonly buf \<or> length (pb_bytes buf) < read_length d num \<or> \<not> read_in_range d start num \<Longrightarrow>
    st = (d, s) \<and> buf' = buf \<and>
    r = Inl (if num < 1 then ValueError (Text ''num_sectors must be at least 1'')
             else if pb_readonly buf then TypeError (Text ''read buffer is read-only'')
             else if length (pb_bytes buf) < read_length d num
               then RuntimeError (ReadBufferSize (length (pb_bytes buf)) (read_length d num))
             else StructError)"
  using read_payload_eq [OF assms, of start num]
  by (auto simp: readinto_def Let_def writable_bytes_def split: if_splits)

theorem readinto_refuses_witness:
  "readinto zero_run_lz (-1) 2 False ((demo_disk, demo_read_sock), demo_buf) =
     (Inl StructError, (demo_disk, demo_read_sock), demo_buf)"
proof -
  obtain r st buf' where run:
    "readinto zero_run_lz (-1) 2 False ((demo_disk, demo_read_sock), demo_buf) = (r, st, buf')"
    by (metis prod.collapse)
  have "\<not> read_in_range demo_disk (-1) 2" "\<not> pb_readonly demo_buf"
    "\<not> length (pb_bytes demo_buf) < read_length demo_disk 2" by code_simp+
  with readinto_refuses [OF demo_disk_wf run] run show ?thesis by simp
qed

subsection \<open>Fragments that overlap\<close>

text \<open>Ranges that are not disjoint hold fewer bytes than their lengths say.\<close>

lemma card_ranges_le: "card (\<Union> (set (map frag_range fs))) \<le> chunk_total fs"
proof (induction fs)
  case (Cons f fs)
  have "card (frag_range f \<union> \<Union> (set (map frag_range fs))) \<le> card (frag_range f) + card (\<Union> (set (map frag_range fs)))"
    by (rule card_Un_le)
  then show ?case using Cons by (simp add: frag_range_def)
qed simp

lemma card_ranges_less:
  "list_all (frag_ok lib n) fs \<Longrightarrow> \<not> sorted_wrt frags_apart fs \<Longrightarrow> card (\<Union> (set (map frag_range fs))) < chunk_total fs"
proof (induction fs)
  case (Cons f fs)
  let ?R = "\<Union> (set (map frag_range fs))"
  have fin: "finite (frag_range f)" "finite ?R" by (simp_all add: frag_range_def)
  have "card (frag_range f \<union> ?R) < card (frag_range f) + chunk_total fs"
  proof (cases "sorted_wrt frags_apart fs")
    case False
    then show ?thesis using Cons.IH Cons.prems(1) card_Un_le [of "frag_range f" ?R] by (simp add: frag_range_def)
  next
    case True
    then obtain g where g: "g \<in> set fs" "\<not> frags_apart f g" using Cons.prems by auto
    moreover have "fr_chunk f \<noteq> []" "fr_chunk g \<noteq> []"
      using Cons.prems(1) g(1) by (auto simp: frag_ok_def list_all_iff)
    ultimately have "frag_range f \<inter> frag_range g \<noteq> {}"
      by (auto simp: frags_apart_def disjoint_ranges_def frag_range_def not_le)
    then have "0 < card (frag_range f \<inter> ?R)" using g(1) fin by (auto simp: card_gt_0_iff)
    then show ?thesis using card_Un_Int [OF fin] card_ranges_le [of fs] by simp
  qed
  then show ?case by (simp add: frag_range_def)
qed simp

lemma put_all_untouched:
  assumes "list_all (frag_ok lib (length data)) fs" and "i < length data" and "list_all (\<lambda>f. i \<notin> frag_range f) fs"
  shows "buffer.put_all data (map frag_piece fs) ! i = data ! i"
  using assms
proof (induction fs arbitrary: data)
  case (Cons f fs)
  let ?data = "buf_assign data (fr_dest f) (fr_chunk f)"
  have "fr_dest f + length (fr_chunk f) \<le> length data" "i \<notin> frag_range f" using Cons.prems by (simp_all add: frag_ok_def)
  then have "length ?data = length data" "?data ! i = data ! i"
    using Cons.prems(2) by (auto simp: nth_buf_assign frag_range_def)
  then show ?case using Cons.IH [of ?data] Cons.prems by (simp add: frag_piece_def)
qed simp

text \<open>
  C27. The duplicate check of the loop does not see overlaps. Take any server that answers a read with
  well-formed fragments inside the request, at different offsets, whose lengths add up to the request,
  but of which two overlap. \<open>readinto\<close> returns the normal result of a complete read; yet a byte of the
  request is in no fragment, and every such byte of the buffer is the one that was there before the call.
\<close>

theorem readinto_overlap_leaves_hole:
  assumes "disk_wf d" and "1 \<le> num" and "read_in_range d start num" and "u32 (nd_op_id d)"
    and "\<not> pb_readonly buf" and "read_length d num \<le> length (pb_bytes buf)"
    and "is_open s" and "room s = None"
    and "list_all (frag_ok lib (read_length d num)) fs" and "distinct (map fr_dest fs)"
    and "chunk_total fs = read_length d num" and "\<not> sorted_wrt frags_apart fs"
    and "avail (rx s) = concat (map (reply_frame (nd_op_id d) offset (read_length d num)) fs) @ rest"
  shows "\<exists>s' buf'. readinto lib start num False ((d, s), buf) =
      (Inr \<lparr>rr_uncompressed_length = read_length d num, rr_compressed_length = extra_total fs, rr_fragments = []\<rparr>,
       (d\<lparr>nd_op_id := nd_op_id d + 1\<rparr>, s'), buf') \<and> avail (rx s') = rest \<and>
    (\<exists>i<read_length d num. list_all (\<lambda>f. i \<notin> frag_range f) fs) \<and>
    (\<forall>i<read_length d num. list_all (\<lambda>f. i \<notin> frag_range f) fs \<longrightarrow> pb_bytes buf' ! i = pb_bytes buf ! i)"
proof -
  let ?n = "read_length d num" and ?op = "nd_op_id d"
  let ?data = "take ?n (pb_bytes buf)"
  let ?s1 = "s\<lparr>tx := tx s @ aio_hdr NFC_AIO_MSG_IO 44 ?op @ read_request d start num\<rparr>"
  let ?s2 = "?s1\<lparr>rx := consume (60 * length fs + extra_total fs) (rx s)\<rparr>"
  let ?put = "buffer.put_all ?data (map frag_piece fs)"
  have len: "length ?data = ?n" and n: "u32 ?n" using assms(3,6) by (simp_all add: read_in_range_def)
  have fits: "\<And>p. p \<in> set (map frag_piece fs) \<Longrightarrow> buffer.fits ?data p"
    using assms(9) len by (auto simp: buffer.fits_def frag_piece_def frag_ok_def list_all_iff)
  have put: "length ?put = ?n" using buffer.size_put_all [of "map frag_piece fs" ?data] fits len by simp
  have "read_loop lib ?n False ?op read_init (?s1, ?data) = (Inr (read_advance read_init fs), ?s2, ?put)"
    using read_loop_ok [of ?s1 ?op offset ?n fs rest lib read_init ?data] assms(4,7,9-11,13) len n
    by (simp add: read_init_def)
  then have run: "readinto lib start num False ((d, s), buf) =
      (Inr \<lparr>rr_uncompressed_length = ?n, rr_compressed_length = extra_total fs, rr_fragments = []\<rparr>,
       (d\<lparr>nd_op_id := ?op + 1\<rparr>, ?s2), buf\<lparr>pb_bytes := ?put @ drop ?n (pb_bytes buf)\<rparr>)"
    using readinto_prefix [OF assms(1,2,5,6,3,4,7,8), of lib False] by (simp add: read_advance_def read_init_def)
  have "(?put @ drop ?n (pb_bytes buf)) ! i = pb_bytes buf ! i" if "i < ?n" "list_all (\<lambda>f. i \<notin> frag_range f) fs" for i
    using put_all_untouched [of lib ?data fs i] assms(9) len put that by (simp add: nth_append)
  moreover have "\<exists>i<?n. list_all (\<lambda>f. i \<notin> frag_range f) fs"
  proof (rule ccontr)
    assume "\<not> ?thesis"
    then have "{..<?n} \<subseteq> \<Union> (set (map frag_range fs))" by (auto simp: list_all_iff)
    then have "?n \<le> card (\<Union> (set (map frag_range fs)))"
      using card_mono [of "\<Union> (set (map frag_range fs))" "{..<?n}"] by (simp add: frag_range_def)
    then show False using card_ranges_less [OF assms(9,12)] assms(11) by simp
  qed
  moreover have "avail (rx ?s2) = rest" using assms(13) length_reply_frames [of ?op offset ?n fs] by simp
  ultimately show ?thesis using run by (intro exI [of _ ?s2]) auto
qed

text \<open>Two fragments that both cover byte 1 of four and leave byte 3 out.\<close>

definition overlap_frags :: "frag list" where
  "overlap_frags = [\<lparr>fr_dest = 0, fr_chunk = [1, 2], fr_packed = None\<rparr>,
     \<lparr>fr_dest = 1, fr_chunk = [3, 4], fr_packed = None\<rparr>]"

theorem readinto_overlap_leaves_hole_witness:
  "\<exists>s' buf'. readinto zero_run_lz 3 2 False
       ((demo_disk, demo_sock [Data (concat (map (reply_frame 5 6 4) overlap_frags))]), demo_buf) =
     (Inr \<lparr>rr_uncompressed_length = 4, rr_compressed_length = 4, rr_fragments = []\<rparr>,
      (demo_disk\<lparr>nd_op_id := 6\<rparr>, s'), buf') \<and> pb_bytes buf' ! 3 = 9"
proof -
  let ?s = "demo_sock [Data (concat (map (reply_frame 5 6 4) overlap_frags))]"
  have "read_in_range demo_disk 3 2" "\<not> pb_readonly demo_buf" "is_open ?s" "room ?s = None"
    "list_all (frag_ok zero_run_lz 4) overlap_frags" "distinct (map fr_dest overlap_frags)"
    "chunk_total overlap_frags = 4" "\<not> sorted_wrt frags_apart overlap_frags" "u32 5"
    "avail (rx ?s) = concat (map (reply_frame 5 6 4) overlap_frags) @ []"
    "extra_total overlap_frags = 4" "read_length demo_disk 2 = 4" "nd_op_id demo_disk = 5"
    "length (pb_bytes demo_buf) = 5" "pb_bytes demo_buf ! 3 = 9"
    by code_simp+
  moreover have "list_all (\<lambda>f. 3 \<notin> frag_range f) overlap_frags"
    by (simp add: overlap_frags_def frag_range_def)
  ultimately show ?thesis
    using readinto_overlap_leaves_hole [OF demo_disk_wf, of 2 3 demo_buf ?s zero_run_lz overlap_frags 6 "[]"] by auto
qed

end
