(* ===== verification/NfcSkip.thy ===== *)
theory NfcSkip
  imports NfcReadSafety
begin

text \<open>
  The packed mode of \<open>NfcDisk.readinto\<close> (\<open>skip_decompression=True\<close>): the layout it promises with any
  server, and its agreement with the decompressing mode. \<open>rebuild_skip\<close> is the reference that
  rebuilds the uncompressed bytes from a packed result, as \<open>_rebuild_skip\<close> of
  \<open>tests/integration/test_openvixdisklib.py\<close> does.
\<close>

subsection \<open>The layout\<close>

fun packed_from :: "nat \<Rightarrow> ReadFragment list \<Rightarrow> bool" where
  "packed_from off [] = True"
| "packed_from off (f # fs) = (rf_offset f = off \<and> packed_from (off + rf_length f) fs)"

definition fragment_sound :: "nat \<Rightarrow> ReadFragment \<Rightarrow> bool" where
  "fragment_sound n f \<longleftrightarrow> 0 < rf_uncompressed_length f \<and> rf_dest f + rf_uncompressed_length f \<le> n \<and>
     (rf_compression_type f = NFC_COMPRESSION_NONE \<and> rf_length f = rf_uncompressed_length f \<or>
      rf_compression_type f = NFC_COMPRESSION_FASTLZ \<and> 0 < rf_length f)"

definition packed_total :: "ReadFragment list \<Rightarrow> nat" where
  "packed_total fs = sum_list (map rf_length fs)"

definition unpacked_total :: "ReadFragment list \<Rightarrow> nat" where
  "unpacked_total fs = sum_list (map rf_uncompressed_length fs)"

definition packed_inv :: "nat \<Rightarrow> read_state \<Rightarrow> bool" where
  "packed_inv n rs \<longleftrightarrow> packed_from 0 (rs_fragments rs) \<and>
     rs_packed_offset rs = packed_total (rs_fragments rs) \<and>
     rs_wire_bytes rs = packed_total (rs_fragments rs) \<and> packed_total (rs_fragments rs) \<le> n \<and>
     rs_filled rs = unpacked_total (rs_fragments rs) \<and> list_all (fragment_sound n) (rs_fragments rs) \<and>
     set (rs_seen rs) = rf_dest ` set (rs_fragments rs) \<and> distinct (map rf_dest (rs_fragments rs))"

lemma packed_from_append:
  "packed_from off (fs @ [f]) \<longleftrightarrow> packed_from off fs \<and> rf_offset f = off + packed_total fs"
  by (induction fs arbitrary: off) (simp_all add: packed_total_def add.assoc)

lemma read_extra_skip_InrD:
  assumes "read_extra lib n True (dest, chunk_len, ctype, extra_len) rs st = (Inr rs', st')"
  shows "rs_packed_offset rs + extra_len \<le> n \<and>
    rs' = rs\<lparr>rs_fragments := rs_fragments rs @
                  [\<lparr>rf_dest = dest, rf_uncompressed_length = chunk_len, rf_compression_type = ctype,
                    rf_offset = rs_packed_offset rs, rf_length = extra_len\<rparr>],
                 rs_packed_offset := rs_packed_offset rs + extra_len\<rparr> \<and>
    recvn_into (rs_packed_offset rs) extra_len st = (Inr (), st')"
  using assms by (auto simp: read_extra_def Let_def io_iffs split: if_splits)

lemma read_step_packed:
  assumes "packed_inv n rs" and "read_step lib n True op rs st = (Inr rs', st')"
  shows "packed_inv n rs'"
proof -
  obtain s data where st: "st = (s, data)" by (cases st)
  from assms(2) obtain dest chunk_len ctype extra_len s1 rs1 st1 where
    reply: "read_io_reply n op (rs_seen rs) s = (Inr (dest, chunk_len, ctype, extra_len), s1)"
    and extra: "read_extra lib n True (dest, chunk_len, ctype, extra_len)
                  (rs\<lparr>rs_seen := dest # rs_seen rs\<rparr>) (s1, data) = (Inr rs1, st1)"
    and rs': "rs' = rs1\<lparr>rs_wire_bytes := rs_wire_bytes rs1 + extra_len,
                        rs_filled := rs_filled rs1 + chunk_len\<rparr>"
    unfolding st by (auto simp: read_step_def bind_io_Inr_iff on_fst_def split: prod.splits)
  show ?thesis
    using assms(1) read_io_reply_InrD [OF reply] read_extra_skip_InrD [OF extra] rs'
    by (auto simp: packed_inv_def packed_from_append packed_total_def unpacked_total_def
        fragment_sound_def)
qed

lemma read_loop_packed:
  "packed_inv n rs \<Longrightarrow> read_loop lib n True op rs st = (Inr rs', st') \<Longrightarrow>
     packed_inv n rs' \<and> n \<le> rs_filled rs'"
proof (induction lib n "True" op rs st rule: read_loop.induct)
  case (1 lib n op rs st)
  show ?case
  proof (cases "rs_filled rs < n")
    case False
    then show ?thesis using "1.prems" by (auto simp: read_loop.simps)
  next
    case True
    obtain r st1 where r: "read_step lib n True op rs st = (r, st1)"
      by (cases "read_step lib n True op rs st")
    show ?thesis
    proof (cases r)
      case (Inl e)
      then show ?thesis using "1.prems"(2) True r by (simp add: read_loop.simps [of lib n True op rs st])
    next
      case (Inr rs1)
      have "read_loop lib n True op rs1 st1 = (Inr rs', st')"
        using "1.prems"(2) True r Inr by (simp add: read_loop.simps [of lib n True op rs st])
      moreover have "packed_inv n rs1"
        using read_step_packed [OF "1.prems"(1)] r Inr by blast
      ultimately show ?thesis using "1.hyps" [OF True r [symmetric] Inr] by simp
    qed
  qed
qed

lemma packed_inv_init: "packed_inv n read_init"
  by (simp add: packed_inv_def read_init_def packed_total_def unpacked_total_def)

text \<open>
  C20. The fragment table of a packed read, with any server. The extras lie densely from offset 0 in
  the order of the table and within the request; \<open>compressed_length\<close> is their total; every entry
  describes a non-empty range inside the read, raw entries are as long as their range; no two
  entries start at the same place; and the ranges add up to at least the request.
\<close>

theorem readinto_packed_layout:
  "readinto lib start num True ((d, s), buf) = (Inr res, st, buf') \<Longrightarrow>
     packed_from 0 (rr_fragments res) \<and>
     rr_compressed_length res = packed_total (rr_fragments res) \<and>
     packed_total (rr_fragments res) \<le> read_length d num \<and>
     read_length d num \<le> unpacked_total (rr_fragments res) \<and>
     list_all (fragment_sound (read_length d num)) (rr_fragments res) \<and>
     distinct (map rf_dest (rr_fragments res))"
proof -
  assume run: "readinto lib start num True ((d, s), buf) = (Inr res, st, buf')"
  obtain d' s' where "st = (d', s')" by (cases st)
  with run have "readinto lib start num True ((d, s), buf) = (Inr res, (d', s'), buf')" by simp
  then show ?thesis
  proof (cases rule: readinto_cases)
    case (loop hdr payload s1 rl data')
    then obtain rs where rs: "rl = Inr rs" by (cases rl) auto
    have "packed_inv (read_length d num) rs \<and> read_length d num \<le> rs_filled rs"
      using read_loop_packed [OF packed_inv_init] loop(5) rs by blast
    then show ?thesis using loop(7) rs by (auto simp: packed_inv_def)
  qed simp_all
qed

theorem readinto_packed_layout_witness:
  "\<exists>res st buf'. readinto zero_run_lz 3 2 True ((demo_disk, demo_read_sock), demo_buf) = (Inr res, st, buf') \<and>
     packed_from 0 (rr_fragments res) \<and> rr_compressed_length res = packed_total (rr_fragments res) \<and>
     map rf_dest (rr_fragments res) = [2, 0] \<and> pb_bytes buf' = [3, 4, 1, 9, 8]"
proof -
  let ?run = "readinto zero_run_lz 3 2 True ((demo_disk, demo_read_sock), demo_buf)"
  have "(case fst ?run of Inl e \<Rightarrow> False | Inr res \<Rightarrow> map rf_dest (rr_fragments res) = [2, 0])"
    by code_simp
  moreover obtain r st buf' where run: "?run = (r, st, buf')" by (metis prod.collapse)
  ultimately obtain res where r: "r = Inr res" and dests: "map rf_dest (rr_fragments res) = [2, 0]"
    by (auto split: sum.splits)
  have "pb_bytes (snd (snd ?run)) = [3, 4, 1, 9, 8]" by code_simp
  then have buf: "pb_bytes buf' = [3, 4, 1, 9, 8]" unfolding run by simp
  show ?thesis
    using readinto_packed_layout [OF run [unfolded r]] run r dests buf
    by (intro exI [of _ res] exI [of _ st] exI [of _ buf']) simp
qed

subsection \<open>Agreement with the decompressing mode\<close>

fun rebuild_loop :: "fastlz_lib \<Rightarrow> byte list \<Rightarrow> ReadFragment list \<Rightarrow> byte list \<Rightarrow> exn + byte list" where
  "rebuild_loop lib view [] out = Inr out"
| "rebuild_loop lib view (f # fs) out =
     (let extra = buf_slice view (rf_offset f) (rf_length f) in
      case (if rf_compression_type f = NFC_COMPRESSION_FASTLZ
            then decompress lib extra (rf_uncompressed_length f)
            else if rf_compression_type f = NFC_COMPRESSION_NONE then Inr extra
            else Inl (OtherError (Text ''unexpected compression_type''))) of
        Inl e \<Rightarrow> Inl e
      | Inr chunk \<Rightarrow>
          if length chunk \<noteq> rf_uncompressed_length f then Inl (OtherError (Text ''assert''))
          else rebuild_loop lib view fs (buf_assign out (rf_dest f) chunk))"

definition rebuild_skip :: "fastlz_lib \<Rightarrow> byte list \<Rightarrow> ReadResult \<Rightarrow> exn + byte list" where
  "rebuild_skip lib view res =
     (case rebuild_loop lib view (rr_fragments res) (replicate (rr_uncompressed_length res) 0) of
        Inl e \<Rightarrow> Inl e
      | Inr out \<Rightarrow>
          if sum_list (map rf_length (rr_fragments res)) \<noteq> rr_compressed_length res
          then Inl (OtherError (Text ''assert'')) else Inr out)"

text \<open>The table that a list of server fragments produces.\<close>

fun packed_table :: "nat \<Rightarrow> frag list \<Rightarrow> ReadFragment list" where
  "packed_table off [] = []"
| "packed_table off (f # fs) =
     \<lparr>rf_dest = fr_dest f, rf_uncompressed_length = length (fr_chunk f), rf_compression_type = frag_ctype f,
      rf_offset = off, rf_length = length (frag_extra f)\<rparr> # packed_table (off + length (frag_extra f)) fs"

definition packed_extras :: "frag list \<Rightarrow> byte list" where
  "packed_extras fs = concat (map frag_extra fs)"

lemma length_packed_extras [simp]: "length (packed_extras fs) = extra_total fs"
  by (induction fs) (simp_all add: packed_extras_def)

lemma read_step_skip_ok:
  assumes "is_open s" and "avail (rx s) = reply_frame op offset n f @ rest"
    and "frag_ok lib n f" and "u32 n" and "u32 op" and "fr_dest f \<notin> set (rs_seen rs)"
    and "length data = n" and "rs_packed_offset rs + length (frag_extra f) \<le> n"
  shows "read_step lib n True op rs (s, data) =
    (Inr (rs\<lparr>rs_seen := fr_dest f # rs_seen rs, rs_fragments := rs_fragments rs @ packed_table (rs_packed_offset rs) [f],
             rs_packed_offset := rs_packed_offset rs + length (frag_extra f),
             rs_wire_bytes := rs_wire_bytes rs + length (frag_extra f),
             rs_filled := rs_filled rs + length (fr_chunk f)\<rparr>),
     s\<lparr>rx := consume (60 + length (frag_extra f)) (rx s)\<rparr>,
     buf_assign data (rs_packed_offset rs) (frag_extra f))"
proof -
  let ?s1 = "s\<lparr>rx := consume 60 (rx s)\<rparr>" and ?k = "length (frag_extra f)"
  have av: "avail (rx ?s1) = frag_extra f @ rest" and len: "60 + ?k \<le> length (avail (rx s))"
    using assms(2) by (simp_all add: reply_frame_def)
  have "recvn_into (rs_packed_offset rs) ?k (?s1, data) =
      (Inr (), s\<lparr>rx := consume (60 + ?k) (rx s)\<rparr>, buf_assign data (rs_packed_offset rs) (frag_extra f))"
    using recvn_into_ok [of ?s1 ?k "rs_packed_offset rs" data] assms(1,7,8) av len by simp
  then show ?thesis
    unfolding read_step_def
    using read_io_reply_ok [OF assms(1-6)] assms(8) by (simp add: on_fst_def read_extra_def Let_def)
qed

definition skip_advance :: "read_state \<Rightarrow> frag list \<Rightarrow> read_state" where
  "skip_advance rs fs = rs\<lparr>rs_seen := rev (map fr_dest fs) @ rs_seen rs,
     rs_fragments := rs_fragments rs @ packed_table (rs_packed_offset rs) fs,
     rs_packed_offset := rs_packed_offset rs + extra_total fs,
     rs_wire_bytes := rs_wire_bytes rs + extra_total fs, rs_filled := rs_filled rs + chunk_total fs\<rparr>"

lemma read_loop_skip_ok:
  assumes "is_open s" and "avail (rx s) = concat (map (reply_frame op offset n) fs) @ rest"
    and "list_all (frag_ok lib n) fs" and "distinct (map fr_dest fs)"
    and "\<forall>f\<in>set fs. fr_dest f \<notin> set (rs_seen rs)" and "rs_filled rs + chunk_total fs = n"
    and "u32 n" and "u32 op" and "length data = n" and "rs_packed_offset rs + extra_total fs \<le> n"
  shows "read_loop lib n True op rs (s, data) =
    (Inr (skip_advance rs fs), s\<lparr>rx := consume (60 * length fs + extra_total fs) (rx s)\<rparr>,
     buf_assign data (rs_packed_offset rs) (packed_extras fs))"
  using assms
proof (induction fs arbitrary: s rs data)
  case Nil
  then show ?case by (simp add: read_loop.simps skip_advance_def packed_extras_def)
next
  case (Cons f fs)
  let ?k = "length (frag_extra f)" and ?p = "rs_packed_offset rs"
  let ?s1 = "s\<lparr>rx := consume (60 + ?k) (rx s)\<rparr>"
  let ?rs1 = "skip_advance rs [f]"
  have fok: "frag_ok lib n f" and lt: "rs_filled rs < n"
    using Cons.prems by (auto simp: frag_ok_def)
  have av: "avail (rx s) = reply_frame op offset n f @ concat (map (reply_frame op offset n) fs) @ rest"
    using Cons.prems(2) by simp
  have step: "read_step lib n True op rs (s, data) = (Inr ?rs1, ?s1, buf_assign data ?p (frag_extra f))"
    using read_step_skip_ok [OF Cons.prems(1) av fok] Cons.prems by (simp add: skip_advance_def)
  have len: "60 + ?k \<le> length (avail (rx s))" "60 * length fs + extra_total fs \<le> length (avail (rx ?s1))"
    using av length_reply_frames [of op offset n fs] by (simp_all add: reply_frame_def)
  have av1: "avail (rx ?s1) = concat (map (reply_frame op offset n) fs) @ rest"
    using av len(1) by (simp add: reply_frame_def)
  have dests: "fr_dest g \<noteq> fr_dest f" if "g \<in> set fs" for g
    using Cons.prems(4) that by (metis distinct.simps(2) image_eqI list.simps(9) set_map)
  have "read_loop lib n True op ?rs1 (?s1, buf_assign data ?p (frag_extra f)) =
    (Inr (skip_advance ?rs1 fs), ?s1\<lparr>rx := consume (60 * length fs + extra_total fs) (rx ?s1)\<rparr>,
     buf_assign (buf_assign data ?p (frag_extra f)) (?p + ?k) (packed_extras fs))"
    using Cons.IH [of ?s1 ?rs1 "buf_assign data ?p (frag_extra f)"] Cons.prems av1 dests
    by (simp add: skip_advance_def)
  moreover have "skip_advance ?rs1 fs = skip_advance rs (f # fs)"
    by (simp add: skip_advance_def)
  moreover have "?s1\<lparr>rx := consume (60 * length fs + extra_total fs) (rx ?s1)\<rparr>
      = s\<lparr>rx := consume (60 * length (f # fs) + extra_total (f # fs)) (rx s)\<rparr>"
    using len by (simp add: algebra_simps)
  moreover have "buf_assign (buf_assign data ?p (frag_extra f)) (?p + ?k) (packed_extras fs)
      = buf_assign data ?p (packed_extras (f # fs))"
    using buf_assign_append [of ?p "frag_extra f" "packed_extras fs" data] Cons.prems(9,10)
    by (simp add: packed_extras_def [of "f # fs"] packed_extras_def [of fs, symmetric])
  ultimately show ?case using lt step by (subst read_loop.simps) simp
qed

lemma rebuild_packed_table:
  assumes "list_all (frag_ok lib n) fs" and "drop off view = packed_extras fs @ rest"
  shows "rebuild_loop lib view (packed_table off fs) out = Inr (buffer.put_all out (map frag_piece fs))"
  using assms
proof (induction fs arbitrary: off out)
  case (Cons f fs)
  have d: "drop off view = frag_extra f @ packed_extras fs @ rest"
    using Cons.prems(2) by (simp add: packed_extras_def)
  have e: "buf_slice view off (length (frag_extra f)) = frag_extra f"
    using d by (simp add: buf_slice_def)
  have d': "drop (off + length (frag_extra f)) view = packed_extras fs @ rest"
    using arg_cong [OF d, of "drop (length (frag_extra f))"] by (simp add: add.commute)
  have "rebuild_loop lib view (packed_table (off + length (frag_extra f)) fs) out' =
      Inr (buffer.put_all out' (map frag_piece fs))" for out'
    using Cons.prems(1) d' by (intro Cons.IH) simp_all
  then show ?case
    using Cons.prems(1) e
    by (cases "fr_packed f")
      (auto simp: frag_ctype_def frag_extra_def frag_piece_def [of f] frag_ok_def [of lib n f])
qed simp

lemma packed_table_total: "sum_list (map rf_length (packed_table off fs)) = extra_total fs"
  by (induction fs arbitrary: off) simp_all

text \<open>
  C19. The packed mode loses nothing. When the server answers with fragments that tile the request,
  and their extras together are no longer than it, a packed read returns the extras one after the
  other at the front of the buffer, with a table from which the reference rebuild computes exactly
  the bytes \<open>D\<close> that the decompressing mode stores for the same answer.
\<close>

theorem readinto_skip_rebuilds:
  assumes "disk_wf d" and "1 \<le> num" and "read_in_range d start num" and "u32 (nd_op_id d)"
    and "\<not> pb_readonly buf" and "read_length d num \<le> length (pb_bytes buf)"
    and "is_open s" and "room s = None"
    and "length D = read_length d num" and "reply_for lib D fs" and "extra_total fs \<le> length D"
    and "avail (rx s) = concat (map (reply_frame (nd_op_id d) offset (length D)) fs) @ rest"
  shows "\<exists>res st buf'. readinto lib start num True ((d, s), buf) = (Inr res, st, buf') \<and>
      rr_compressed_length res = extra_total fs \<and> take (extra_total fs) (pb_bytes buf') = packed_extras fs \<and>
      rebuild_skip lib (pb_bytes buf') res = Inr D"
proof -
  let ?op = "nd_op_id d" and ?data = "take (length D) (pb_bytes buf)"
  let ?s1 = "s\<lparr>tx := tx s @ aio_hdr NFC_AIO_MSG_IO 44 ?op @ read_request d start num\<rparr>"
  let ?s2 = "?s1\<lparr>rx := consume (60 * length fs + extra_total fs) (rx s)\<rparr>"
  let ?buf = "buf\<lparr>pb_bytes := buf_assign ?data 0 (packed_extras fs) @ drop (length D) (pb_bytes buf)\<rparr>"
  let ?res = "\<lparr>rr_uncompressed_length = length D, rr_compressed_length = extra_total fs,
      rr_fragments = packed_table 0 fs\<rparr>"
  have ok: "list_all (frag_ok lib (length D)) fs" "sorted_wrt frags_apart fs" "chunk_total fs = length D"
    using assms(10) by (auto simp: reply_for_def chunk_total_def)
  have n: "u32 (length D)" and len: "length ?data = length D"
    using assms(3,6,9) by (simp_all add: read_in_range_def)
  have "read_loop lib (length D) True ?op read_init (?s1, ?data) =
      (Inr (skip_advance read_init fs), ?s2, buf_assign ?data 0 (packed_extras fs))"
    using read_loop_skip_ok [of ?s1 ?op offset "length D" fs rest lib read_init ?data]
      apart_distinct [OF ok(1,2)] ok n len assms
    by (simp add: read_init_def)
  then have run: "readinto lib start num True ((d, s), buf) = (Inr ?res, (d\<lparr>nd_op_id := ?op + 1\<rparr>, ?s2), ?buf)"
    using readinto_prefix [OF assms(1,2,5,6,3,4,7,8), of lib True] assms(9)
    by (simp add: skip_advance_def read_init_def)
  have view: "pb_bytes ?buf = packed_extras fs @ drop (extra_total fs) (pb_bytes buf)"
  proof -
    let ?k = "extra_total fs" and ?bs = "pb_bytes buf"
    have "take (length D - ?k) (drop ?k ?bs) @ drop (length D - ?k) (drop ?k ?bs) = drop ?k ?bs"
      by (rule append_take_drop_id)
    then show ?thesis using assms(6,9,11) by (simp add: buf_assign_def drop_take)
  qed
  have "rebuild_loop lib (pb_bytes ?buf) (packed_table 0 fs) (replicate (length D) 0) = Inr D"
    using rebuild_packed_table [OF ok(1), of 0 "pb_bytes ?buf"] put_all_reply [OF assms(10)] view by simp
  then have "rebuild_skip lib (pb_bytes ?buf) ?res = Inr D"
    by (simp add: rebuild_skip_def packed_table_total)
  then show ?thesis using run view by (intro exI) (auto simp del: One_nat_def)
qed

theorem readinto_skip_rebuilds_witness:
  "\<exists>res st buf'. readinto zero_run_lz 3 2 True ((demo_disk, demo_read_sock), demo_buf) = (Inr res, st, buf') \<and>
     take 3 (pb_bytes buf') = [3, 4, 1] \<and> rebuild_skip zero_run_lz (pb_bytes buf') res = Inr [0, 0, 3, 4]"
proof -
  have "read_in_range demo_disk 3 2" "read_length demo_disk 2 = 4" "u32 (nd_op_id demo_disk)"
    "nd_op_id demo_disk = 5" "extra_total demo_frags = 3" "packed_extras demo_frags = [3, 4, 1]"
    by (simp_all add: read_in_range_def read_length_def demo_disk_def u32_def demo_frags_def frag_extra_def
        packed_extras_def)
  then show ?thesis
    using readinto_skip_rebuilds [OF demo_disk_wf, of 2 3 demo_buf demo_read_sock "[0, 0, 3, 4]"
        zero_run_lz demo_frags 6 "[9]"] demo_reply
    by (auto simp: demo_buf_def demo_read_sock_def demo_sock_def demo_wire_def numeral_2_eq_2 [symmetric])
qed

end
