(* ===== verification/NfcWrite.thy ===== *)
theory NfcWrite
  imports NfcReadSafety
begin

text \<open>
  Correctness of \<open>NfcDisk.write\<close>.

  \<open>write_frame\<close> is a fragment on the wire, after the request table of \<open>docs/nfc_write.md\<close>, and \<open>tile\<close>
  the cut of the data into pieces of the AIO buffer size. \<open>serve_writes\<close> is the reference server of
  that document: it decodes the frames of a stream one after the other and stores each chunk in a
  disk image. The theorems say that what a successful \<open>write\<close> has sent makes this server store the
  data, that \<open>write\<close> returns on every disk that can be opened, and when it succeeds.
\<close>

subsection \<open>Frames\<close>

definition write_payload :: "nat \<Rightarrow> nat \<Rightarrow> nat \<Rightarrow> frag \<Rightarrow> byte list" where
  "write_payload h offset n f =
     le_bytes 8 h @ le_bytes 8 (frag_ctype f * 2 ^ 32) @ le_bytes 8 offset @ le_bytes 4 n @
     le_bytes 4 (fr_dest f) @ le_bytes 4 (length (fr_chunk f)) @ le_bytes 4 (length (frag_extra f)) @
     le_bytes 4 0"

definition write_frame :: "nat \<Rightarrow> nat \<Rightarrow> nat \<Rightarrow> nat \<Rightarrow> frag \<Rightarrow> byte list" where
  "write_frame h op offset n f =
     aio_hdr NFC_AIO_MSG_IO 44 op @ write_payload h offset n f @ frag_extra f"

lemma length_write_payload [simp]: "length (write_payload h offset n f) = 44"
  by (simp add: write_payload_def)

function tile :: "nat \<Rightarrow> nat \<Rightarrow> 'a list \<Rightarrow> (nat \<times> 'a list) list" where
  "tile b off xs =
     (if b = 0 \<or> xs = [] then [] else (off, take b xs) # tile b (off + length (take b xs)) (drop b xs))"
  by pat_completeness auto
termination
  by (relation "measure (\<lambda>(b, off, xs). length xs)") auto

declare tile.simps [simp del]

text \<open>The fragment that \<open>write\<close> makes of a piece.\<close>

definition frag_of :: "fastlz_lib \<Rightarrow> nfc_disk \<Rightarrow> nat \<times> byte list \<Rightarrow> frag" where
  "frag_of lib d p = \<lparr>fr_dest = fst p, fr_chunk = snd p,
     fr_packed = (case write_extra lib d (snd p) of
        Inl e \<Rightarrow> None | Inr (x, c) \<Rightarrow> if c = NFC_COMPRESSION_FASTLZ then Some x else None)\<rparr>"

definition write_frags :: "fastlz_lib \<Rightarrow> nfc_disk \<Rightarrow> nat \<Rightarrow> byte list \<Rightarrow> frag list" where
  "write_frags lib d off xs = map (frag_of lib d) (tile (nd_aio_buffer_size d) off xs)"

lemma write_extra_Inr:
  assumes "write_extra lib d chunk = Inr (x, c)"
  shows "frag_extra (frag_of lib d (off, chunk)) = x \<and> frag_ctype (frag_of lib d (off, chunk)) = c \<and>
    length x \<le> length chunk"
  using assms
  by (auto simp: frag_of_def frag_extra_def frag_ctype_def write_extra_def split: sum.splits if_splits)

text \<open>A fragment can be decoded, whatever the package did to it, when the package is sound.\<close>

lemma frag_of_ok:
  assumes "pyfastlz_ok lib" and "u32 (length chunk)" and "chunk \<noteq> []" and "off + length chunk \<le> n"
  shows "frag_ok lib n (frag_of lib d (off, chunk))"
proof -
  have "u32 (length x) \<and> decompress lib x (length chunk) = Inr chunk"
    if "compress lib chunk = Inr x" "x \<noteq> []" "length x < length chunk" for x
    using that assms(2) decompress_compress [OF assms(1) _ that(1,2)] by (simp add: u32_def)
  then show ?thesis
    using assms by (auto simp: frag_ok_def frag_of_def write_extra_def split: sum.splits option.splits)
qed

lemma tile_pieces:
  "p \<in> set (tile b off xs) \<Longrightarrow>
     snd p \<noteq> [] \<and> length (snd p) \<le> b \<and> off \<le> fst p \<and> fst p + length (snd p) \<le> off + length xs"
proof (induction b off xs rule: tile.induct)
  case (1 b off xs)
  show ?case
  proof (cases "b = 0 \<or> xs = []")
    case False
    then have "p = (off, take b xs) \<or> p \<in> set (tile b (off + length (take b xs)) (drop b xs))"
      using "1.prems" by (subst (asm) tile.simps) auto
    then show ?thesis using "1.IH" [OF False] False by (auto simp: min_def split: if_splits)
  qed (use "1.prems" in \<open>simp add: tile.simps\<close>)
qed

subsection \<open>One fragment\<close>

definition write_fits :: "nfc_disk \<Rightarrow> nat \<Rightarrow> int \<Rightarrow> nat \<Rightarrow> bool" where
  "write_fits d op offset n \<longleftrightarrow>
     nd_handle d < 2 ^ 64 \<and> u32 op \<and> 0 \<le> offset \<and> offset < 2 ^ 64 \<and> u32 n"

lemma write_frag_alt:
  assumes "write_extra lib d chunk = Inr (x, c)" and "write_fits d op offset n" and "off + length chunk \<le> n"
  shows "write_frag lib d op offset n off chunk =
    sock_sendall (write_frame (nd_handle d) op (nat offset) n (frag_of lib d (off, chunk)))"
proof -
  have c: "c = 0 \<or> c = 2" using assms(1) by (auto simp: write_extra_def split: sum.splits if_splits)
  then have opc: "NFC_AIO_IO_WRITE OR push_bit 32 (int c) = int (c * 2 ^ 32)" by auto
  have "length x \<le> length chunk" using write_extra_Inr [OF assms(1)] by blast
  then have "struct_pack [FQ, FQ, FQ, FI, FI, FI, FI, FI]
      [int (nd_handle d), int (c * 2 ^ 32), offset, int n, int off, int (length chunk), int (length x), 0]
    = Inr (le_bytes 8 (nd_handle d) @ le_bytes 8 (c * 2 ^ 32) @ le_bytes 8 (nat offset) @ le_bytes 4 n @
           le_bytes 4 off @ le_bytes 4 (length chunk) @ le_bytes 4 (length x) @ le_bytes 4 0)"
    using assms(2,3) c by (auto simp: write_fits_def u32_def pack1_def)
  moreover have "pack_aio_hdr NFC_AIO_MSG_IO 44 op = Inr (aio_hdr NFC_AIO_MSG_IO 44 op)"
    using assms(2) by (simp add: pack_aio_hdr_ok write_fits_def u32_def)
  ultimately show ?thesis
    using assms(1) write_extra_Inr [OF assms(1), of off] opc
    by (simp add: write_frag_def write_frame_def write_payload_def frag_of_def [of lib d] del: struct_pack.simps)
qed

lemma write_frag_InrD:
  assumes "write_frag lib d op offset n off chunk s = (Inr u, s')"
  shows "(\<exists>x c. write_extra lib d chunk = Inr (x, c)) \<and> write_fits d op offset n"
  using assms
  by (auto simp: write_frag_def io_iffs write_fits_def pack_aio_hdr_Inr_iff pack1_def u32_def
      split: sum.splits if_splits)

subsection \<open>The loop\<close>

lemma write_frags_step:
  assumes "off < length data" and "0 < nd_aio_buffer_size d"
  shows "write_frags lib d off (drop off data) =
    (let chunk = buf_slice data off (nd_aio_buffer_size d) in
     frag_of lib d (off, chunk) # write_frags lib d (off + length chunk) (drop (off + length chunk) data))"
proof -
  have "drop (nd_aio_buffer_size d) (drop off data) =
      drop (off + length (take (nd_aio_buffer_size d) (drop off data))) data"
    by (simp add: min_def add.commute)
  then show ?thesis
    using assms unfolding write_frags_def
    by (subst tile.simps) (simp add: Let_def buf_slice_def)
qed

lemma write_frags_Nil [simp]: "write_frags lib d off [] = []"
  by (simp add: write_frags_def tile.simps)

lemma slice_progress:
  "off < length data \<Longrightarrow> 0 < b \<Longrightarrow>
     length data - (off + length (buf_slice data off b)) < length data - off"
  by (simp add: buf_slice_def)

text \<open>The loop returns when the buffer size is positive, whatever the socket and the package do.\<close>

lemma write_loop_total:
  assumes "0 < nd_aio_buffer_size d"
  shows "\<exists>r. write_loop lib d op offset data off s = Some r"
proof (induction "length data - off" arbitrary: off s rule: less_induct)
  case less
  let ?chunk = "buf_slice data off (nd_aio_buffer_size d)"
  show ?case
  proof (cases "off < length data")
    case True
    obtain r s1 where r: "write_frag lib d op offset (length data) off ?chunk s = (r, s1)"
      by (cases "write_frag lib d op offset (length data) off ?chunk s")
    have "\<exists>r. write_loop lib d op offset data (off + length ?chunk) s1 = Some r"
      using slice_progress [OF True assms] by (rule less)
    then show ?thesis using True r by (subst write_loop.simps) (auto simp: Let_def split: sum.splits)
  qed (simp add: write_loop.simps)
qed

context sock_frame
begin

lemma write_loop_frame:
  assumes "0 < nd_aio_buffer_size d" and "write_loop lib d op offset data off s = Some (r, s')"
  shows "R s s'"
  using assms(2)
proof (induction "length data - off" arbitrary: off s rule: less_induct)
  case less
  let ?chunk = "buf_slice data off (nd_aio_buffer_size d)"
  show ?case
  proof (cases "off < length data")
    case False
    then show ?thesis using less.prems refl_R by (simp add: write_loop.simps)
  next
    case True
    obtain r1 s1 where f: "write_frag lib d op offset (length data) off ?chunk s = (r1, s1)"
      by (cases "write_frag lib d op offset (length data) off ?chunk s")
    have e: "R s s1" by (rule keepsD [OF frame_write_frag f])
    show ?thesis
    proof (cases r1)
      case (Inl e')
      then show ?thesis using less.prems True f e by (simp add: write_loop.simps Let_def)
    next
      case (Inr u)
      then have "write_loop lib d op offset data (off + length ?chunk) s1 = Some (r, s')"
        using less.prems True f by (subst (asm) write_loop.simps) (simp add: Let_def)
      then have "R s1 s'" by (rule less.hyps [OF slice_progress [OF True assms(1)]])
      then show ?thesis by (rule trans_R [OF e])
    qed
  qed
qed

end

text \<open>What a finished loop has sent.\<close>

lemma write_loop_Inr:
  assumes "0 < nd_aio_buffer_size d" and "write_loop lib d op offset data off s = Some (Inr u, s')"
  shows "tx s' = tx s @ concat (map (write_frame (nd_handle d) op (nat offset) (length data))
           (write_frags lib d off (drop off data))) \<and> rx s' = rx s \<and>
    (off < length data \<longrightarrow> write_fits d op offset (length data))"
  using assms(2)
proof (induction "length data - off" arbitrary: off s rule: less_induct)
  case less
  let ?chunk = "buf_slice data off (nd_aio_buffer_size d)"
  show ?case
  proof (cases "off < length data")
    case False
    then show ?thesis using less.prems by (auto simp: write_loop.simps)
  next
    case True
    from less.prems True obtain s1 where
      f: "write_frag lib d op offset (length data) off ?chunk s = (Inr (), s1)"
      and l: "write_loop lib d op offset data (off + length ?chunk) s1 = Some (Inr u, s')"
      by (subst (asm) write_loop.simps) (auto simp: Let_def split: prod.splits sum.splits)
    from write_frag_InrD [OF f] obtain x c where
      x: "write_extra lib d ?chunk = Inr (x, c)" and fits: "write_fits d op offset (length data)" by blast
    have c: "0 < length ?chunk" "off + length ?chunk \<le> length data"
      using True assms(1) by (simp_all add: buf_slice_def)
    have "sock_sendall (write_frame (nd_handle d) op (nat offset) (length data)
        (frag_of lib d (off, ?chunk))) s = (Inr (), s1)"
      using f unfolding write_frag_alt [OF x fits c(2)] .
    then show ?thesis
      using less.hyps [OF slice_progress [OF True assms(1)] l] True c fits write_frags_step [OF True assms(1), of lib]
      by (auto simp: Let_def dest!: sock_sendall_InrD)
  qed
qed

text \<open>When the loop finishes: FastLZ takes every input of at least 16 bytes.\<close>

definition lz_compresses :: "fastlz_lib \<Rightarrow> bool" where
  "lz_compresses lib \<longleftrightarrow> (\<forall>chunk. 16 \<le> length chunk \<and> u32 (length chunk) \<longrightarrow> (\<exists>x. compress lib chunk = Inr x))"

lemma write_extra_total:
  assumes "lz_compresses lib" and "u32 (length chunk)"
  shows "\<exists>x c. write_extra lib d chunk = Inr (x, c)"
proof (cases "16 \<le> length chunk")
  case True
  then obtain y where "compress lib chunk = Inr y" using assms by (auto simp: lz_compresses_def)
  then show ?thesis by (simp add: write_extra_def)
qed (simp add: write_extra_def)

text \<open>The bytes of a whole write.\<close>

definition write_wire :: "fastlz_lib \<Rightarrow> nfc_disk \<Rightarrow> nat \<Rightarrow> nat \<Rightarrow> byte list \<Rightarrow> nat \<Rightarrow> byte list" where
  "write_wire lib d op offset data off =
     concat (map (write_frame (nd_handle d) op offset (length data)) (write_frags lib d off (drop off data)))"

lemma write_loop_ok:
  assumes "0 < nd_aio_buffer_size d" and "write_fits d op offset (length data)" and "lz_compresses lib"
    and "is_open s" and "room s = None"
  shows "write_loop lib d op offset data off s =
    Some (Inr (), s\<lparr>tx := tx s @ write_wire lib d op (nat offset) data off\<rparr>)"
  using assms(4,5)
proof (induction "length data - off" arbitrary: off s rule: less_induct)
  case less
  let ?chunk = "buf_slice data off (nd_aio_buffer_size d)"
  show ?case
  proof (cases "off < length data")
    case True
    have c: "0 < length ?chunk" "off + length ?chunk \<le> length data"
      using True assms(1) by (simp_all add: buf_slice_def)
    have "u32 (length ?chunk)" using c assms(2) by (simp add: write_fits_def u32_def)
    then obtain x c where x: "write_extra lib d ?chunk = Inr (x, c)"
      using write_extra_total [OF assms(3), of ?chunk d] by blast
    let ?f = "write_frame (nd_handle d) op (nat offset) (length data) (frag_of lib d (off, ?chunk))"
    have "write_frag lib d op offset (length data) off ?chunk s = (Inr (), s\<lparr>tx := tx s @ ?f\<rparr>)"
      using write_frag_alt [OF x assms(2) c(2)] less.prems by simp
    then show ?thesis
      using less.hyps [OF slice_progress [OF True assms(1)], of "s\<lparr>tx := tx s @ ?f\<rparr>"] less.prems True
        write_frags_step [OF True assms(1), of lib]
      by (subst write_loop.simps) (simp add: Let_def write_wire_def)
  qed (use less.prems in \<open>simp add: write_loop.simps write_wire_def\<close>)
qed

subsection \<open>The reference server\<close>

definition io_field :: "byte list \<Rightarrow> nat \<Rightarrow> nat \<Rightarrow> nat" where
  "io_field stream off k = le_val (buf_slice stream off k)"

text \<open>
  Offsets are those of the table of \<open>docs/nfc_write.md\<close> plus the 16 bytes of the header: the handle,
  the opcode (0 is a write, the compression type in its high half), the byte offset of the whole
  write, its length, and the place, length and extra size of the fragment.
\<close>

function serve_writes :: "fastlz_lib \<Rightarrow> nat \<Rightarrow> nat \<Rightarrow> byte list \<Rightarrow> byte list \<Rightarrow> byte list option" where
  "serve_writes lib h op img stream =
     (if stream = [] then Some img
      else if length stream < 60 \<or> unpack_aio_hdr stream \<noteq> Inr (NFC_AIO_MSG_IO, 44, op) \<or>
              io_field stream 16 8 \<noteq> h \<or> io_field stream 24 4 \<noteq> 0
      then None
      else let ctype = io_field stream 28 4; offset = io_field stream 32 8; total = io_field stream 40 4;
               dest = io_field stream 44 4; chunk_len = io_field stream 48 4;
               extra_len = io_field stream 52 4; extra = buf_slice stream 60 extra_len in
        if dest + chunk_len > total \<or> offset + total > length img \<or> length stream < 60 + extra_len
        then None
        else (case (if ctype = NFC_COMPRESSION_FASTLZ then decompress lib extra chunk_len else Inr extra) of
                Inl e \<Rightarrow> None
              | Inr chunk \<Rightarrow>
                  if length chunk \<noteq> chunk_len then None
                  else serve_writes lib h op (buf_assign img (offset + dest) chunk)
                         (drop (60 + extra_len) stream)))"
  by pat_completeness auto
termination
  by (relation "measure (\<lambda>(lib, h, op, img, stream). length stream)") auto

declare serve_writes.simps [simp del]

lemma le_bytes_add: "le_bytes (m + n) v = le_bytes m v @ le_bytes n (v div 256 ^ m)"
  by (induction m arbitrary: v) (simp_all add: div_mult2_eq)

lemma le_bytes_shifted: "le_bytes n (c * 256 ^ n) = le_bytes n 0"
proof (induction n)
  case (Suc n)
  have "c * 256 ^ Suc n = 256 * (c * 256 ^ n)" by simp
  then have "(c * 256 ^ Suc n) mod 256 = 0" "c * 256 ^ Suc n div 256 = c * 256 ^ n" by simp_all
  then show ?case using Suc by simp
qed simp

lemma le_bytes_opcode: "le_bytes 8 (c * 4294967296) = le_bytes 4 0 @ le_bytes 4 c"
  using le_bytes_add [of 4 4 "c * 256 ^ 4"] le_bytes_shifted [of 4 c] by simp

lemma frag_ctype_cases: "frag_ctype f = 0 \<or> frag_ctype f = 2"
  by (simp add: frag_ctype_def split: option.splits)

lemma write_frame_fields:
  assumes "frag_ok lib n f" and "u32 n" and "h < 2 ^ 64" and "offset < 2 ^ 64"
  shows "io_field (write_frame h op offset n f @ rest) 16 8 = h"
    and "io_field (write_frame h op offset n f @ rest) 24 4 = 0"
    and "io_field (write_frame h op offset n f @ rest) 28 4 = frag_ctype f"
    and "io_field (write_frame h op offset n f @ rest) 32 8 = offset"
    and "io_field (write_frame h op offset n f @ rest) 40 4 = n"
    and "io_field (write_frame h op offset n f @ rest) 44 4 = fr_dest f"
    and "io_field (write_frame h op offset n f @ rest) 48 4 = length (fr_chunk f)"
    and "io_field (write_frame h op offset n f @ rest) 52 4 = length (frag_extra f)"
proof -
  have u: "u32 (fr_dest f)" "u32 (length (fr_chunk f))" "u32 (length (frag_extra f))"
    using assms frag_extra_u32 [OF assms(1,2)] by (auto simp: frag_ok_def u32_def)
  note facts = io_field_def buf_slice_def write_frame_def write_payload_def le_val_le_bytes
    le_bytes_opcode
  show "io_field (write_frame h op offset n f @ rest) 16 8 = h"
    and "io_field (write_frame h op offset n f @ rest) 24 4 = 0"
    and "io_field (write_frame h op offset n f @ rest) 32 8 = offset"
    and "io_field (write_frame h op offset n f @ rest) 40 4 = n"
    using assms(2-4) by (simp_all add: facts u32_def)
  show "io_field (write_frame h op offset n f @ rest) 28 4 = frag_ctype f"
    using frag_ctype_cases [of f] by (auto simp: facts)
  show "io_field (write_frame h op offset n f @ rest) 44 4 = fr_dest f"
    and "io_field (write_frame h op offset n f @ rest) 48 4 = length (fr_chunk f)"
    and "io_field (write_frame h op offset n f @ rest) 52 4 = length (frag_extra f)"
    using u by (simp_all add: facts u32_def)
qed

lemma serve_frame:
  assumes "frag_ok lib n f" and "u32 n" and "h < 2 ^ 64" and "offset < 2 ^ 64" and "u32 op"
    and "offset + n \<le> length img"
  shows "serve_writes lib h op img (write_frame h op offset n f @ rest) =
    serve_writes lib h op (buf_assign img (offset + fr_dest f) (fr_chunk f)) rest"
proof -
  let ?w = "write_frame h op offset n f @ rest" and ?k = "length (frag_extra f)"
  have w: "?w = aio_hdr NFC_AIO_MSG_IO 44 op @ write_payload h offset n f @ frag_extra f @ rest"
    by (simp add: write_frame_def)
  have hdr: "unpack_aio_hdr ?w = Inr (NFC_AIO_MSG_IO, 44, op)"
    unfolding w using aio_hdr_codec.dec_enc [of "(7, 44, op)" "aio_hdr 7 44 op"] assms(5)
    by (simp add: pack_aio_hdr_ok u32_def)
  have len: "60 + ?k \<le> length ?w" unfolding w by simp
  then have ne: "?w \<noteq> []" by (metis add_is_0 le_zero_eq list.size(3) zero_neq_numeral)
  have extra: "buf_slice ?w 60 ?k = frag_extra f" and rest: "drop (60 + ?k) ?w = rest"
    unfolding w by (simp_all add: buf_slice_def)
  have chunk: "(if frag_ctype f = NFC_COMPRESSION_FASTLZ then decompress lib (frag_extra f) (length (fr_chunk f))
      else Inr (frag_extra f)) = Inr (fr_chunk f)"
    using assms(1) by (auto simp: frag_ok_def frag_ctype_def frag_extra_def split: option.splits)
  have "fr_dest f + length (fr_chunk f) \<le> n" using assms(1) by (simp add: frag_ok_def)
  then show ?thesis
    using hdr len ne assms(6) extra rest chunk
    by (subst serve_writes.simps)
      (simp add: write_frame_fields [OF assms(1-4)] Let_def
        del: append_is_Nil_conv drop_append split del: if_split cong: if_cong)
qed

lemma serve_write_frags:
  assumes "pyfastlz_ok lib" and "0 < nd_aio_buffer_size d" and "write_fits d op (int offset) (length data)"
    and "offset + length data \<le> length img" and "off \<le> length data"
  shows "serve_writes lib (nd_handle d) op img
      (concat (map (write_frame (nd_handle d) op offset (length data)) (write_frags lib d off (drop off data))))
    = Some (buf_assign img (offset + off) (drop off data))"
  using assms(4,5)
proof (induction "length data - off" arbitrary: off img rule: less_induct)
  case less
  let ?chunk = "buf_slice data off (nd_aio_buffer_size d)"
  let ?f = "frag_of lib d (off, ?chunk)"
  show ?case
  proof (cases "off < length data")
    case False
    then show ?thesis by (simp add: serve_writes.simps)
  next
    case True
    have c: "0 < length ?chunk" "off + length ?chunk \<le> length data"
      using True assms(2) by (simp_all add: buf_slice_def)
    have fit: "u32 (length data)" "nd_handle d < 2 ^ 64" "offset < 2 ^ 64" "u32 op"
      using assms(3) by (auto simp: write_fits_def)
    have ok: "frag_ok lib (length data) ?f"
      using c fit(1) by (intro frag_of_ok [OF assms(1)]) (auto simp: u32_def)
    have f: "fr_dest ?f = off" "fr_chunk ?f = ?chunk" by (simp_all add: frag_of_def)
    have split: "drop off data = ?chunk @ drop (off + length ?chunk) data"
      using append_take_drop_id [of "length ?chunk" "drop off data"]
      by (simp add: buf_slice_def min_def add.commute split: if_splits)
    have "buf_assign (buf_assign img (offset + off) ?chunk) (offset + off + length ?chunk)
        (drop (off + length ?chunk) data) = buf_assign img (offset + off) (drop off data)"
      unfolding split using less.prems(1) c(2) by (intro buf_assign_append) simp
    then show ?thesis
      using less.hyps [OF slice_progress [OF True assms(2)], of "buf_assign img (offset + off) ?chunk"]
        serve_frame [OF ok fit(1,2,3,4) less.prems(1)] less.prems c f
        write_frags_step [OF True assms(2), of lib]
      by (simp add: Let_def add.assoc)
  qed
qed

lemma tile_concat: "0 < b \<Longrightarrow> concat (map snd (tile b off xs)) = xs"
  by (induction b off xs rule: tile.induct) (subst tile.simps, simp)

lemma write_frags_concat: "0 < nd_aio_buffer_size d \<Longrightarrow> concat (map fr_chunk (write_frags lib d off xs)) = xs"
  by (simp add: write_frags_def frag_of_def comp_def tile_concat)

lemma frag_of_extra_le: "length (frag_extra (frag_of lib d p)) \<le> length (snd p)"
  by (cases "write_extra lib d (snd p)")
    (auto simp: frag_of_def frag_extra_def write_extra_def split: sum.splits if_splits)

lemma write_frags_bound:
  "list_all (\<lambda>f. length (fr_chunk f) \<le> nd_aio_buffer_size d \<and> length (frag_extra f) \<le> length (fr_chunk f))
     (write_frags lib d off xs)"
  using frag_of_extra_le by (auto simp: write_frags_def list_all_iff frag_of_def dest!: tile_pieces)

subsection \<open>The whole call\<close>

definition write_length :: "nfc_disk \<Rightarrow> int \<Rightarrow> nat" where
  "write_length d num = nat num * nd_sector_size d"

definition sector_offset :: "nfc_disk \<Rightarrow> int \<Rightarrow> int" where
  "sector_offset d start = start * int (nd_sector_size d)"

definition bump :: "nfc_disk \<Rightarrow> nfc_disk" where
  "bump d = d\<lparr>nd_op_id := nd_op_id d + 1\<rparr>"

lemma bump_fields [simp]:
  "nd_handle (bump d) = nd_handle d" "nd_aio_buffer_size (bump d) = nd_aio_buffer_size d"
  "nd_sector_size (bump d) = nd_sector_size d" "nd_compression (bump d) = nd_compression d"
  "nd_op_id (bump d) = nd_op_id d + 1" "nd_closed (bump d) = nd_closed d" "nd_sock (bump d) = nd_sock d"
  by (simp_all add: bump_def)

lemma write_frags_bump [simp]: "write_frags lib (bump d) off xs = write_frags lib d off xs"
  by (simp add: write_frags_def frag_of_def write_extra_def)

lemma write_fits_bump [simp]: "write_fits (bump d) op offset n = write_fits d op offset n"
  by (simp add: write_fits_def)

lemma disk_write_cases:
  assumes "0 < nd_aio_buffer_size d"
  obtains (refused) e where "disk_write lib start num data (d, s) = Some (Inl (ValueError e), d, s)"
      "num < 1 \<or> length data \<noteq> write_length d num"
  | (broken) e s1 where "1 \<le> num" "length data = write_length d num"
      "write_loop lib (bump d) (nd_op_id d) (sector_offset d start) data 0 s = Some (Inl e, s1)"
      "disk_write lib start num data (d, s) = Some (Inl e, bump d, s1)"
  | (sent) s1 r s2 where "1 \<le> num" "length data = write_length d num"
      "write_loop lib (bump d) (nd_op_id d) (sector_offset d start) data 0 s = Some (Inr (), s1)"
      "write_reply (nd_op_id d) s1 = (r, s2)"
      "disk_write lib start num data (d, s) = Some (r, bump d, s2)"
proof (cases "num < 1 \<or> length data \<noteq> write_length d num")
  case True
  then show thesis
    using refused [of "if num < 1 then Text ''num_sectors must be at least 1''
        else WriteDataSize (length data) (write_length d num)"]
    by (auto simp: disk_write_def write_length_def)
next
  case False
  have "0 < nd_aio_buffer_size (bump d)" using assms by simp
  then obtain r s1 where l:
    "write_loop lib (bump d) (nd_op_id d) (sector_offset d start) data 0 s = Some (r, s1)"
    using write_loop_total by (metis surj_pair)
  obtain r2 s2 where w: "write_reply (nd_op_id d) s1 = (r2, s2)" by (cases "write_reply (nd_op_id d) s1")
  have run: "disk_write lib start num data (d, s) =
    (case r of Inl e \<Rightarrow> Some (Inl e, bump d, s1) | Inr _ \<Rightarrow> Some (r2, bump d, s2))"
    using False l w
    by (auto simp: disk_write_def Let_def write_length_def sector_offset_def next_op_id_def bump_def
        split: sum.splits)
  show thesis
  proof (cases r)
    case (Inl e)
    then show thesis using False l run by (intro broken [of e s1]) auto
  next
    case (Inr u)
    then show thesis using False l w run by (intro sent [of s1 r2 s2]) auto
  qed
qed

lemma disk_write_InrE:
  assumes "0 < nd_aio_buffer_size d" and "disk_write lib start num data (d, s) = Some (Inr u, d', s')"
  obtains s1 where "1 \<le> num" "length data = write_length d num"
    "write_loop lib (bump d) (nd_op_id d) (sector_offset d start) data 0 s = Some (Inr (), s1)"
    "write_reply (nd_op_id d) s1 = (Inr u, s')" "d' = bump d"
  by (rule disk_write_cases [OF assms(1), of lib start num data s]) (use assms(2) that in auto)

text \<open>
  C5. A write that returns has stored the data. Whatever the server answered and whatever the
  segments, when \<open>write\<close> returns normally the bytes it sent are fragments that tile the data in
  order, all with the one \<open>opId\<close> of the call, none with more than the AIO buffer size of data and
  none with an extra longer than its data; and the reference server that decodes them ends with the
  data at the byte offset of the start sector and everything else untouched.
\<close>

theorem write_stores_data:
  assumes "disk_wf d" and "pyfastlz_ok lib"
    and "disk_write lib start num data (d, s) = Some (Inr u, d', s')"
    and "nat (sector_offset d start) + length data \<le> length img"
  shows "d' = d\<lparr>nd_op_id := nd_op_id d + 1\<rparr> \<and>
    (\<exists>fs. tx s' = tx s @ concat (map (write_frame (nd_handle d) (nd_op_id d)
             (nat (sector_offset d start)) (length data)) fs) \<and>
       concat (map fr_chunk fs) = data \<and>
       list_all (\<lambda>f. length (fr_chunk f) \<le> nd_aio_buffer_size d \<and>
          length (frag_extra f) \<le> length (fr_chunk f)) fs \<and>
       serve_writes lib (nd_handle d) (nd_op_id d) img
         (concat (map (write_frame (nd_handle d) (nd_op_id d) (nat (sector_offset d start)) (length data)) fs))
       = Some (buf_assign img (nat (sector_offset d start)) data))"
proof -
  let ?o = "sector_offset d start" and ?fs = "write_frags lib d 0 data"
  have b: "0 < nd_aio_buffer_size d" "0 < nd_aio_buffer_size (bump d)" and ss: "0 < nd_sector_size d"
    using assms(1) by (auto simp: disk_wf_def)
  from disk_write_InrE [OF b(1) assms(3)] obtain s1 where
    l: "write_loop lib (bump d) (nd_op_id d) ?o data 0 s = Some (Inr (), s1)"
    and w: "write_reply (nd_op_id d) s1 = (Inr u, s')" and d': "d' = bump d"
    and n: "1 \<le> num" "length data = write_length d num" .
  have pos: "0 < length data" using n ss by (simp add: write_length_def)
  have tx: "tx s1 = tx s @ concat (map (write_frame (nd_handle d) (nd_op_id d) (nat ?o) (length data)) ?fs)"
    and fits: "write_fits d (nd_op_id d) ?o (length data)"
    using write_loop_Inr [OF b(2) l] pos by auto
  have "tx s' = tx s1" using keepsD [OF rx_pre.frame_write_reply w] by (simp add: rx_only_iff)
  moreover have "int (nat ?o) = ?o" using fits by (simp add: write_fits_def)
  then have "serve_writes lib (nd_handle d) (nd_op_id d) img
      (concat (map (write_frame (nd_handle d) (nd_op_id d) (nat ?o) (length data)) ?fs))
    = Some (buf_assign img (nat ?o) data)"
    using serve_write_frags [OF assms(2) b(1), of "nd_op_id d" "nat ?o" data img 0] fits assms(4) by simp
  ultimately show ?thesis
    using tx d' write_frags_concat [OF b(1), of lib 0 data] write_frags_bound [of d lib 0 data]
    by (intro conjI exI [of _ ?fs]) (simp_all add: bump_def)
qed

definition demo_wdisk :: nfc_disk where
  "demo_wdisk = demo_disk\<lparr>nd_sector_size := 16, nd_aio_buffer_size := 16\<rparr>"

definition demo_data :: "byte list" where
  "demo_data = replicate 16 0 @ replicate 16 7"

definition demo_write_sock :: sock where
  "demo_write_sock = demo_sock [Data (aio_hdr 7 3 5), Data [1, 2, 3, 9]]"

lemma demo_wdisk_wf: "disk_wf demo_wdisk"
  by (simp add: disk_wf_def demo_wdisk_def demo_disk_def)

text \<open>Two fragments, the first compressed and the second not.\<close>

theorem write_stores_data_witness:
  "\<exists>d' s' wire. disk_write zero_run_lz 1 2 demo_data (demo_wdisk, demo_write_sock) = Some (Inr (), d', s') \<and>
     tx s' = wire \<and> length wire = 137 \<and>
     serve_writes zero_run_lz 77 5 (replicate 49 1) wire = Some (replicate 16 1 @ demo_data @ [1])"
proof -
  let ?run = "disk_write zero_run_lz 1 2 demo_data (demo_wdisk, demo_write_sock)"
  have "map_option fst ?run = Some (Inr ())" by code_simp
  then obtain d' s' where run: "?run = Some (Inr (), d', s')" by auto
  have len: "nat (sector_offset demo_wdisk 1) + length demo_data \<le> length (replicate 49 (1 :: byte))"
    by code_simp
  have "map_option (length o tx o snd o snd) ?run = Some 137" by code_simp
  then have l: "length (tx s') = 137" unfolding run by simp
  have f: "nd_handle demo_wdisk = 77" "nd_op_id demo_wdisk = 5" "tx demo_write_sock = []"
    "buf_assign (replicate 49 1) (nat (sector_offset demo_wdisk 1)) demo_data = replicate 16 1 @ demo_data @ [1]"
    by code_simp+
  show ?thesis
    using write_stores_data [OF demo_wdisk_wf zero_run_lz_ok run len] run l f by auto
qed

text \<open>
  C21. \<open>write\<close> returns. On every disk that can be opened, for any library, any socket and any
  arguments the loop ends, an exception or not; the object keeps every field but the \<open>opId\<close> counter,
  and a call whose arguments are refused sends nothing and spends no \<open>opId\<close>.
\<close>

theorem write_returns:
  "disk_wf d \<Longrightarrow> \<exists>r d' s'. disk_write lib start num data (d, s) = Some (r, d', s') \<and>
     (if num < 1 \<or> length data \<noteq> write_length d num
      then (\<exists>e. r = Inl (ValueError e)) \<and> d' = d \<and> s' = s
      else d' = d\<lparr>nd_op_id := nd_op_id d + 1\<rparr>)"
proof -
  assume "disk_wf d"
  then have b: "0 < nd_aio_buffer_size d" by (simp add: disk_wf_def)
  show ?thesis
    by (rule disk_write_cases [OF b, of lib start num data s]) (auto simp: bump_def)
qed

theorem write_returns_witness:
  "\<exists>r d' s'. disk_write zero_run_lz 1 2 [1, 2, 3] (demo_wdisk, demo_write_sock) = Some (r, d', s') \<and>
     (\<exists>e. r = Inl (ValueError e)) \<and> d' = demo_wdisk \<and> s' = demo_write_sock"
proof -
  have "write_length demo_wdisk 2 = 32" by code_simp
  then show ?thesis
    using write_returns [OF demo_wdisk_wf, of zero_run_lz 1 2 "[1, 2, 3]" demo_write_sock] by simp
qed

lemma write_wire_bump [simp]: "write_wire lib (bump d) op offset data off = write_wire lib d op offset data off"
  by (simp add: write_wire_def)

lemma disk_write_sent:
  assumes "disk_wf d" and "lz_compresses lib" and "1 \<le> num" and "length data = write_length d num"
    and "write_fits d (nd_op_id d) (sector_offset d start) (length data)"
    and "is_open s" and "room s = None"
  shows "disk_write lib start num data (d, s) =
    (case write_reply (nd_op_id d)
        (s\<lparr>tx := tx s @ write_wire lib d (nd_op_id d) (nat (sector_offset d start)) data 0\<rparr>) of
       (r, s2) \<Rightarrow> Some (r, d\<lparr>nd_op_id := nd_op_id d + 1\<rparr>, s2))"
proof -
  have b: "0 < nd_aio_buffer_size d" "0 < nd_aio_buffer_size (bump d)"
    using assms(1) by (auto simp: disk_wf_def)
  have l: "write_loop lib (bump d) (nd_op_id d) (sector_offset d start) data 0 s =
      Some (Inr (), s\<lparr>tx := tx s @ write_wire lib d (nd_op_id d) (nat (sector_offset d start)) data 0\<rparr>)"
    using write_loop_ok [OF b(2) _ assms(2,6,7), of "nd_op_id d" "sector_offset d start" data 0] assms(5) by simp
  show ?thesis
    by (rule disk_write_cases [OF b(1), of lib start num data s]) (use assms(3,4) l in \<open>auto simp: bump_def\<close>)
qed

lemma disk_write_ok:
  assumes "disk_wf d" and "lz_compresses lib" and "1 \<le> num" and "length data = write_length d num"
    and "write_fits d (nd_op_id d) (sector_offset d start) (length data)"
    and "is_open s" and "room s = None"
    and "avail (rx s) = aio_msg NFC_AIO_MSG_IO (nd_op_id d) body @ rest" and "u32 (length body)"
  shows "disk_write lib start num data (d, s) = Some (Inr (), d\<lparr>nd_op_id := nd_op_id d + 1\<rparr>,
    s\<lparr>rx := consume (16 + length body) (rx s),
      tx := tx s @ write_wire lib d (nd_op_id d) (nat (sector_offset d start)) data 0\<rparr>)"
proof -
  let ?s1 = "s\<lparr>tx := tx s @ write_wire lib d (nd_op_id d) (nat (sector_offset d start)) data 0\<rparr>"
  have "u32 (nd_op_id d)" using assms(5) by (simp add: write_fits_def)
  then have "aio_recv_reply ?s1 = (Inr (7, nd_op_id d, body), ?s1\<lparr>rx := consume (16 + length body) (rx s)\<rparr>)"
    using aio_recv_reply_msg [of ?s1 7 "nd_op_id d" body rest] assms(6,8,9) by (simp add: u32_def)
  then show ?thesis using disk_write_sent [OF assms(1-7)] by (simp add: write_reply_def raise_if_def)
qed

text \<open>
  C22. A write that the server acknowledges succeeds. When the offset, the length and the \<open>opId\<close> fit
  their fields, the connection takes the fragments and the server answers with a message of type 7
  with the same \<open>opId\<close>, \<open>write\<close> returns normally, and the stream stands after that message.
\<close>

theorem write_succeeds:
  assumes "disk_wf d" and "lz_compresses lib" and "1 \<le> num" and "length data = write_length d num"
    and "write_fits d (nd_op_id d) (sector_offset d start) (length data)"
    and "is_open s" and "room s = None"
    and "avail (rx s) = aio_msg NFC_AIO_MSG_IO (nd_op_id d) body @ rest" and "u32 (length body)"
  shows "\<exists>s'. disk_write lib start num data (d, s) = Some (Inr (), d\<lparr>nd_op_id := nd_op_id d + 1\<rparr>, s') \<and>
    tx s' = tx s @ write_wire lib d (nd_op_id d) (nat (sector_offset d start)) data 0 \<and> avail (rx s') = rest"
  using disk_write_ok [OF assms] assms(8) by simp

lemma zero_run_compresses: "lz_compresses zero_run_lz"
  by (simp add: lz_compresses_def compress_def zero_run_lz_def)

theorem write_succeeds_witness:
  "\<exists>s'. disk_write zero_run_lz 1 2 demo_data (demo_wdisk, demo_write_sock) =
     Some (Inr (), demo_wdisk\<lparr>nd_op_id := 6\<rparr>, s') \<and> avail (rx s') = [9]"
proof -
  have "nd_op_id demo_wdisk = 5" "length demo_data = write_length demo_wdisk 2"
    "write_fits demo_wdisk (nd_op_id demo_wdisk) (sector_offset demo_wdisk 1) (length demo_data)"
    "is_open demo_write_sock" "room demo_write_sock = None" "u32 (length ([1, 2, 3] :: byte list))"
    "avail (rx demo_write_sock) = aio_msg 7 5 [1, 2, 3] @ [9]"
    by code_simp+
  then show ?thesis
    using write_succeeds [OF demo_wdisk_wf zero_run_compresses, of 2 demo_data 1 demo_write_sock
        "[1, 2, 3]" "[9]"] by auto
qed

text \<open>
  C23. An error message does not put the session out of step with the server when the server sends
  it in answer to a write: the exception carries the body, and the stream stands at the next message.
\<close>

theorem write_error_in_step:
  assumes "disk_wf d" and "lz_compresses lib" and "1 \<le> num" and "length data = write_length d num"
    and "write_fits d (nd_op_id d) (sector_offset d start) (length data)"
    and "is_open s" and "room s = None"
    and "avail (rx s) = aio_msg NFC_AIO_MSG_ERROR op body @ rest" and "u32 op" and "u32 (length body)"
  shows "\<exists>s'. disk_write lib start num data (d, s) =
      Some (Inl (NfcProtocolError (AioErrorBody op (length body) body)), d\<lparr>nd_op_id := nd_op_id d + 1\<rparr>, s') \<and>
    avail (rx s') = rest"
proof -
  let ?s1 = "s\<lparr>tx := tx s @ write_wire lib d (nd_op_id d) (nat (sector_offset d start)) data 0\<rparr>"
  have "write_reply (nd_op_id d) ?s1 =
      (Inl (NfcProtocolError (AioErrorBody op (length body) body)), ?s1\<lparr>rx := consume (16 + length body) (rx s)\<rparr>)"
    using aio_recv_reply_msg [of ?s1 1 op body rest] assms(6,8-10) by (simp add: write_reply_def u32_def)
  then show ?thesis using disk_write_sent [OF assms(1-7)] assms(8) by simp
qed

theorem write_error_in_step_witness:
  "\<exists>s'. disk_write zero_run_lz 1 2 demo_data (demo_wdisk, demo_sock [Data (aio_msg 1 5 [4]), Data [9]]) =
     Some (Inl (NfcProtocolError (AioErrorBody 5 1 [4])), demo_wdisk\<lparr>nd_op_id := 6\<rparr>, s') \<and> avail (rx s') = [9]"
proof -
  let ?s = "demo_sock [Data (aio_msg 1 5 [4]), Data [9]]"
  have "nd_op_id demo_wdisk = 5" "length demo_data = write_length demo_wdisk 2"
    "write_fits demo_wdisk (nd_op_id demo_wdisk) (sector_offset demo_wdisk 1) (length demo_data)"
    "is_open ?s" "room ?s = None" "u32 (length ([4] :: byte list))" "u32 5"
    "avail (rx ?s) = aio_msg 1 5 [4] @ [9]"
    by code_simp+
  then show ?thesis
    using write_error_in_step [OF demo_wdisk_wf zero_run_compresses, of 2 demo_data 1 ?s 5
        "[4]" "[9]"] by simp
qed

end
