(* ===== verification/NfcSession.thy ===== *)
theory NfcSession
  imports NfcWrite
begin

text \<open>
  \<open>NfcDisk.close\<close> and the life of a disk object.

  \<open>close_handshake\<close> and \<open>close_releases\<close> say what closing sends and that it always releases the
  socket. The step relation \<open>session_step\<close> has a rule per public method of \<open>NfcDisk\<close> and one for the
  peer, who may deliver anything and break the connection at any time; its invariant is proved by
  rule induction. \<open>read_error_out_of_step\<close> shows what an error reply to a read leaves in the stream.
\<close>

subsection \<open>What the methods keep\<close>

text \<open>
  The relation between the states before and after any part of a method: the object keeps its
  parameters, the \<open>opId\<close> never goes back, and the socket evolves as a socket does.
\<close>

definition disk_evolves :: "dstate \<Rightarrow> dstate \<Rightarrow> bool" where
  "disk_evolves st st' \<longleftrightarrow>
     (\<exists>k. fst st' = (fst st)\<lparr>nd_op_id := nd_op_id (fst st) + k\<rparr>) \<and> sock_evolves (snd st) (snd st')"

lemma rx_only_evolves: "rx_only s s' \<Longrightarrow> sock_evolves s s'"
  by (auto simp: rx_only_iff sock_evolves_def)

interpretation disk_pre: disk_frame sock_evolves disk_evolves
proof unfold_locales
  show "disk_evolves st st" for st
    by (auto simp: disk_evolves_def sock_pre.refl_R intro: exI [of _ 0])
  show "disk_evolves st st''" if "disk_evolves st st'" "disk_evolves st' st''" for st st' st''
    using that by (auto simp: disk_evolves_def add.assoc intro: sock_pre.trans_R)
  show "disk_evolves (d, s) (d, s')" if "sock_evolves s s'" for d s s'
    using that by (auto simp: disk_evolves_def intro: exI [of _ 0])
  show "disk_evolves (d, s) (d\<lparr>nd_op_id := nd_op_id d + 1\<rparr>, s)" for d s
    by (auto simp: disk_evolves_def sock_pre.refl_R intro: exI [of _ 1])
qed

subsection \<open>One request and its reply\<close>

lemma aio_roundtrip_ok:
  assumes "is_open s" and "room s = None" and "avail (rx s) = aio_msg t (nd_op_id d) body @ rest"
    and "u32 t" and "t \<noteq> NFC_AIO_MSG_ERROR" and "u32 (nd_op_id d)" and "u32 (length body)" and "u32 (length payload)"
  shows "aio_roundtrip t payload extra 0 (d, s) =
    (Inr body, bump d, s\<lparr>tx := tx s @ aio_msg t (nd_op_id d) payload @ extra,
                        rx := consume (16 + length body) (rx s)\<rparr>)"
proof -
  let ?s1 = "s\<lparr>tx := tx s @ aio_msg t (nd_op_id d) payload @ extra\<rparr>"
  have "aio_send t payload extra (d, s) = (Inr (nd_op_id d), bump d, ?s1)"
    using assms by (simp add: aio_send_def next_op_id_def pack_aio_hdr_ok on_snd_def aio_msg_def bump_def)
  moreover have "aio_recv_reply ?s1 = (Inr (t, nd_op_id d, body), ?s1\<lparr>rx := consume (16 + length body) (rx s)\<rparr>)"
    using aio_recv_reply_msg [of ?s1 t "nd_op_id d" body rest] assms by simp
  ultimately show ?thesis by (simp add: aio_roundtrip_def on_snd_def)
qed

subsection \<open>Closing\<close>

definition closing_messages :: "(dstate, unit) io" where
  "closing_messages = (\<lambda>(d, s).
     bind_io (lift (struct_pack [FQ] [int (nd_handle d)])) (\<lambda>p.
     then_io (aio_roundtrip NFC_AIO_MSG_CLOSE_FILE p [] 0)
     (bind_io (lift (struct_pack [FI] [0])) (\<lambda>q.
      then_io (aio_roundtrip NFC_AIO_MSG_CLOSE_SESSION q [] 0)
      (on_snd (send_nfc_msg NFC_MSG_SESSION_COMPLETE []))))) (d, s))"

lemma disk_close_alt:
  "disk_close (d, s) = (if nd_closed d then (Inr (), d, s)
     else try_finally closing_messages (on_snd (ignore_OSError sock_close)) (d\<lparr>nd_closed := True\<rparr>, s))"
  by (simp add: disk_close_def closing_messages_def try_finally_def)

lemma keeps_closing_messages: "keeps disk_evolves closing_messages"
  unfolding keeps_def
proof
  fix st :: dstate obtain d s where st: "st = (d, s)" by (cases st)
  let ?m = "bind_io (lift (struct_pack [FQ] [int (nd_handle d)])) (\<lambda>p.
     then_io (aio_roundtrip NFC_AIO_MSG_CLOSE_FILE p [] 0)
     (bind_io (lift (struct_pack [FI] [0])) (\<lambda>q.
      then_io (aio_roundtrip NFC_AIO_MSG_CLOSE_SESSION q [] 0)
      (on_snd (send_nfc_msg NFC_MSG_SESSION_COMPLETE [])))))"
  have "keeps disk_evolves ?m"
    by (intro disk_pre.dk.keeps_intros disk_pre.frame_aio_roundtrip disk_pre.frame_on_snd sock_pre.frame_send_nfc_msg)
  then show "disk_evolves st (snd (closing_messages st))"
    unfolding st closing_messages_def keeps_def by (simp del: struct_pack.simps)
qed

lemma keeps_ignore_close: "keeps sock_evolves (ignore_OSError sock_close)"
  by (intro sock_pre.keeps_intros keeps_sock_close)

lemma ignore_close_closes [simp]: "\<not> is_open (snd (ignore_OSError sock_close s))"
  by (auto simp: ignore_OSError_def catch_io_def sock_close_def split: option.splits)

lemma disk_close_state:
  assumes "disk_close (d, s) = (r, d', s')" and "\<not> nd_closed d"
  shows "\<not> is_open s' \<and> disk_evolves (d\<lparr>nd_closed := True\<rparr>, s) (d', s')"
proof -
  let ?st = "(d\<lparr>nd_closed := True\<rparr>, s)"
  have st: "(d', s') = snd (on_snd (ignore_OSError sock_close) (snd (closing_messages ?st)))"
    using assms by (simp add: disk_close_alt flip: snd_try_finally)
  have "keeps disk_evolves (try_finally closing_messages (on_snd (ignore_OSError sock_close)))"
    by (intro disk_pre.dk.keeps_intros keeps_closing_messages disk_pre.frame_on_snd keeps_ignore_close)
  moreover have "try_finally closing_messages (on_snd (ignore_OSError sock_close)) ?st = (r, d', s')"
    using assms by (simp add: disk_close_alt)
  ultimately have "disk_evolves ?st (d', s')" by (rule keepsD)
  moreover obtain d1 s1 where "snd (closing_messages ?st) = (d1, s1)" by (cases "snd (closing_messages ?st)")
  ultimately show ?thesis using st by (simp add: on_snd_app)
qed

text \<open>A disk object that is closed has closed its socket.\<close>

definition conn_inv :: "dstate \<Rightarrow> bool" where
  "conn_inv st \<longleftrightarrow> disk_wf (fst st) \<and> (nd_closed (fst st) \<longrightarrow> \<not> is_open (snd st))"

text \<open>
  C25. Closing always releases the socket. However the exchange with the server ends, after \<open>close\<close>
  the object is marked closed and its socket is closed; what is raised, if anything, was raised by
  the exchange or by closing the socket; and closing again returns normally and sends nothing.
\<close>

theorem close_releases:
  "conn_inv (d, s) \<Longrightarrow> disk_close (d, s) = (r, d', s') \<Longrightarrow>
     nd_closed d' \<and> \<not> is_open s' \<and> nd_handle d' = nd_handle d \<and> disk_close (d', s') = (Inr (), d', s')"
  using disk_close_state [of d s r d' s']
  by (cases "nd_closed d") (auto simp: conn_inv_def disk_evolves_def disk_close_alt)

theorem close_releases_witness:
  "\<exists>r d' s'. disk_close (demo_disk, demo_sock [Fault SSLError]) = (r, d', s') \<and> r = Inl SSLError \<and>
     nd_closed d' \<and> \<not> is_open s' \<and> disk_close (d', s') = (Inr (), d', s')"
proof -
  have inv: "conn_inv (demo_disk, demo_sock [Fault SSLError])" by code_simp
  obtain r d' s' where run: "disk_close (demo_disk, demo_sock [Fault SSLError]) = (r, d', s')"
    by (metis prod.collapse)
  have "fst (disk_close (demo_disk, demo_sock [Fault SSLError])) = Inl SSLError" by code_simp
  then show ?thesis using close_releases [OF inv run] run by auto
qed

lemma disk_close_ok:
  assumes "disk_wf d" and "\<not> nd_closed d" and "is_open s" and "room s = None"
    and "close_fault s = None \<or> (\<exists>e. close_fault s = Some (OSError e))" and "u32 (nd_op_id d + 1)"
    and "avail (rx s) = aio_msg NFC_AIO_MSG_CLOSE_FILE (nd_op_id d) b1 @
           aio_msg NFC_AIO_MSG_CLOSE_SESSION (nd_op_id d + 1) b2 @ rest"
    and "u32 (length b1)" and "u32 (length b2)"
  shows "disk_close (d, s) = (Inr (), d\<lparr>nd_closed := True, nd_op_id := nd_op_id d + 2\<rparr>,
    s\<lparr>rx := consume (32 + (length b1 + length b2)) (rx s),
      tx := tx s @ aio_msg NFC_AIO_MSG_CLOSE_FILE (nd_op_id d) (le_bytes 8 (nd_handle d)) @
        aio_msg NFC_AIO_MSG_CLOSE_SESSION (nd_op_id d + 1) (le_bytes 4 0) @ nfc_frame NFC_MSG_SESSION_COMPLETE [],
      is_open := False\<rparr>)"
proof -
  let ?op = "nd_op_id d" and ?d = "d\<lparr>nd_closed := True\<rparr>"
  let ?m1 = "aio_msg 5 ?op (le_bytes 8 (nd_handle d))" and ?m2 = "aio_msg 3 (?op + 1) (le_bytes 4 0)"
  let ?k1 = "16 + length b1" and ?k2 = "16 + length b2"
  let ?s1 = "s\<lparr>tx := tx s @ ?m1, rx := consume ?k1 (rx s)\<rparr>"
  let ?s2 = "s\<lparr>tx := tx s @ ?m1 @ ?m2, rx := consume (?k1 + ?k2) (rx s)\<rparr>"
  let ?s3 = "?s2\<lparr>tx := tx s @ ?m1 @ ?m2 @ nfc_frame 4 []\<rparr>"
  have p: "struct_pack [FQ] [int (nd_handle d)] = Inr (le_bytes 8 (nd_handle d))"
    "struct_pack [FI] [0] = Inr (le_bytes 4 0)"
    using assms(1) by (simp_all add: pack1_def disk_wf_def)
  have r1: "aio_roundtrip 5 (le_bytes 8 (nd_handle d)) [] 0 (?d, s) = (Inr b1, bump ?d, ?s1)"
    using aio_roundtrip_ok [of s 5 ?d b1 _ "le_bytes 8 (nd_handle d)" "[]"] assms by (simp add: u32_def)
  have av1: "avail (rx ?s1) = aio_msg 3 (nd_op_id (bump ?d)) b2 @ rest" using assms(7) by simp
  have r2: "aio_roundtrip 3 (le_bytes 4 0) [] 0 (bump ?d, ?s1) = (Inr b2, bump (bump ?d), ?s2)"
    using aio_roundtrip_ok [OF _ _ av1, of "le_bytes 4 0" "[]"] assms by (simp add: u32_def)
  have r3: "on_snd (send_nfc_msg 4 []) (bump (bump ?d), ?s2) = (Inr (), bump (bump ?d), ?s3)"
    using assms(3,4) by (simp add: on_snd_def send_nfc_msg_alt u32_def)
  have run: "closing_messages (?d, s) = (Inr (), bump (bump ?d), ?s3)"
    unfolding closing_messages_def using p r1 r2 r3 by (simp del: struct_pack.simps)
  have "on_snd (ignore_OSError sock_close) (bump (bump ?d), ?s3) =
      (Inr (), bump (bump ?d), ?s3\<lparr>is_open := False\<rparr>)"
    using assms(3,5) by (auto simp: on_snd_def ignore_OSError_def catch_io_def sock_close_def)
  then show ?thesis using assms(2) run by (simp add: disk_close_alt try_finally_def bump_def)
qed

text \<open>
  The closing exchange. With a server that answers, \<open>close\<close> sends exactly the file close with
  the server's handle, the session close and the classic session-complete message, in this order and
  with two fresh \<open>opId\<close>s, and returns normally with the socket closed.
\<close>

theorem close_handshake:
  assumes "disk_wf d" and "\<not> nd_closed d" and "is_open s" and "room s = None"
    and "close_fault s = None \<or> (\<exists>e. close_fault s = Some (OSError e))" and "u32 (nd_op_id d + 1)"
    and "avail (rx s) = aio_msg NFC_AIO_MSG_CLOSE_FILE (nd_op_id d) b1 @
           aio_msg NFC_AIO_MSG_CLOSE_SESSION (nd_op_id d + 1) b2 @ rest"
    and "u32 (length b1)" and "u32 (length b2)"
  shows "\<exists>s'. disk_close (d, s) = (Inr (), d\<lparr>nd_closed := True, nd_op_id := nd_op_id d + 2\<rparr>, s') \<and>
    tx s' = tx s @ aio_msg NFC_AIO_MSG_CLOSE_FILE (nd_op_id d) (le_bytes 8 (nd_handle d)) @
      aio_msg NFC_AIO_MSG_CLOSE_SESSION (nd_op_id d + 1) (le_bytes 4 0) @ nfc_frame NFC_MSG_SESSION_COMPLETE [] \<and>
    avail (rx s') = rest \<and> \<not> is_open s'"
  using disk_close_ok [OF assms] assms(7) by simp

definition demo_close_sock :: sock where
  "demo_close_sock = demo_sock [Data (aio_msg 5 5 []), Data (aio_msg 3 6 [1]), Data [9]]"

theorem close_handshake_witness:
  "\<exists>s'. disk_close (demo_disk, demo_close_sock) = (Inr (), demo_disk\<lparr>nd_closed := True, nd_op_id := 7\<rparr>, s') \<and>
    tx s' = aio_msg 5 5 (le_bytes 8 77) @ aio_msg 3 6 (le_bytes 4 0) @ nfc_frame 4 [] \<and>
    avail (rx s') = [9] \<and> \<not> is_open s'"
proof -
  have "\<not> nd_closed demo_disk" "is_open demo_close_sock" "room demo_close_sock = None" "nd_op_id demo_disk = 5"
    "close_fault demo_close_sock = None" "u32 6" "u32 0" "u32 1" "nd_handle demo_disk = 77" "tx demo_close_sock = []"
    "avail (rx demo_close_sock) = aio_msg 5 5 [] @ aio_msg 3 6 [1] @ [9]"
    by code_simp+
  then show ?thesis
    using close_handshake [OF demo_disk_wf, of demo_close_sock "[]" "[1]" "[9]"] by simp
qed

subsection \<open>The life of a disk object\<close>

inductive session_step :: "dstate \<Rightarrow> dstate \<Rightarrow> bool" where
  step_peer: "session_step (d, s) (d, s\<lparr>rx := es, room := k\<rparr>)"
| step_readinto: "readinto lib start num skip (st, buf) = (r, st', buf') \<Longrightarrow> session_step st st'"
| step_read: "disk_read lib start num st = (r, st') \<Longrightarrow> session_step st st'"
| step_write: "disk_write lib start num data st = Some (r, st') \<Longrightarrow> session_step st st'"
| step_close: "disk_close st = (r, st') \<Longrightarrow> session_step st st'"

text \<open>
  What every step keeps: the parameters of the object; bytes are only sent under an \<open>opId\<close> that the
  object gives up in the same step; and nothing is sent once it is closed.
\<close>

definition session_le :: "dstate \<Rightarrow> dstate \<Rightarrow> bool" where
  "session_le st st' \<longleftrightarrow>
     (fst st')\<lparr>nd_op_id := nd_op_id (fst st), nd_closed := nd_closed (fst st)\<rparr> = fst st \<and>
     nd_op_id (fst st) \<le> nd_op_id (fst st') \<and> (nd_closed (fst st) \<longrightarrow> nd_closed (fst st')) \<and>
     (\<exists>sent. tx (snd st') = tx (snd st) @ sent \<and>
        (sent = [] \<or> nd_op_id (fst st) < nd_op_id (fst st') \<and> \<not> nd_closed (fst st)))"

interpretation session_pre: state_preorder session_le
proof
  fix st show "session_le st st" by (simp add: session_le_def)
next
  fix st st' st'' assume a: "session_le st st'" and b: "session_le st' st''"
  from a obtain u where u: "tx (snd st') = tx (snd st) @ u"
    "u = [] \<or> nd_op_id (fst st) < nd_op_id (fst st') \<and> \<not> nd_closed (fst st)" by (auto simp: session_le_def)
  from b obtain v where v: "tx (snd st'') = tx (snd st') @ v"
    "v = [] \<or> nd_op_id (fst st') < nd_op_id (fst st'') \<and> \<not> nd_closed (fst st')" by (auto simp: session_le_def)
  have le: "nd_op_id (fst st) \<le> nd_op_id (fst st')" "nd_op_id (fst st') \<le> nd_op_id (fst st'')"
    "nd_closed (fst st) \<longrightarrow> nd_closed (fst st')" "nd_closed (fst st') \<longrightarrow> nd_closed (fst st'')"
    using a b by (simp_all add: session_le_def)
  have "(fst st'')\<lparr>nd_op_id := nd_op_id (fst st), nd_closed := nd_closed (fst st)\<rparr> = fst st"
    using a b unfolding session_le_def by (cases "fst st"; cases "fst st'"; cases "fst st''") simp
  moreover have "tx (snd st'') = tx (snd st) @ (u @ v)"
    "u @ v = [] \<or> nd_op_id (fst st) < nd_op_id (fst st'') \<and> \<not> nd_closed (fst st)"
    using u v le by auto
  ultimately show "session_le st st''" using le unfolding session_le_def by auto
qed

lemma evolves_session_le:
  assumes "conn_inv (d, s)" and "sock_evolves s s'" and "d' = bump d \<or> d' = d \<and> tx s' = tx s"
  shows "session_le (d, s) (d', s') \<and> conn_inv (d', s')"
  using assms by (auto simp: session_le_def conn_inv_def sock_evolves_def bump_def disk_wf_def)

lemma readinto_session:
  assumes "conn_inv (d, s)" and "readinto lib start num skip ((d, s), buf) = (r, (d', s'), buf')"
  shows "session_le (d, s) (d', s') \<and> conn_inv (d', s')"
  using assms(2)
proof (cases rule: readinto_cases)
  case early
  then show ?thesis using assms(1) by (intro evolves_session_le) (auto simp: bump_def sock_pre.refl_R)
next
  case (send hdr payload e)
  then show ?thesis
    using keepsD [OF sock_pre.frame_sendall send(3)] by (intro evolves_session_le [OF assms(1)]) (auto simp: bump_def)
next
  case (loop hdr payload s1 rl data')
  let ?n = "read_length d num" and ?data = "take (read_length d num) (pb_bytes buf)"
  have "view_safe (s1, ?data) (s', data')"
    using read_loop_safe [of "(s1, ?data)" ?n lib skip "nd_op_id d" read_init] loop(4,5) by simp
  then have "sock_evolves s1 s'" by (simp add: view_safe_def rx_only_evolves)
  then have "sock_evolves s s'"
    by (rule sock_pre.trans_R [OF keepsD [OF sock_pre.frame_sendall loop(3)]])
  then show ?thesis using loop(1) by (intro evolves_session_le [OF assms(1)]) (auto simp: bump_def)
qed

lemma disk_read_session:
  assumes "conn_inv (d, s)" and "disk_read lib start num (d, s) = (r, d', s')"
  shows "session_le (d, s) (d', s') \<and> conn_inv (d', s')"
proof (cases "num < 1")
  case True
  then show ?thesis using assms by (simp add: disk_read_def session_pre.refl_R)
next
  case False
  let ?buf = "\<lparr>pb_readonly = False, pb_bytes = replicate (read_length d num) 0\<rparr>"
  obtain r0 d1 s1 buf1 where run: "readinto lib start num False ((d, s), ?buf) = (r0, (d1, s1), buf1)"
    by (metis prod.collapse)
  then have "d' = d1" "s' = s1" using assms(2) False by (auto simp: disk_read_def split: sum.splits)
  then show ?thesis using readinto_session [OF assms(1) run] by simp
qed

lemma disk_write_session:
  assumes "conn_inv (d, s)" and "disk_write lib start num data (d, s) = Some (r, d', s')"
  shows "session_le (d, s) (d', s') \<and> conn_inv (d', s')"
proof -
  have b: "0 < nd_aio_buffer_size d" using assms(1) by (simp add: conn_inv_def disk_wf_def)
  then have b': "0 < nd_aio_buffer_size (bump d)" by simp
  show ?thesis
    using b
  proof (cases rule: disk_write_cases [where lib = lib and start = start and num = num and data = data and s = s])
    case (refused e)
    then show ?thesis using assms by (simp add: session_pre.refl_R)
  next
    case (broken e s1)
    then show ?thesis
      using assms(2) sock_pre.write_loop_frame [OF b' broken(3)] by (intro evolves_session_le [OF assms(1)]) auto
  next
    case (sent s1 r1 s2)
    have "sock_evolves s1 s2" using keepsD [OF sock_pre.frame_write_reply sent(4)] .
    then have "sock_evolves s s2" by (rule sock_pre.trans_R [OF sock_pre.write_loop_frame [OF b' sent(3)]])
    then show ?thesis using assms(2) sent(5) by (intro evolves_session_le [OF assms(1)]) auto
  qed
qed

text \<open>The \<open>opId\<close> of a request is spent before anything is sent.\<close>

lemma aio_roundtrip_bumps: "disk_evolves (bump d, s) (snd (aio_roundtrip t p x k (d, s)))"
proof -
  let ?send = "bind_io (lift (pack_aio_hdr t (length p) (nd_op_id d))) (\<lambda>hdr.
     then_io (on_snd (sock_sendall (hdr @ p @ x))) (ret (nd_op_id d)))"
  let ?rest = "\<lambda>op_id. bind_io (on_snd aio_recv_reply) (\<lambda>(rtype, rop, body).
     then_io (raise_if (rtype \<noteq> t \<or> rop \<noteq> op_id) (NfcProtocolError (ReplyMismatch rtype rop t op_id)))
     (if k \<noteq> 0 then bind_io (on_snd (recvn k)) (\<lambda>x. ret (body @ x)) else ret body))"
  have "aio_send t p x (d, s) = ?send (bump d, s)"
    by (simp add: aio_send_def next_op_id_def bump_def)
  then have run: "aio_roundtrip t p x k (d, s) = bind_io ?send ?rest (bump d, s)"
    unfolding aio_roundtrip_def bind_io_def by simp
  have "keeps disk_evolves (bind_io ?send ?rest)"
    unfolding case_prod_beta
    by (intro disk_pre.dk.keeps_intros disk_pre.frame_on_snd sock_pre.frame_sendall sock_pre.frame_aio_recv_reply)
      (auto intro!: disk_pre.dk.keeps_intros disk_pre.frame_on_snd sock_pre.frame_recvn)
  then show ?thesis unfolding run keeps_def by blast
qed

lemma closing_messages_bumps:
  assumes "nd_handle d < 2 ^ 64"
  shows "disk_evolves (bump d, s) (snd (closing_messages (d, s)))"
proof -
  have "struct_pack [FQ] [int (nd_handle d)] = Inr (le_bytes 8 (nd_handle d))"
    using assms by (simp add: pack1_def)
  then have run: "closing_messages (d, s) = bind_io (aio_roundtrip 5 (le_bytes 8 (nd_handle d)) [] 0) (\<lambda>_.
      bind_io (lift (struct_pack [FI] [0])) (\<lambda>q. then_io (aio_roundtrip 3 q [] 0)
        (on_snd (send_nfc_msg 4 [])))) (d, s)"
    by (simp add: closing_messages_def then_io_def del: struct_pack.simps)
  show ?thesis
    unfolding run
    by (intro disk_pre.dk.bind_from aio_roundtrip_bumps disk_pre.dk.keeps_intros disk_pre.frame_aio_roundtrip
        disk_pre.frame_on_snd sock_pre.frame_send_nfc_msg)
qed

lemma disk_close_session:
  assumes "conn_inv (d, s)" and "disk_close (d, s) = (r, d', s')"
  shows "session_le (d, s) (d', s') \<and> conn_inv (d', s')"
proof (cases "nd_closed d")
  case True
  then show ?thesis using assms by (simp add: disk_close_alt session_pre.refl_R)
next
  case False
  let ?d = "d\<lparr>nd_closed := True\<rparr>"
  obtain d1 s1 where c: "snd (closing_messages (?d, s)) = (d1, s1)" by (cases "snd (closing_messages (?d, s))")
  have wf: "disk_wf d" using assms(1) by (simp add: conn_inv_def)
  have "(d', s') = snd (on_snd (ignore_OSError sock_close) (d1, s1))"
    using assms(2) False arg_cong [OF c, of "\<lambda>st. snd (on_snd (ignore_OSError sock_close) st)"]
    by (simp add: disk_close_alt flip: snd_try_finally)
  then have d': "d' = d1" by (simp add: on_snd_app)
  have "disk_evolves (bump ?d, s) (d1, s1)"
    using closing_messages_bumps [of ?d s] c wf by (simp add: disk_wf_def)
  then have op: "nd_op_id d < nd_op_id d'" unfolding d' by (auto simp: disk_evolves_def)
  then show ?thesis
    using disk_close_state [OF assms(2) False] wf False
    by (auto simp: session_le_def conn_inv_def disk_evolves_def sock_evolves_def disk_wf_def)
qed

lemma session_step_keeps:
  assumes "session_step st st'" and "conn_inv st"
  shows "session_le st st' \<and> conn_inv st'"
  using assms
proof (induction rule: session_step.induct)
  case (step_peer d s es k)
  then show ?case by (simp add: session_le_def conn_inv_def)
next
  case (step_readinto lib start num skip st buf r st' buf')
  then show ?case by (metis readinto_session prod.collapse)
next
  case (step_read lib start num st r st')
  then show ?case by (metis disk_read_session prod.collapse)
next
  case (step_write lib start num data st r st')
  then show ?case by (metis disk_write_session prod.collapse)
next
  case (step_close st r st')
  then show ?case by (metis disk_close_session prod.collapse)
qed

lemma session_keeps:
  assumes "session_step\<^sup>*\<^sup>* st st'" and "conn_inv st"
  shows "session_le st st' \<and> conn_inv st'"
  using assms
proof (induction rule: rtranclp_induct)
  case base
  then show ?case by (simp add: session_pre.refl_R)
next
  case (step st1 st2)
  then show ?case using session_step_keeps session_pre.trans_R by blast
qed

text \<open>
  C6. The life of a disk object, over any sequence of its methods with any arguments and any
  interference of the peer, exceptions included. The object stays well formed and keeps its
  parameters; a closed object has a closed socket and stays closed; bytes are sent only while it is
  open, and only in a step that uses up an \<open>opId\<close>, so that the ids of two requests never coincide.
\<close>

theorem session_invariant:
  "session_step\<^sup>*\<^sup>* (d, s) (d', s') \<Longrightarrow> conn_inv (d, s) \<Longrightarrow>
     disk_wf d' \<and> d'\<lparr>nd_op_id := nd_op_id d, nd_closed := nd_closed d\<rparr> = d \<and>
     nd_op_id d \<le> nd_op_id d' \<and> (nd_closed d' \<longrightarrow> \<not> is_open s') \<and>
     (\<exists>sent. tx s' = tx s @ sent \<and> (sent \<noteq> [] \<longrightarrow> nd_op_id d < nd_op_id d' \<and> \<not> nd_closed d))"
  using session_keeps [of "(d, s)" "(d', s')"] by (auto simp: session_le_def conn_inv_def)

theorem session_invariant_witness:
  "\<exists>r d' s'. session_step\<^sup>*\<^sup>* (demo_disk, demo_close_sock) (d', s') \<and> disk_close (demo_disk, demo_close_sock) = (r, d', s') \<and>
     nd_closed d' \<and> \<not> is_open s' \<and> tx s' \<noteq> [] \<and> 5 < nd_op_id d'"
proof -
  let ?run = "disk_close (demo_disk, demo_close_sock)"
  obtain r d' s' where run: "?run = (r, d', s')" by (metis prod.collapse)
  have inv: "conn_inv (demo_disk, demo_close_sock)" by code_simp
  have "nd_closed (fst (snd ?run))" "tx (snd (snd ?run)) \<noteq> []" by code_simp+
  then have c: "nd_closed d'" "tx s' \<noteq> []" unfolding run by simp_all
  have "tx demo_close_sock = []" "nd_op_id demo_disk = 5" by code_simp+
  moreover have steps: "session_step\<^sup>*\<^sup>* (demo_disk, demo_close_sock) (d', s')"
    using session_step.step_close [OF run] by blast
  ultimately show ?thesis
    using session_invariant [OF steps inv] run c by auto
qed

subsection \<open>An error reply to a read\<close>

lemma aio_recv_bad_magic:
  assumes "is_open s" and "16 \<le> length (avail (rx s))" and "le_val (take 4 (avail (rx s))) \<noteq> NFC_AIO_MAGIC"
  shows "aio_recv_reply s = (Inl (NfcProtocolError (MagicMismatch (le_val (take 4 (avail (rx s)))))),
    s\<lparr>rx := consume 16 (rx s)\<rparr>)"
proof -
  have "recvn NFC_AIO_HDR_SIZE s = (Inr (take 16 (avail (rx s))), s\<lparr>rx := consume 16 (rx s)\<rparr>)"
    using assms by simp
  then show ?thesis
    using assms(2,3) by (simp add: aio_recv_reply_def unpack_IIII_le min_def)
qed

lemma close_bad_magic:
  assumes "disk_wf d" and "\<not> nd_closed d" and "u32 (nd_op_id d)"
    and "is_open s" and "room s = None" and "close_fault s = None"
    and "16 \<le> length (avail (rx s))" and "le_val (take 4 (avail (rx s))) \<noteq> NFC_AIO_MAGIC"
  shows "fst (disk_close (d, s)) = Inl (NfcProtocolError (MagicMismatch (le_val (take 4 (avail (rx s))))))"
proof -
  let ?d = "d\<lparr>nd_closed := True\<rparr>" and ?p = "le_bytes 8 (nd_handle d)"
  let ?e = "Inl (NfcProtocolError (MagicMismatch (le_val (take 4 (avail (rx s))))))"
  let ?s1 = "s\<lparr>tx := tx s @ aio_msg 5 (nd_op_id d) ?p\<rparr>"
  have p: "struct_pack [FQ] [int (nd_handle d)] = Inr ?p"
    using assms(1) by (simp add: pack1_def disk_wf_def)
  have "aio_send 5 ?p [] (?d, s) = (Inr (nd_op_id d), bump ?d, ?s1)"
    using assms(3-5) by (simp add: aio_send_def next_op_id_def pack_aio_hdr_ok on_snd_def aio_msg_def bump_def u32_def)
  then have "aio_roundtrip 5 ?p [] 0 (?d, s) = (?e, bump ?d, ?s1\<lparr>rx := consume 16 (rx s)\<rparr>)"
    using aio_recv_bad_magic [of ?s1] assms(4,7,8) by (simp add: aio_roundtrip_def on_snd_def)
  then have "closing_messages (?d, s) = (?e, bump ?d, ?s1\<lparr>rx := consume 16 (rx s)\<rparr>)"
    using p by (simp add: closing_messages_def del: struct_pack.simps)
  then show ?thesis
    using assms(2,6)
    by (simp add: disk_close_alt try_finally_def on_snd_def ignore_OSError_def catch_io_def sock_close_def)
qed

text \<open>
  C24. An error message in answer to a read puts the session out of step. \<open>readinto\<close> raises from
  \<open>_unpack_aio_hdr\<close> before it has read the body of the message, so that the body is still in the
  stream: the next reply that is read starts in the middle of it. Closing the disk after such an
  error therefore raises a magic mismatch, although the server answers correctly.
\<close>

theorem read_error_out_of_step:
  assumes "disk_wf d" and "1 \<le> num" and "\<not> pb_readonly buf" and "read_length d num \<le> length (pb_bytes buf)"
    and "read_in_range d start num" and "u32 (nd_op_id d + 1)" and "\<not> nd_closed d"
    and "is_open s" and "room s = None" and "close_fault s = None"
    and "avail (rx s) = aio_msg NFC_AIO_MSG_ERROR op body @ rest" and "u32 op" and "u32 (length body)"
    and "16 \<le> length body" and "le_val (take 4 body) \<noteq> NFC_AIO_MAGIC"
  shows "\<exists>s'. readinto lib start num skip ((d, s), buf) =
      (Inl (NfcProtocolError (AioError op (length body))), (d\<lparr>nd_op_id := nd_op_id d + 1\<rparr>, s'), buf) \<and>
    avail (rx s') = body @ rest \<and>
    fst (disk_close (d\<lparr>nd_op_id := nd_op_id d + 1\<rparr>, s')) =
      Inl (NfcProtocolError (MagicMismatch (le_val (take 4 body))))"
proof -
  let ?n = "read_length d num" and ?e = "Inl (NfcProtocolError (AioError op (length body)))"
  let ?s1 = "s\<lparr>tx := tx s @ aio_hdr NFC_AIO_MSG_IO 44 (nd_op_id d) @ read_request d start num\<rparr>"
  let ?s2 = "?s1\<lparr>rx := consume 16 (rx s)\<rparr>" and ?data = "take ?n (pb_bytes buf)"
  have av: "avail (rx s) = aio_hdr 1 (length body) op @ body @ rest" using assms(11) by (simp add: aio_msg_def)
  have "recvn NFC_AIO_HDR_SIZE ?s1 = (Inr (aio_hdr 1 (length body) op), ?s2)" using assms(8) av by simp
  moreover have "unpack_aio_hdr (aio_hdr 1 (length body) op) = ?e"
    using unpack_IIII_aio_hdr [of 1 "length body" op "[]"] assms(12,13) by (simp add: unpack_aio_hdr_def u32_def)
  ultimately have "read_io_reply ?n (nd_op_id d) seen ?s1 = (?e, ?s2)" for seen
    by (simp add: read_io_reply_def)
  then have "read_step lib ?n skip (nd_op_id d) read_init (?s1, ?data) = (?e, ?s2, ?data)"
    by (simp add: read_step_def on_fst_def)
  moreover have "0 < ?n" using assms(1,2) by (simp add: disk_wf_def read_length_def)
  ultimately have "read_loop lib ?n skip (nd_op_id d) read_init (?s1, ?data) = (?e, ?s2, ?data)"
    by (simp add: read_loop.simps read_init_def)
  then have run: "readinto lib start num skip ((d, s), buf) =
      (?e, (d\<lparr>nd_op_id := nd_op_id d + 1\<rparr>, ?s2), buf)"
    using readinto_prefix [OF assms(1-5) _ assms(8,9), of lib skip] assms(6) by (simp add: u32_def)
  have "avail (rx ?s2) = body @ rest" using av by simp
  moreover have "disk_wf (d\<lparr>nd_op_id := nd_op_id d + 1\<rparr>)" using assms(1) by (simp add: disk_wf_def)
  ultimately have "fst (disk_close (d\<lparr>nd_op_id := nd_op_id d + 1\<rparr>, ?s2)) =
      Inl (NfcProtocolError (MagicMismatch (le_val (take 4 body))))"
    using close_bad_magic [of "d\<lparr>nd_op_id := nd_op_id d + 1\<rparr>" ?s2] assms by simp
  then show ?thesis using run \<open>avail (rx ?s2) = body @ rest\<close> by blast
qed

definition demo_error_sock :: sock where
  "demo_error_sock = demo_sock [Data (aio_msg 1 5 (replicate 16 0)),
     Data (aio_msg 5 6 []), Data (aio_msg 3 7 [])]"

theorem read_error_out_of_step_witness:
  "\<exists>s'. readinto zero_run_lz 3 2 False ((demo_disk, demo_error_sock), demo_buf) =
      (Inl (NfcProtocolError (AioError 5 16)), (demo_disk\<lparr>nd_op_id := 6\<rparr>, s'), demo_buf) \<and>
    avail (rx s') = replicate 16 0 @ aio_msg 5 6 [] @ aio_msg 3 7 [] \<and>
    fst (disk_close (demo_disk\<lparr>nd_op_id := 6\<rparr>, s')) = Inl (NfcProtocolError (MagicMismatch 0))"
proof -
  have "read_in_range demo_disk 3 2" "read_length demo_disk 2 = 4" "nd_op_id demo_disk = 5" "u32 5" "u32 6"
    "\<not> nd_closed demo_disk" "\<not> pb_readonly demo_buf" "length (pb_bytes demo_buf) = 5"
    "is_open demo_error_sock" "room demo_error_sock = None" "close_fault demo_error_sock = None" "u32 16"
    "avail (rx demo_error_sock) = aio_msg 1 5 (replicate 16 0) @ aio_msg 5 6 [] @ aio_msg 3 7 []"
    "le_val (take 4 (replicate 16 0)) = 0"
    by code_simp+
  then show ?thesis
    using read_error_out_of_step [OF demo_disk_wf, of 2 demo_buf 3 demo_error_sock 5 "replicate 16 0"
        "aio_msg 5 6 [] @ aio_msg 3 7 []" zero_run_lz False] by simp
qed

subsection \<open>The range of the operation number\<close>

lemma aio_roundtrip_no_op: "\<not> u32 (nd_op_id d) \<Longrightarrow> aio_roundtrip t p x k (d, s) = (Inl StructError, bump d, s)"
  by (cases "pack_aio_hdr t (length p) (nd_op_id d)")
    (auto simp: aio_roundtrip_def aio_send_def next_op_id_def bump_def pack_aio_hdr_Inr_iff pack_aio_hdr_Inl_iff)

lemma write_frag_no_op: "\<not> u32 op \<Longrightarrow> \<exists>e. write_frag lib d op offset n off chunk s = (Inl e, s)"
  by (cases "write_extra lib d chunk")
    (auto simp: write_frag_def bind_io_def lift_def pack_aio_hdr_def u32_def pack1_def split: sum.splits prod.splits)

text \<open>
  C33. Operation numbers never wrap. Once \<open>2 ^ 32\<close> of them are spent, every read and every write raises, and
  sends nothing and changes nothing of the buffer, instead of sending a request under a number that was
  used before; and \<open>close\<close> still releases the socket, but sends nothing either and raises.
\<close>

theorem op_id_exhausted:
  assumes "disk_wf d" and "\<not> nd_closed d" and "\<not> u32 (nd_op_id d)"
    and "readinto lib start num skip ((d, s), buf) = (r1, (d1, s1), buf1)"
    and "disk_write lib start num data (d, s) = Some (r2, d2, s2)" and "disk_close (d, s) = (r3, d3, s3)"
  shows "(\<exists>e. r1 = Inl e) \<and> s1 = s \<and> buf1 = buf \<and> (\<exists>e. r2 = Inl e) \<and> s2 = s \<and>
    (\<exists>e. r3 = Inl e) \<and> tx s3 = tx s \<and> nd_closed d3 \<and> \<not> is_open s3"
proof -
  have read: "(\<exists>e. r1 = Inl e) \<and> s1 = s \<and> buf1 = buf"
    using assms(4)
    by (cases rule: readinto_cases) (use assms(3) in \<open>auto simp: pack_aio_hdr_Inr_iff\<close>)
  have "0 < nd_aio_buffer_size d" using assms(1) by (simp add: disk_wf_def)
  then have wr: "(\<exists>e. r2 = Inl e) \<and> s2 = s"
  proof (cases rule: disk_write_cases [where lib = lib and start = start and num = num and data = data and s = s])
    case (refused e)
    then show ?thesis using assms(5) by simp
  next
    case (broken e s1)
    then have "0 < length data" using assms(1) by (simp add: write_length_def disk_wf_def)
    then show ?thesis
      using broken(3,4) assms(5) write_frag_no_op [OF assms(3), of lib "bump d" "sector_offset d start" "length data" 0
          "buf_slice data 0 (nd_aio_buffer_size d)" s]
      by (subst (asm) write_loop.simps) (auto simp: Let_def)
  next
    case (sent s1 r s2)
    then have "0 < length data" using assms(1) by (simp add: write_length_def disk_wf_def)
    then show ?thesis
      using sent(3) write_frag_no_op [OF assms(3), of lib "bump d" "sector_offset d start" "length data" 0
          "buf_slice data 0 (nd_aio_buffer_size d)" s]
      by (subst (asm) write_loop.simps) (auto simp: Let_def)
  qed
  let ?d = "d\<lparr>nd_closed := True\<rparr>"
  have "struct_pack [FQ] [int (nd_handle d)] = Inr (le_bytes 8 (nd_handle d))"
    using assms(1) by (simp add: pack1_def disk_wf_def)
  then have "closing_messages (?d, s) = (Inl StructError, bump ?d, s)"
    using aio_roundtrip_no_op [of ?d 5 "le_bytes 8 (nd_handle d)" "[]" 0 s] assms(3)
    by (simp add: closing_messages_def del: struct_pack.simps)
  then have "(\<exists>e. r3 = Inl e) \<and> d3 = bump ?d \<and> s3 = snd (ignore_OSError sock_close s)"
    using assms(2,6)
    by (auto simp: disk_close_alt try_finally_def on_snd_def split: prod.splits sum.splits)
  moreover have "tx (snd (ignore_OSError sock_close s)) = tx s"
    by (auto simp: ignore_OSError_def catch_io_def sock_close_def split: option.split)
  ultimately show ?thesis using read wr by simp
qed

theorem op_id_exhausted_witness:
  "\<exists>r1 d1 buf1 r2 d2 r3 d3 s3. let d = demo_disk\<lparr>nd_op_id := 2 ^ 32\<rparr>; s = demo_sock []; buf = \<lparr>pb_readonly = False, pb_bytes = [1, 2]\<rparr> in
     readinto zero_run_lz 0 1 False ((d, s), buf) = (Inl r1, (d1, s), buf) \<and>
     disk_write zero_run_lz 0 1 [1, 2] (d, s) = Some (Inl r2, d2, s) \<and>
     disk_close (d, s) = (Inl r3, d3, s3) \<and> tx s3 = [] \<and> \<not> is_open s3"
proof -
  let ?d = "demo_disk\<lparr>nd_op_id := 2 ^ 32\<rparr>" and ?s = "demo_sock []" and ?buf = "\<lparr>pb_readonly = False, pb_bytes = [1, 2]\<rparr>"
  obtain r1 d1 s1 buf1 where 1: "readinto zero_run_lz 0 1 False ((?d, ?s), ?buf) = (r1, (d1, s1), buf1)" by (metis prod.collapse)
  have d: "disk_wf ?d" "\<not> nd_closed ?d" "\<not> u32 (nd_op_id ?d)" "0 < nd_aio_buffer_size ?d" "tx ?s = []"
    by (simp_all add: disk_wf_def demo_disk_def u32_def demo_sock_def)
  obtain r2 d2 s2 where 2: "disk_write zero_run_lz 0 1 [1, 2] (?d, ?s) = Some (r2, d2, s2)"
    by (rule disk_write_cases [OF d(4)]) auto
  obtain r3 d3 s3 where 3: "disk_close (?d, ?s) = (r3, d3, s3)" by (metis prod.collapse)
  obtain e1 e2 e3 where r: "r1 = Inl e1" "s1 = ?s" "buf1 = ?buf" "r2 = Inl e2" "s2 = ?s" "r3 = Inl e3"
    and c: "tx s3 = []" "\<not> is_open s3"
    using op_id_exhausted [OF d(1-3) 1 2 3] d(5) by (elim conjE exE) simp
  show ?thesis using 1 2 3 c unfolding r Let_def by blast
qed

end
