(* ===== verification/World.thy ===== *)
theory World
  imports NfcSession
begin

text \<open>
  The state that the functions of \<open>nfc_auth.py\<close>, \<open>nfc_open.py\<close> and \<open>openvixdisklib.py\<close> share: the socket
  objects of the process, the \<open>NfcDisk\<close> objects, the VIM sessions, and a log of what was dialled,
  negotiated and asked for.

  A socket object is a number; \<open>w_socks\<close> holds its stream. A TCP connection is used in layers (plain
  text, authd TLS, then plain text or a second TLS for NFC), each with a stream of its own. What the
  network does when the program asks for the next layer is the head of \<open>w_script\<close>: it refuses with an
  exception, or accepts with an incoming stream and a certificate. The script is arbitrary, so the
  theorems hold for every peer.

  \<open>deps\<close> is the code outside the repository: pyVmomi, pyVim and \<open>hashlib\<close>. A remote call gets the
  length of the log as its first argument, since its outcome may be another one each time.
\<close>

subsection \<open>TLS contexts\<close>

datatype verify_mode = CERT_NONE | CERT_REQUIRED

record ssl_context =
  check_hostname :: bool
  verify_mode :: verify_mode

definition create_default_context :: ssl_context where
  "create_default_context = \<lparr>check_hostname = True, verify_mode = CERT_REQUIRED\<rparr>"

subsection \<open>Remote objects\<close>

record ticket =
  tk_host :: string
  tk_port :: "nat option"
  tk_service :: "string option"
  tk_session_id :: string
  tk_thumbprint :: "string option"

text \<open>A backing of a virtual disk: its file name, if it has one, and its parent in the delta chain.\<close>

datatype backing = Backing "string option" "backing option"

datatype device = VirtualDisk int "backing option" | OtherDevice int

record vim_login =
  vl_host :: string
  vl_user :: string
  vl_pwd :: string
  vl_port :: nat
  vl_thumbprint :: "string option"
  vl_context :: "ssl_context option"
  vl_no_validation :: bool
  vl_versions :: "string list"

text \<open>The arguments of \<open>CreateManagedType\<close>: a parameter, a method and the type.\<close>

record vmodl_param =
  pm_name :: string
  pm_type :: string
  pm_version :: string
  pm_flags :: nat
  pm_privilege :: "string option"

record vmodl_method =
  me_name :: string
  me_wsdl :: string
  me_version :: string
  me_params :: "vmodl_param list"
  me_result :: "nat \<times> string \<times> string"
  me_privilege :: "string option"
  me_faults :: "string list option"

record managed_type =
  mt_name :: string
  mt_wsdl :: string
  mt_parent :: string
  mt_version :: string
  mt_props :: "string list"
  mt_methods :: "vmodl_method list"

datatype vim_call =
    SmartConnect vim_login
  | Disconnect nat
  | CreateManagedType managed_type
  | GetDevices nat string
  | GetRuntimeHost nat string
  | GetVmFiles nat string
  | RandomAccessOpenReadonly nat string int string
  | RandomAccessOpen nat string int string

record deps =
  d_sha1 :: "byte list \<Rightarrow> byte list"
  d_hash :: "string \<Rightarrow> (byte list \<Rightarrow> byte list) option"
  d_service_versions :: "string \<Rightarrow> string list"
  d_F_OPTIONAL :: nat
  d_has_nfc_type :: bool
  d_create_type :: "managed_type \<Rightarrow> exn option"
  d_connect :: "nat \<Rightarrow> vim_login \<Rightarrow> exn option"
  d_disconnect :: "nat \<Rightarrow> nat \<Rightarrow> exn option"
  d_devices :: "nat \<Rightarrow> nat \<Rightarrow> string \<Rightarrow> exn + device list"
  d_runtime_host :: "nat \<Rightarrow> nat \<Rightarrow> string \<Rightarrow> exn + string"
  d_vm_files :: "nat \<Rightarrow> nat \<Rightarrow> string \<Rightarrow> exn + ticket"
  d_open_readonly :: "nat \<Rightarrow> nat \<Rightarrow> string \<Rightarrow> int \<Rightarrow> string \<Rightarrow> exn + ticket"
  d_open_disk :: "nat \<Rightarrow> nat \<Rightarrow> string \<Rightarrow> int \<Rightarrow> string \<Rightarrow> exn + ticket"

subsection \<open>The process\<close>

datatype net_event = Refuse exn | Accept sock "byte list option"

datatype act = Dial string nat | Hello string ssl_context | Vim vim_call

record world =
  w_socks :: "nat \<Rightarrow> sock option"
  w_cert :: "nat \<Rightarrow> byte list option"
  w_next :: nat
  w_script :: "net_event list"
  w_nodelay :: "nat list"
  w_disks :: "nat \<Rightarrow> nfc_disk option"
  w_sessions :: "nat list"
  w_next_si :: nat
  w_registered :: bool
  w_log :: "act list"

definition log_act :: "act \<Rightarrow> (world, nat) io" where
  "log_act a = (\<lambda>w. (Inr (length (w_log w)), w\<lparr>w_log := w_log w @ [a]\<rparr>))"

text \<open>The next layer of a connection, as a new socket object.\<close>

definition next_layer :: "(world, nat) io" where
  "next_layer = (\<lambda>w. case w_script w of
     [] \<Rightarrow> (Inl TimeoutError, w)
   | Refuse e # es \<Rightarrow> (Inl e, w\<lparr>w_script := es\<rparr>)
   | Accept s cert # es \<Rightarrow>
       (Inr (w_next w),
        w\<lparr>w_script := es, w_next := w_next w + 1,
          w_socks := (w_socks w)(w_next w \<mapsto> s\<lparr>tx := [], is_open := True\<rparr>),
          w_cert := (w_cert w)(w_next w := cert)\<rparr>))"

definition on_sock :: "nat \<Rightarrow> (sock, 'a) io \<Rightarrow> (world, 'a) io" where
  "on_sock fd m = (\<lambda>w. case w_socks w fd of
     None \<Rightarrow> (Inl EBADF, w)
   | Some s \<Rightarrow> (case m s of (r, s') \<Rightarrow> (r, w\<lparr>w_socks := (w_socks w)(fd \<mapsto> s')\<rparr>)))"

definition fd_open :: "world \<Rightarrow> nat \<Rightarrow> bool" where
  "fd_open w fd \<longleftrightarrow> (case w_socks w fd of None \<Rightarrow> False | Some s \<Rightarrow> is_open s)"

definition close_fd :: "nat \<Rightarrow> (world, unit) io" where
  "close_fd fd = on_sock fd sock_close"

text \<open>\<open>sock.detach()\<close>: the object no longer owns a descriptor.\<close>

definition detach :: "nat \<Rightarrow> (world, unit) io" where
  "detach fd = on_sock fd (\<lambda>s. (Inr (), s\<lparr>is_open := False\<rparr>))"

definition check_open :: "nat \<Rightarrow> (world, unit) io" where
  "check_open fd = (\<lambda>w. (if fd_open w fd then Inr () else Inl EBADF, w))"

definition create_connection :: "string \<Rightarrow> nat \<Rightarrow> (world, nat) io" where
  "create_connection host port = then_io (log_act (Dial host port)) next_layer"

text \<open>
  \<open>SSLContext.wrap_socket\<close>: the new \<open>SSLSocket\<close> takes the descriptor over before the handshake, and
  closes it when the handshake fails.
\<close>

definition wrap_socket :: "ssl_context \<Rightarrow> nat \<Rightarrow> string \<Rightarrow> (world, nat) io" where
  "wrap_socket ctx fd server_hostname =
     then_io (check_open fd)
     (then_io (detach fd)
     (then_io (log_act (Hello server_hostname ctx)) next_layer))"

definition getpeercert :: "nat \<Rightarrow> (world, byte list option) io" where
  "getpeercert fd = then_io (check_open fd) (\<lambda>w. (Inr (w_cert w fd), w))"

text \<open>\<open>os.dup(sock.fileno())\<close> wrapped in a socket object.\<close>

definition dup_socket :: "nat \<Rightarrow> (world, nat) io" where
  "dup_socket fd = then_io (check_open fd) next_layer"

text \<open>Run a method of the \<open>NfcDisk\<close> object that owns a socket.\<close>

definition on_disk :: "nat \<Rightarrow> (dstate, 'a) io \<Rightarrow> (world, 'a) io" where
  "on_disk fd m = (\<lambda>w. case (w_disks w fd, w_socks w fd) of
     (Some d, Some s) \<Rightarrow> (case m (d, s) of (r, d', s') \<Rightarrow>
        (r, w\<lparr>w_disks := (w_disks w)(fd \<mapsto> d'), w_socks := (w_socks w)(fd \<mapsto> s')\<rparr>))
   | _ \<Rightarrow> (Inl EBADF, w))"

definition new_disk :: "nfc_disk \<Rightarrow> (world, unit) io" where
  "new_disk d = (\<lambda>w. (Inr (), w\<lparr>w_disks := (w_disks w)(nd_sock d \<mapsto> d)\<rparr>))"

end
