(* ===== verification/NfcAuth.thy ===== *)
theory NfcAuth
  imports World
begin

text \<open>
  \<open>openvixdisklib/nfc_auth.py\<close>: TLS contexts, the registration of \<open>vim.NfcService\<close> with pyVmomi, the VIM
  login, the NFC ticket, certificate thumbprints, the authd handshake, and \<open>NfcAuthSession\<close>.

  Strings are lists of code points below 256. Bytes that do not decode as ASCII become the last of
  them, which stands for the replacement character; the case mapping is that of ASCII.
\<close>

definition NFC_SERVICE_MOID :: string where
  "NFC_SERVICE_MOID = ''nfcService''"

definition AUTHD_DEFAULT_PORT :: nat where
  [simp]: "AUTHD_DEFAULT_PORT = 902"

definition ssl_client_context :: "bool \<Rightarrow> ssl_context" where
  "ssl_client_context verify =
     (let context = create_default_context in
      if \<not> verify then context\<lparr>check_hostname := False, verify_mode := CERT_NONE\<rparr> else context)"

subsection \<open>Strings\<close>

definition starts_with :: "string \<Rightarrow> string \<Rightarrow> bool" where
  "starts_with s p \<longleftrightarrow> take (length p) s = p"

definition ends_with :: "'a list \<Rightarrow> 'a list \<Rightarrow> bool" where
  "ends_with s p \<longleftrightarrow> length p \<le> length s \<and> drop (length s - length p) s = p"

definition rstrip_crlf :: "string \<Rightarrow> string" where
  "rstrip_crlf s = rev (dropWhile (\<lambda>c. c = CHR 0x0D \<or> c = CHR 0x0A) (rev s))"

definition is_space :: "char \<Rightarrow> bool" where
  "is_space c = (let n = (of_char c :: nat) in 9 \<le> n \<and> n \<le> 13 \<or> 28 \<le> n \<and> n \<le> 32 \<or> n = 133 \<or> n = 160)"

definition upper_char :: "char \<Rightarrow> char" where
  "upper_char c = (let n = (of_char c :: nat) in if 97 \<le> n \<and> n \<le> 122 then char_of (n - 32) else c)"

definition crlf :: string where
  "crlf = [CHR 0x0D, CHR 0x0A]"

definition decode_ascii_replace :: "byte list \<Rightarrow> string" where
  "decode_ascii_replace bs = map (\<lambda>b. if unat b < 128 then char_of (unat b) else CHR 0xFF) bs"

text \<open>The truth value of a \<open>str | None\<close>.\<close>

fun truthy :: "string option \<Rightarrow> bool" where
  "truthy None = False"
| "truthy (Some s) = (s \<noteq> [])"

subsection \<open>The NfcService type\<close>

definition vmodl_version :: string where
  "vmodl_version = ''vim.version.version1''"

definition req_param :: "string \<Rightarrow> string \<Rightarrow> vmodl_param" where
  "req_param n t = \<lparr>pm_name = n, pm_type = t, pm_version = vmodl_version, pm_flags = 0, pm_privilege = None\<rparr>"

definition ticket_method :: "string \<Rightarrow> string \<Rightarrow> vmodl_param list \<Rightarrow> vmodl_method" where
  "ticket_method n w ps = \<lparr>me_name = n, me_wsdl = w, me_version = vmodl_version, me_params = ps,
     me_result = (0, ''vim.HostServiceTicket'', ''vim.HostServiceTicket''),
     me_privilege = None, me_faults = None\<rparr>"

definition nfc_service_type :: "nat \<Rightarrow> managed_type" where
  "nfc_service_type F_OPTIONAL =
     (let vm = req_param ''vm'' ''vim.VirtualMachine''; key = req_param ''diskDeviceKey'' ''int'';
          host = (req_param ''hostForAccess'' ''vim.HostSystem'')\<lparr>pm_flags := F_OPTIONAL\<rparr> in
      \<lparr>mt_name = ''vim.NfcService'', mt_wsdl = ''NfcService'', mt_parent = ''vmodl.ManagedObject'',
       mt_version = vmodl_version, mt_props = [],
       mt_methods =
         [ticket_method ''getVmFiles'' ''NfcGetVmFiles'' [vm],
          ticket_method ''randomAccessOpen'' ''NfcRandomAccessOpenDisk'' [vm, key, host],
          ticket_method ''randomAccessOpenReadonly'' ''NfcRandomAccessOpenReadonly'' [vm, key, host],
          (ticket_method ''getServerNfcLibVersion'' ''NfcGetServerNfcLibVersion''
             [req_param ''hostForAccess'' ''vim.HostSystem''])\<lparr>me_result := (0, ''int'', ''int'')\<rparr>]\<rparr>)"

definition set_registered :: "(world, unit) io" where
  "set_registered = (\<lambda>w. (Inr (), w\<lparr>w_registered := True\<rparr>))"

definition register_nfc_types :: "deps \<Rightarrow> (world, unit) io" where
  "register_nfc_types dp = (\<lambda>w.
     if w_registered w then (Inr (), w)
     else if d_has_nfc_type dp then set_registered w
     else then_io (log_act (Vim (CreateManagedType (nfc_service_type (d_F_OPTIONAL dp)))))
       (case d_create_type dp (nfc_service_type (d_F_OPTIONAL dp)) of
          Some e \<Rightarrow> raise e | None \<Rightarrow> set_registered) w)"

definition nfc_service :: "deps \<Rightarrow> nat \<Rightarrow> (world, string \<times> nat) io" where
  "nfc_service dp si = then_io (register_nfc_types dp) (ret (NFC_SERVICE_MOID, si))"

subsection \<open>Thumbprints\<close>

definition hex_digit :: "nat \<Rightarrow> char" where
  "hex_digit n = (if n < 10 then char_of (48 + n) else char_of (55 + n))"

definition hex_byte :: "byte \<Rightarrow> string" where
  "hex_byte b = [hex_digit (unat b div 16), hex_digit (unat b mod 16)]"

text \<open>\<open>":".join(...)\<close>\<close>

fun join_colon :: "string list \<Rightarrow> string" where
  "join_colon [] = []"
| "join_colon [x] = x"
| "join_colon (x # y # zs) = x @ '':'' @ join_colon (y # zs)"

definition format_thumbprint :: "byte list \<Rightarrow> string" where
  "format_thumbprint digest = join_colon (map hex_byte digest)"

definition sha1_thumbprint :: "deps \<Rightarrow> byte list \<Rightarrow> string" where
  "sha1_thumbprint dp der_cert = format_thumbprint (d_sha1 dp der_cert)"

definition normalize_thumbprint :: "string \<Rightarrow> string" where
  "normalize_thumbprint thumbprint =
     map upper_char (filter (\<lambda>c. c \<noteq> CHR '' '') (filter (\<lambda>c. c \<noteq> CHR '':'') thumbprint))"

definition get_ssl_cert_thumbprint ::
  "deps \<Rightarrow> string \<Rightarrow> nat \<Rightarrow> string \<Rightarrow> ssl_context option \<Rightarrow> (world, string) io" where
  "get_ssl_cert_thumbprint dp host port digest_algorithm ctx =
     (let context = (case ctx of None \<Rightarrow> ssl_client_context False | Some c \<Rightarrow> c) in
      bind_io
        (bind_io (create_connection host port) (\<lambda>sock.
         try_finally
           (bind_io (wrap_socket context sock host) (\<lambda>ssock.
            try_finally (getpeercert ssock) (close_fd ssock)))
           (close_fd sock)))
        (\<lambda>cert. case cert of
           None \<Rightarrow> raise (ConnectionError (NoPeerCert host port))
         | Some der \<Rightarrow>
             if der = [] then raise (ConnectionError (NoPeerCert host port))
             else (case d_hash dp digest_algorithm of
                     None \<Rightarrow> raise (ValueError (Text (''unsupported hash type '' @ digest_algorithm)))
                   | Some h \<Rightarrow> ret (format_thumbprint (h der)))))"

subsection \<open>The VIM login\<close>

definition vim_preferred_api_versions :: "deps \<Rightarrow> exn + string list" where
  "vim_preferred_api_versions dp =
     (let versions = filter (\<lambda>v. starts_with v ''vim.version.v8_'') (d_service_versions dp ''vim25'') in
      if versions = []
      then Inl (RuntimeError (Text ''pyVmomi does not provide vim25 8.x types; OpenVixDiskLib requires them''))
      else Inr versions)"

definition smart_connect :: "deps \<Rightarrow> vim_login \<Rightarrow> (world, nat) io" where
  "smart_connect dp l =
     bind_io (log_act (Vim (SmartConnect l))) (\<lambda>t.
     case d_connect dp t l of
       Some e \<Rightarrow> raise e
     | None \<Rightarrow> (\<lambda>w. (Inr (w_next_si w),
         w\<lparr>w_next_si := w_next_si w + 1, w_sessions := w_next_si w # w_sessions w\<rparr>)))"

definition vim_disconnect :: "deps \<Rightarrow> nat \<Rightarrow> (world, unit) io" where
  "vim_disconnect dp si =
     bind_io (log_act (Vim (Disconnect si))) (\<lambda>t.
     then_io (\<lambda>w. (Inr (), w\<lparr>w_sessions := filter (\<lambda>x. x \<noteq> si) (w_sessions w)\<rparr>))
     (case d_disconnect dp t si of Some e \<Rightarrow> raise e | None \<Rightarrow> ret ()))"

definition connect_vim ::
  "deps \<Rightarrow> string \<Rightarrow> string \<Rightarrow> string \<Rightarrow> nat \<Rightarrow> string option \<Rightarrow> bool \<Rightarrow> (world, nat) io" where
  "connect_vim dp host username password port thumbprint allow_untrusted =
     then_io
       (case thumbprint of
          Some tp \<Rightarrow>
            if tp \<noteq> [] \<and> \<not> allow_untrusted
            then bind_io (get_ssl_cert_thumbprint dp host port ''sha1'' None) (\<lambda>peer.
                 raise_if (normalize_thumbprint peer \<noteq> normalize_thumbprint tp)
                   (ConnectionError (Text (''management SSL thumbprint mismatch: got '' @ peer @
                      '', expected '' @ tp))))
            else ret ()
        | None \<Rightarrow> ret ())
     (let skip_ca = (allow_untrusted \<or> truthy thumbprint);
          ctx = (if skip_ca then Some (ssl_client_context False) else None) in
      bind_io (lift (vim_preferred_api_versions dp)) (\<lambda>versions.
      smart_connect dp \<lparr>vl_host = host, vl_user = username, vl_pwd = password, vl_port = port,
        vl_thumbprint = thumbprint, vl_context = ctx, vl_no_validation = skip_ca,
        vl_versions = versions\<rparr>))"

subsection \<open>The NFC ticket\<close>

fun backing_has :: "string \<Rightarrow> backing option \<Rightarrow> bool" where
  "backing_has disk_path None = False"
| "backing_has disk_path (Some (Backing fileName parent)) =
     (if fileName = Some disk_path then True else backing_has disk_path parent)"

fun disk_key_loop :: "string \<Rightarrow> device list \<Rightarrow> int option" where
  "disk_key_loop disk_path [] = None"
| "disk_key_loop disk_path (OtherDevice k # ds) = disk_key_loop disk_path ds"
| "disk_key_loop disk_path (VirtualDisk key b # ds) =
     (if backing_has disk_path b then Some key else disk_key_loop disk_path ds)"

definition virtual_disk_key :: "deps \<Rightarrow> nat \<Rightarrow> string \<Rightarrow> string \<Rightarrow> (world, int) io" where
  "virtual_disk_key dp si vm disk_path =
     bind_io (log_act (Vim (GetDevices si vm))) (\<lambda>t.
     bind_io (lift (d_devices dp t si vm)) (\<lambda>ds.
     case disk_key_loop disk_path ds of
       Some key \<Rightarrow> ret key
     | None \<Rightarrow> raise (ValueError (NotAttached disk_path vm))))"

definition get_nfc_ticket ::
  "deps \<Rightarrow> nat \<Rightarrow> string \<Rightarrow> int option \<Rightarrow> string option \<Rightarrow> bool \<Rightarrow> string option \<Rightarrow> (world, ticket) io" where
  "get_nfc_ticket dp si vm disk_device_key host_for_access read_only disk_path =
     then_io (nfc_service dp si)
     (if read_only \<and> disk_device_key = None \<and> disk_path = None
      then bind_io (log_act (Vim (GetVmFiles si vm))) (\<lambda>t. lift (d_vm_files dp t si vm))
      else bind_io
        (case disk_device_key of
           Some key \<Rightarrow> ret key
         | None \<Rightarrow> (case disk_path of
             None \<Rightarrow> raise (ValueError (Text ''writable NFC tickets need disk_path or disk_device_key''))
           | Some path \<Rightarrow> virtual_disk_key dp si vm path)) (\<lambda>key.
      bind_io
        (case host_for_access of
           Some h \<Rightarrow> ret h
         | None \<Rightarrow> bind_io (log_act (Vim (GetRuntimeHost si vm))) (\<lambda>t. lift (d_runtime_host dp t si vm))) (\<lambda>h.
      if read_only
      then bind_io (log_act (Vim (RandomAccessOpenReadonly si vm key h))) (\<lambda>t. lift (d_open_readonly dp t si vm key h))
      else bind_io (log_act (Vim (RandomAccessOpen si vm key h))) (\<lambda>t. lift (d_open_disk dp t si vm key h)))))"

subsection \<open>The authd handshake\<close>

lemma sock_recv_1_length: "sock_recv 1 s = (Inr got, s') \<Longrightarrow> length got \<le> 1"
  by (auto simp: sock_recv_def dest!: recv_events_le split: if_splits prod.splits)

text \<open>The loop of \<open>_readline\<close>: at most 4096 bytes, the newline included.\<close>

function readline_loop :: "byte list \<Rightarrow> sock \<Rightarrow> (exn + byte list) \<times> sock" where
  "readline_loop buf s =
     (if ends_with buf [10] then (Inr buf, s)
      else (case sock_recv 1 s of
              (Inl e, s') \<Rightarrow> (Inl e, s')
            | (Inr chunk, s') \<Rightarrow>
                if chunk = [] then (Inl (ConnectionError (Text ''authd connection closed'')), s')
                else if length (buf @ chunk) > 4096
                  then (Inl (ConnectionError (Text ''oversized authd response'')), s')
                else readline_loop (buf @ chunk) s'))"
  by pat_completeness auto
termination
  by (relation "measure (\<lambda>(buf, s). 4096 - length buf)") (auto intro!: diff_less_mono2 simp flip: length_greater_0_conv)

declare readline_loop.simps [simp del]

definition readline :: "(sock, string) io" where
  "readline = bind_io (readline_loop []) (\<lambda>buf. ret (rstrip_crlf (decode_ascii_replace buf)))"

definition expect_code :: "string \<Rightarrow> string \<Rightarrow> string \<Rightarrow> exn + string" where
  "expect_code line code what =
     (if \<not> starts_with line code then Inl (ConnectionError (Text (''authd '' @ what @ '' failed: '' @ line)))
      else Inr (dropWhile is_space (drop (length code) line)))"

definition nfcssl_service_name :: "string \<Rightarrow> string" where
  "nfcssl_service_name service = (if ends_with service ''ssl'' then service else service @ ''ssl'')"

definition ticket_port :: "ticket \<Rightarrow> nat" where
  "ticket_port t = (case tk_port t of None \<Rightarrow> AUTHD_DEFAULT_PORT | Some p \<Rightarrow> if p = 0 then AUTHD_DEFAULT_PORT else p)"

definition ticket_service :: "ticket \<Rightarrow> bool \<Rightarrow> string" where
  "ticket_service t nfc_ssl =
     (let service = (case tk_service t of None \<Rightarrow> ''vpxa-nfc'' | Some s \<Rightarrow> if s = [] then ''vpxa-nfc'' else s) in
      if nfc_ssl then nfcssl_service_name service else service)"

definition send_ascii :: "string \<Rightarrow> (sock, unit) io" where
  "send_ascii line = bind_io (lift (encode_ascii line)) sock_sendall"

text \<open>The plain-text banner and the start of TLS.\<close>

definition authd_connect :: "ticket \<Rightarrow> (world, nat) io" where
  "authd_connect ticket =
     bind_io (create_connection (tk_host ticket) (ticket_port ticket)) (\<lambda>raw.
     on_exception
       (bind_io (on_sock raw readline) (\<lambda>banner.
        then_io (raise_if (\<not> starts_with banner ''220'')
                   (ConnectionError (Text (''unexpected authd banner: '' @ banner))))
        (wrap_socket (ssl_client_context False) raw (tk_host ticket))))
       (close_fd raw))"

definition check_thumbprint :: "deps \<Rightarrow> ticket \<Rightarrow> bool \<Rightarrow> nat \<Rightarrow> (world, unit) io" where
  "check_thumbprint dp ticket allow_untrusted ssock =
     (case tk_thumbprint ticket of
        None \<Rightarrow> ret ()
      | Some tp \<Rightarrow>
          if allow_untrusted \<or> tp = [] then ret ()
          else bind_io (getpeercert ssock) (\<lambda>cert.
            case cert of
              None \<Rightarrow> raise (ConnectionError (NoPeerCert (tk_host ticket) (ticket_port ticket)))
            | Some der \<Rightarrow>
                if der = [] then raise (ConnectionError (NoPeerCert (tk_host ticket) (ticket_port ticket)))
                else let peer = sha1_thumbprint dp der in
                  raise_if (normalize_thumbprint peer \<noteq> normalize_thumbprint tp)
                    (ConnectionError (Text (''ESXi SSL thumbprint mismatch: got '' @ peer @
                       '', expected '' @ tp)))))"

definition authd_commands :: "ticket \<Rightarrow> bool \<Rightarrow> (sock, unit) io" where
  "authd_commands ticket nfc_ssl =
     then_io (send_ascii (''SESSION '' @ tk_session_id ticket @ crlf))
     (then_io (send_ascii (''BANNER '' @ crlf))
     (bind_io readline (\<lambda>line.
      then_io (lift (expect_code line ''220'' ''BANNER''))
     (then_io (send_ascii (''THUMBPRINT_SHA2 PlainText'' @ crlf))
     (bind_io readline (\<lambda>line.
      then_io (lift (expect_code line ''200'' ''THUMBPRINT_SHA2''))
     (then_io (send_ascii (''PROXY '' @ ticket_service ticket nfc_ssl @ crlf))
     (bind_io readline (\<lambda>line.
      then_io (lift (expect_code line ''200'' ''PROXY'')) (ret ())))))))))) "

definition connect_authd :: "deps \<Rightarrow> ticket \<Rightarrow> bool \<Rightarrow> bool \<Rightarrow> (world, nat) io" where
  "connect_authd dp ticket allow_untrusted nfc_ssl =
     bind_io (authd_connect ticket) (\<lambda>ssock.
     on_exception
       (then_io (check_thumbprint dp ticket allow_untrusted ssock)
       (then_io (on_sock ssock (authd_commands ticket nfc_ssl))
       (ret ssock)))
       (close_fd ssock))"

subsection \<open>Sessions\<close>

record NfcAuthSession =
  as_si :: nat
  as_ticket :: ticket
  as_authd_sock :: nat
  as_nfc_ssl :: bool

definition auth_session_close :: "deps \<Rightarrow> NfcAuthSession \<Rightarrow> (world, unit) io" where
  "auth_session_close dp session =
     try_finally (close_fd (as_authd_sock session)) (vim_disconnect dp (as_si session))"

definition authenticate ::
  "deps \<Rightarrow> string \<Rightarrow> string \<Rightarrow> string \<Rightarrow> string \<Rightarrow> nat \<Rightarrow> string option \<Rightarrow> bool \<Rightarrow> int option \<Rightarrow>
     string option \<Rightarrow> bool \<Rightarrow> bool \<Rightarrow> (world, NfcAuthSession) io" where
  "authenticate dp host username password vm_moref port thumbprint allow_untrusted disk_device_key
     disk_path read_only nfc_ssl =
     bind_io (connect_vim dp host username password port thumbprint allow_untrusted) (\<lambda>si.
     on_exception
       (bind_io (get_nfc_ticket dp si vm_moref disk_device_key None read_only disk_path) (\<lambda>ticket.
        bind_io (connect_authd dp ticket allow_untrusted nfc_ssl) (\<lambda>authd_sock.
        ret \<lparr>as_si = si, as_ticket = ticket, as_authd_sock = authd_sock, as_nfc_ssl = nfc_ssl\<rparr>)))
       (vim_disconnect dp si))"

end
