(* ===== verification/Resources.thy ===== *)
theory Resources
  imports World
begin

text \<open>
  What the process holds: its open socket objects and its VIM sessions. The locale \<open>resources\<close> has the
  vocabulary for effects that take, keep and give up resources, with the rules that follow the
  structure of a program; \<open>bracket\<close> is the interface of a context manager. \<open>world_wf\<close> and \<open>held\<close>
  instantiate the first on the process; the theories of the components instantiate the second.
\<close>

definition with_io :: "('w, 'h) io \<Rightarrow> ('h \<Rightarrow> ('w, unit) io) \<Rightarrow> ('h \<Rightarrow> ('w, 'a) io) \<Rightarrow> ('w, 'a) io" where
  "with_io enter leave body = bind_io enter (\<lambda>h. try_finally (body h) (leave h))"

locale resources =
  fixes wf :: "'w \<Rightarrow> bool" and held :: "'w \<Rightarrow> 'r set"
begin

text \<open>The effect holds the same resources after as before, however it ends.\<close>

definition same_held :: "'w \<Rightarrow> 'w \<Rightarrow> bool" where
  "same_held w w' \<longleftrightarrow> (wf w \<longrightarrow> wf w' \<and> held w' = held w)"

text \<open>The effect gives up \<open>P\<close>; when it returns \<open>x\<close>, it has taken \<open>own x\<close>.\<close>

definition moves :: "'r set \<Rightarrow> ('w, 'a) io \<Rightarrow> ('a \<Rightarrow> 'r set) \<Rightarrow> bool" where
  "moves P m own \<longleftrightarrow> (\<forall>w. wf w \<longrightarrow> P \<subseteq> held w \<longrightarrow>
     (case m w of
        (Inl e, w') \<Rightarrow> wf w' \<and> held w' = held w - P
      | (Inr x, w') \<Rightarrow> wf w' \<and> held w' = (held w - P) \<union> own x \<and> own x \<inter> (held w - P) = {}))"

text \<open>As \<open>moves\<close>, except that the effect may still hold part of \<open>P\<close> when it raises.\<close>

definition holds :: "'r set \<Rightarrow> ('w, 'a) io \<Rightarrow> ('a \<Rightarrow> 'r set) \<Rightarrow> bool" where
  "holds P m own \<longleftrightarrow> (\<forall>w. wf w \<longrightarrow> P \<subseteq> held w \<longrightarrow>
     (case m w of
        (Inl e, w') \<Rightarrow> wf w' \<and> held w - P \<subseteq> held w' \<and> held w' \<subseteq> held w
      | (Inr x, w') \<Rightarrow> wf w' \<and> held w' = (held w - P) \<union> own x \<and> own x \<inter> (held w - P) = {}))"

definition releases :: "('w, 'a) io \<Rightarrow> 'r set \<Rightarrow> bool" where
  "releases m P \<longleftrightarrow> (\<forall>w. wf w \<longrightarrow> wf (snd (m w)) \<and> held (snd (m w)) = held w - P)"

lemma same_held_refl: "same_held w w"
  and same_held_trans: "same_held w w' \<Longrightarrow> same_held w' w'' \<Longrightarrow> same_held w w''"
  by (auto simp: same_held_def)

lemma movesI:
  assumes "\<And>w e w'. wf w \<Longrightarrow> P \<subseteq> held w \<Longrightarrow> m w = (Inl e, w') \<Longrightarrow> wf w' \<and> held w' = held w - P"
    and "\<And>w x w'. wf w \<Longrightarrow> P \<subseteq> held w \<Longrightarrow> m w = (Inr x, w') \<Longrightarrow>
           wf w' \<and> held w' = (held w - P) \<union> own x \<and> own x \<inter> (held w - P) = {}"
  shows "moves P m own"
  unfolding moves_def
proof (intro allI impI)
  fix w assume w: "wf w" "P \<subseteq> held w"
  obtain r w' where m: "m w = (r, w')" by (cases "m w")
  show "case m w of (Inl e, w') \<Rightarrow> wf w' \<and> held w' = held w - P
      | (Inr x, w') \<Rightarrow> wf w' \<and> held w' = (held w - P) \<union> own x \<and> own x \<inter> (held w - P) = {}"
    using assms(1) [OF w, of _ w'] assms(2) [OF w, of _ w'] m by (cases r) auto
qed

lemma moves_of_state:
  assumes "\<And>w. wf w \<Longrightarrow> P \<subseteq> held w \<Longrightarrow> wf (snd (m w)) \<and> held (snd (m w)) = held w - P"
  shows "moves P m (\<lambda>x. {})"
proof (rule movesI)
  fix w e w' assume "wf w" "P \<subseteq> held w" "m w = (Inl e, w')"
  then show "wf w' \<and> held w' = held w - P" using assms [of w] by simp
next
  fix w x w' assume "wf w" "P \<subseteq> held w" "m w = (Inr x, w')"
  then show "wf w' \<and> held w' = held w - P \<union> {} \<and> {} \<inter> (held w - P) = {}" using assms [of w] by simp
qed

lemma moves_Inl: "moves P m own \<Longrightarrow> wf w \<Longrightarrow> P \<subseteq> held w \<Longrightarrow> m w = (Inl e, w') \<Longrightarrow> wf w' \<and> held w' = held w - P"
  and moves_Inr: "moves P m own \<Longrightarrow> wf w \<Longrightarrow> P \<subseteq> held w \<Longrightarrow> m w = (Inr x, w') \<Longrightarrow>
    wf w' \<and> held w' = (held w - P) \<union> own x \<and> own x \<inter> (held w - P) = {}"
  by (auto simp: moves_def dest!: spec [of _ w])

lemma holdsI:
  assumes "\<And>w e w'. wf w \<Longrightarrow> P \<subseteq> held w \<Longrightarrow> m w = (Inl e, w') \<Longrightarrow>
           wf w' \<and> held w - P \<subseteq> held w' \<and> held w' \<subseteq> held w"
    and "\<And>w x w'. wf w \<Longrightarrow> P \<subseteq> held w \<Longrightarrow> m w = (Inr x, w') \<Longrightarrow>
           wf w' \<and> held w' = (held w - P) \<union> own x \<and> own x \<inter> (held w - P) = {}"
  shows "holds P m own"
  unfolding holds_def
proof (intro allI impI)
  fix w assume w: "wf w" "P \<subseteq> held w"
  obtain r w' where m: "m w = (r, w')" by (cases "m w")
  show "case m w of (Inl e, w') \<Rightarrow> wf w' \<and> held w - P \<subseteq> held w' \<and> held w' \<subseteq> held w
      | (Inr x, w') \<Rightarrow> wf w' \<and> held w' = (held w - P) \<union> own x \<and> own x \<inter> (held w - P) = {}"
    using assms(1) [OF w, of _ w'] assms(2) [OF w, of _ w'] m by (cases r) auto
qed

lemma holds_Inl: "holds P m own \<Longrightarrow> wf w \<Longrightarrow> P \<subseteq> held w \<Longrightarrow> m w = (Inl e, w') \<Longrightarrow>
    wf w' \<and> held w - P \<subseteq> held w' \<and> held w' \<subseteq> held w"
  and holds_Inr: "holds P m own \<Longrightarrow> wf w \<Longrightarrow> P \<subseteq> held w \<Longrightarrow> m w = (Inr x, w') \<Longrightarrow>
    wf w' \<and> held w' = (held w - P) \<union> own x \<and> own x \<inter> (held w - P) = {}"
  by (auto simp: holds_def dest!: spec [of _ w])

lemma same_heldD: "keeps same_held m \<Longrightarrow> wf w \<Longrightarrow> m w = (r, w') \<Longrightarrow> wf w' \<and> held w' = held w"
  by (auto simp: same_held_def dest: keepsD)

lemma holds_same: "keeps same_held m \<Longrightarrow> holds P m (\<lambda>x. P)"
  by (intro holdsI) (auto dest!: same_heldD)

lemma moves_same: "keeps same_held m \<Longrightarrow> moves {} m (\<lambda>x. {})"
  by (intro movesI) (auto dest!: same_heldD)

lemma moves_holds:
  assumes "moves P m own"
  shows "holds P m own"
proof (rule holdsI)
  fix w e w' assume "wf w" "P \<subseteq> held w" "m w = (Inl e, w')"
  from moves_Inl [OF assms this] show "wf w' \<and> held w - P \<subseteq> held w' \<and> held w' \<subseteq> held w" by auto
qed (rule moves_Inr [OF assms])

lemma holds_ret: "own x = P \<Longrightarrow> holds P (ret x) own"
  by (intro holdsI) auto

lemma moves_ret: "own x = P \<Longrightarrow> moves P (ret x) own"
  by (intro movesI) auto

lemma holds_bind:
  assumes "holds P m (\<lambda>x. P)" and "\<And>x. holds P (f x) own"
  shows "holds P (bind_io m f) own"
proof (rule holdsI)
  fix w e w' assume wf: "wf w" "P \<subseteq> held w" and run: "bind_io m f w = (Inl e, w')"
  show "wf w' \<and> held w - P \<subseteq> held w' \<and> held w' \<subseteq> held w"
  proof (cases "m w = (Inl e, w')")
    case True
    then show ?thesis using holds_Inl [OF assms(1) wf] by blast
  next
    case False
    then obtain x w1 where m: "m w = (Inr x, w1)" and f: "f x w1 = (Inl e, w')"
      using run by (auto simp: bind_io_Inl_iff)
    have w1: "wf w1" "held w1 = held w" using holds_Inr [OF assms(1) wf m] wf by auto
    then show ?thesis using holds_Inl [OF assms(2) _ _ f] wf by auto
  qed
next
  fix w y w' assume wf: "wf w" "P \<subseteq> held w" and run: "bind_io m f w = (Inr y, w')"
  then obtain x w1 where m: "m w = (Inr x, w1)" and f: "f x w1 = (Inr y, w')"
    by (auto simp: bind_io_Inr_iff)
  have w1: "wf w1" "held w1 = held w" using holds_Inr [OF assms(1) wf m] wf by auto
  then show "wf w' \<and> held w' = (held w - P) \<union> own y \<and> own y \<inter> (held w - P) = {}"
    using holds_Inr [OF assms(2) _ _ f] wf by auto
qed

lemma holds_then: "holds P m (\<lambda>x. P) \<Longrightarrow> holds P k own \<Longrightarrow> holds P (then_io m k) own"
  by (simp add: then_io_def holds_bind)

lemma moves_bind:
  assumes "moves P m own" and "\<And>x. moves (own x) (f x) own'"
  shows "moves P (bind_io m f) own'"
proof (rule movesI)
  fix w e w' assume wf: "wf w" "P \<subseteq> held w" and run: "bind_io m f w = (Inl e, w')"
  show "wf w' \<and> held w' = held w - P"
  proof (cases "m w = (Inl e, w')")
    case True
    then show ?thesis using moves_Inl [OF assms(1) wf] by blast
  next
    case False
    then obtain x w1 where m: "m w = (Inr x, w1)" and f: "f x w1 = (Inl e, w')"
      using run by (auto simp: bind_io_Inl_iff)
    have w1: "wf w1" "held w1 = (held w - P) \<union> own x" "own x \<inter> (held w - P) = {}"
      using moves_Inr [OF assms(1) wf m] by auto
    then have "wf w' \<and> held w' = held w1 - own x" by (intro moves_Inl [OF assms(2) _ _ f]) auto
    then show ?thesis using w1(2,3) by auto
  qed
next
  fix w y w' assume wf: "wf w" "P \<subseteq> held w" and run: "bind_io m f w = (Inr y, w')"
  then obtain x w1 where m: "m w = (Inr x, w1)" and f: "f x w1 = (Inr y, w')"
    by (auto simp: bind_io_Inr_iff)
  have w1: "wf w1" "held w1 = (held w - P) \<union> own x" "own x \<inter> (held w - P) = {}"
    using moves_Inr [OF assms(1) wf m] by auto
  then have "wf w' \<and> held w' = (held w1 - own x) \<union> own' y \<and> own' y \<inter> (held w1 - own x) = {}"
    by (intro moves_Inr [OF assms(2) _ _ f]) auto
  moreover have "held w1 - own x = held w - P" using w1(2,3) by auto
  ultimately show "wf w' \<and> held w' = (held w - P) \<union> own' y \<and> own' y \<inter> (held w - P) = {}" by simp
qed

lemma moves_then: "moves P m (\<lambda>x. {}) \<Longrightarrow> moves {} k own \<Longrightarrow> moves P (then_io m k) own"
  by (simp add: then_io_def) (rule moves_bind)

text \<open>\<open>try: m  except Exception: cleanup; raise\<close>\<close>

lemma moves_on_exception:
  assumes "holds P m own" and "releases c P"
  shows "moves P (on_exception m c) own"
proof (rule movesI)
  fix w e w' assume wf: "wf w" "P \<subseteq> held w" and run: "on_exception m c w = (Inl e, w')"
  then obtain e' w1 where m: "m w = (Inl e', w1)" and w': "w' = snd (c w1)"
    by (auto simp: on_exception_def catch_io_def then_io_def bind_io_def split: prod.splits sum.splits)
  have "wf w1" "held w - P \<subseteq> held w1" "held w1 \<subseteq> held w" using holds_Inl [OF assms(1) wf m] by auto
  then show "wf w' \<and> held w' = held w - P" using assms(2) w' by (auto simp: releases_def)
next
  fix w x w' assume wf: "wf w" "P \<subseteq> held w" and run: "on_exception m c w = (Inr x, w')"
  then have "m w = (Inr x, w')"
    by (auto simp: on_exception_def catch_io_def then_io_def bind_io_def split: prod.splits sum.splits)
  then show "wf w' \<and> held w' = (held w - P) \<union> own x \<and> own x \<inter> (held w - P) = {}"
    by (rule holds_Inr [OF assms(1) wf])
qed

text \<open>Resources that an effect does not know about stay where they are.\<close>

lemma holds_frame:
  assumes "moves {} m own"
  shows "holds P m (\<lambda>x. P \<union> own x)"
proof (rule holdsI)
  fix w e w' assume "wf w" "P \<subseteq> held w" "m w = (Inl e, w')"
  then show "wf w' \<and> held w - P \<subseteq> held w' \<and> held w' \<subseteq> held w" using moves_Inl [OF assms, of w e w'] by auto
next
  fix w x w' assume "wf w" "P \<subseteq> held w" "m w = (Inr x, w')"
  then show "wf w' \<and> held w' = (held w - P) \<union> (P \<union> own x) \<and> (P \<union> own x) \<inter> (held w - P) = {}"
    using moves_Inr [OF assms, of w x w'] by auto
qed

lemma holds_map:
  assumes "holds P m (\<lambda>x. own (g x))"
  shows "holds P (bind_io m (\<lambda>x. ret (g x))) own"
proof (rule holdsI)
  fix w e w' assume w: "wf w" "P \<subseteq> held w" and "bind_io m (\<lambda>x. ret (g x)) w = (Inl e, w')"
  then have "m w = (Inl e, w')" by (auto simp: bind_io_Inl_iff)
  then show "wf w' \<and> held w - P \<subseteq> held w' \<and> held w' \<subseteq> held w" by (rule holds_Inl [OF assms w])
next
  fix w y w' assume w: "wf w" "P \<subseteq> held w" and "bind_io m (\<lambda>x. ret (g x)) w = (Inr y, w')"
  then obtain x where "m w = (Inr x, w')" "y = g x" by (auto simp: bind_io_Inr_iff)
  then show "wf w' \<and> held w' = (held w - P) \<union> own y \<and> own y \<inter> (held w - P) = {}"
    using holds_Inr [OF assms w] by simp
qed

lemma moves_map: "moves P m (\<lambda>x. own (g x)) \<Longrightarrow> moves P (bind_io m (\<lambda>x. ret (g x))) own"
  by (erule moves_bind) (rule moves_ret [OF refl])

lemma moves_same_bind: "keeps same_held m \<Longrightarrow> (\<And>x. moves {} (f x) own) \<Longrightarrow> moves {} (bind_io m f) own"
  by (rule moves_bind [OF moves_same])

lemma moves_same_then: "keeps same_held m \<Longrightarrow> moves {} k own \<Longrightarrow> moves {} (then_io m k) own"
  by (rule moves_then [OF moves_same])

lemma holds_same_bind: "keeps same_held m \<Longrightarrow> (\<And>x. holds P (f x) own) \<Longrightarrow> holds P (bind_io m f) own"
  by (rule holds_bind [OF holds_same])

lemma holds_same_then: "keeps same_held m \<Longrightarrow> holds P k own \<Longrightarrow> holds P (then_io m k) own"
  by (rule holds_then [OF holds_same])

lemma same_of_moves:
  assumes "moves {} m (\<lambda>x. {})"
  shows "keeps same_held m"
  unfolding keeps_def same_held_def
proof (intro allI impI)
  fix w assume "wf w"
  moreover obtain r w' where "m w = (r, w')" by (cases "m w")
  ultimately show "wf (snd (m w)) \<and> held (snd (m w)) = held w"
    using moves_Inl [OF assms, of w _ w'] moves_Inr [OF assms, of w _ w'] by (cases r) auto
qed

text \<open>\<open>with enter as h: body\<close>, where the exit of \<open>h\<close> closes what entering took.\<close>

lemma moves_with:
  assumes "moves P enter own" and "\<And>h. keeps same_held (body h)" and "\<And>h. releases (leave h) (own h)"
  shows "moves P (with_io enter leave body) (\<lambda>x. {})"
proof -
  have fin: "moves (own h) (try_finally (body h) (leave h)) (\<lambda>x. {})" for h
  proof -
    have s: "wf (snd (try_finally (body h) (leave h) w)) \<and>
        held (snd (try_finally (body h) (leave h) w)) = held w - own h" if "wf w" for w
    proof -
      obtain r w1 where b: "body h w = (r, w1)" by (cases "body h w")
      have "wf w1" "held w1 = held w" using same_heldD [OF assms(2) that b] by auto
      then show ?thesis using assms(3) b by (simp add: snd_try_finally releases_def)
    qed
    show ?thesis by (rule moves_of_state) (rule s)
  qed
  show ?thesis unfolding with_io_def by (rule moves_bind [OF assms(1) fin])
qed

lemma moves_finally:
  assumes "moves P m (\<lambda>x. {})" and "releases c P"
  shows "moves P (try_finally m c) (\<lambda>x. {})"
proof -
  have s: "wf (snd (try_finally m c w)) \<and> held (snd (try_finally m c w)) = held w - P"
    if w: "wf w" "P \<subseteq> held w" for w
  proof -
    obtain r w1 where m: "m w = (r, w1)" by (cases "m w")
    have "wf w1" "held w1 = held w - P"
      using moves_Inl [OF assms(1) w, of _ w1] moves_Inr [OF assms(1) w, of _ w1] m by (cases r; auto)+
    then show ?thesis using assms(2) m by (auto simp: snd_try_finally releases_def)
  qed
  show ?thesis by (rule moves_of_state) (rule s)
qed

end

sublocale resources \<subseteq> rs: state_preorder same_held
  by unfold_locales (auto intro: same_held_refl same_held_trans)

text \<open>
  A context manager: what entering takes is what leaving gives up, as long as the handle is valid.
\<close>

locale bracket = resources wf held for wf :: "'w \<Rightarrow> bool" and held :: "'w \<Rightarrow> 'r set" +
  fixes enter :: "('w, 'h) io" and leave :: "'h \<Rightarrow> ('w, unit) io" and own :: "'h \<Rightarrow> 'r set"
    and valid :: "'h \<Rightarrow> 'w \<Rightarrow> bool"
  assumes enter_takes: "moves {} enter own"
    and enter_valid: "wf w \<Longrightarrow> enter w = (Inr h, w') \<Longrightarrow> valid h w'"
    and leave_frees: "wf w \<Longrightarrow> valid h w \<Longrightarrow> wf (snd (leave h w)) \<and> held (snd (leave h w)) = held w - own h"
begin

text \<open>
  Any body: either entering failed and nothing has changed, or the body ran on a world that holds what
  entering took besides, and leaving takes exactly that from what the body leaves behind.
\<close>

lemma with_cases:
  assumes wf: "wf w" and run: "with_io enter leave body w = (r, w')"
    and body: "\<And>h. keeps (\<lambda>w w'. (wf w \<longrightarrow> wf w') \<and> (valid h w \<longrightarrow> valid h w')) (body h)"
  obtains (failed) "wf w'" "held w' = held w"
    | (ran) h w1 rb w2 where "body h w1 = (rb, w2)" "wf w1" "held w1 = held w \<union> own h" "own h \<inter> held w = {}"
        "wf w2" "wf w'" "held w' = held w2 - own h"
proof -
  obtain re w1 where e: "enter w = (re, w1)" by (cases "enter w")
  show thesis
  proof (cases re)
    case (Inl x)
    then show thesis using failed moves_Inl [OF enter_takes wf, of x w1] e run by (simp add: with_io_def)
  next
    case (Inr h)
    obtain rb w2 where b: "body h w1 = (rb, w2)" by (cases "body h w1")
    have w1: "wf w1" "held w1 = held w \<union> own h" "own h \<inter> held w = {}"
      using moves_Inr [OF enter_takes wf, of h w1] e Inr by auto
    have w2: "wf w2" "valid h w2" using keepsD [OF body b] w1(1) enter_valid [OF wf] e Inr by blast+
    have "w' = snd (leave h w2)"
      using run e b Inr by (auto simp: with_io_def try_finally_def split: prod.splits sum.splits)
    then show thesis using ran [OF b w1 w2(1)] leave_frees [OF w2] by simp
  qed
qed

text \<open>With a body that holds the same after as before, so does the \<open>with\<close> statement.\<close>

lemma with_same_held:
  assumes "\<And>h. keeps same_held (body h)" and "\<And>h. keeps (\<lambda>w w'. valid h w \<longrightarrow> valid h w') (body h)"
  shows "keeps same_held (with_io enter leave body)"
  unfolding keeps_def same_held_def
proof (intro allI impI)
  fix w assume wf: "wf w"
  obtain r w' where run: "with_io enter leave body w = (r, w')" by (cases "with_io enter leave body w")
  have body: "keeps (\<lambda>w w'. (wf w \<longrightarrow> wf w') \<and> (valid h w \<longrightarrow> valid h w')) (body h)" for h
    using assms by (simp add: keeps_def same_held_def)
  from wf run body have "wf w' \<and> held w' = held w"
  proof (cases rule: with_cases)
    case (ran h w1 rb w2)
    then show ?thesis using same_heldD [OF assms(1) ran(2,1)] by auto
  qed simp
  then show "wf (snd (with_io enter leave body w)) \<and> held (snd (with_io enter leave body w)) = held w"
    using run by simp
qed

end

subsection \<open>The resources of the process\<close>

datatype resource = Fd nat | Login nat

definition proc_held :: "world \<Rightarrow> resource set" where
  "proc_held w = Fd ` {fd. fd_open w fd} \<union> Login ` set (w_sessions w)"

text \<open>
  Numbers are fresh until they are given out, disk objects are well formed and a closed one has a
  closed socket.
\<close>

definition world_wf :: "world \<Rightarrow> bool" where
  "world_wf w \<longleftrightarrow>
     (\<forall>fd\<ge>w_next w. w_socks w fd = None \<and> w_disks w fd = None) \<and>
     (\<forall>fd d. w_disks w fd = Some d \<longrightarrow> disk_wf d \<and> (nd_closed d \<longrightarrow> \<not> fd_open w fd)) \<and>
     (\<forall>si\<in>set (w_sessions w). si < w_next_si w)"

interpretation proc: resources world_wf proc_held .

lemma world_wf_fdD: "world_wf w \<Longrightarrow> fd_open w fd \<Longrightarrow> fd < w_next w"
  by (metis (no_types, lifting) fd_open_def not_le option.simps(4) world_wf_def)

lemma same_held_log: "keeps proc.same_held (log_act a)"
  and same_held_check: "keeps proc.same_held (check_open fd)"
  and same_held_cert: "keeps proc.same_held (getpeercert fd)"
  by (auto simp: keeps_def proc.same_held_def log_act_def check_open_def getpeercert_def then_io_def
      bind_io_def world_wf_def proc_held_def fd_open_def)

lemma fd_open_upd:
  "fd_open (w\<lparr>w_socks := (w_socks w)(fd \<mapsto> s)\<rparr>) x \<longleftrightarrow> (if x = fd then is_open s else fd_open w x)"
  by (simp add: fd_open_def)

lemma same_held_on_sock:
  assumes "keeps sock_alive m"
  shows "keeps proc.same_held (on_sock fd m)"
  unfolding keeps_def
proof
  fix w
  show "proc.same_held w (snd (on_sock fd m w))"
  proof (cases "w_socks w fd")
    case None
    then show ?thesis by (simp add: on_sock_def proc.same_held_refl)
  next
    case (Some s)
    obtain r s' where m: "m s = (r, s')" by (cases "m s")
    have o: "is_open s' = is_open s" using keepsD [OF assms m] by (simp add: sock_alive_def)
    let ?w = "w\<lparr>w_socks := (w_socks w)(fd \<mapsto> s')\<rparr>"
    have eq: "fd_open ?w x = fd_open w x" for x using o Some by (simp add: fd_open_upd) (simp add: fd_open_def)
    have "world_wf w \<Longrightarrow> world_wf ?w"
      using Some eq by (auto simp: world_wf_def)
    moreover have "proc_held ?w = proc_held w" using eq by (simp add: proc_held_def)
    ultimately show ?thesis using Some m by (simp add: on_sock_def proc.same_held_def)
  qed
qed

text \<open>Methods that keep the disk object well formed, open or closed as it is.\<close>

definition disk_alive :: "dstate \<Rightarrow> dstate \<Rightarrow> bool" where
  "disk_alive st st' \<longleftrightarrow> (disk_wf (fst st) \<longrightarrow> disk_wf (fst st')) \<and>
     nd_closed (fst st') = nd_closed (fst st) \<and> is_open (snd st') = is_open (snd st)"

interpretation alive_disk: disk_frame sock_alive disk_alive
  by unfold_locales (auto simp: disk_alive_def sock_alive_def disk_wf_def)

lemma world_upd_disk:
  assumes "world_wf w" and "w_disks w fd = Some d" and "w_socks w fd = Some s" and "disk_alive (d, s) (d', s')"
  defines "w' \<equiv> w\<lparr>w_disks := (w_disks w)(fd \<mapsto> d'), w_socks := (w_socks w)(fd \<mapsto> s')\<rparr>"
  shows "world_wf w' \<and> proc_held w' = proc_held w"
proof -
  have eq: "fd_open w' x = fd_open w x" for x using assms by (auto simp: fd_open_def disk_alive_def)
  have "world_wf w'"
  proof -
    have "\<not> fd_open w fd" if "nd_closed d'" using that assms(1,2,4) by (auto simp: world_wf_def disk_alive_def)
    then show ?thesis using assms(1-4) eq by (auto simp: world_wf_def w'_def disk_alive_def split: if_splits)
  qed
  moreover have "proc_held w' = proc_held w" using eq by (simp add: proc_held_def w'_def)
  ultimately show ?thesis ..
qed

lemma same_held_on_disk:
  assumes "keeps disk_alive m"
  shows "keeps proc.same_held (on_disk fd m)"
  unfolding keeps_def
proof
  fix w
  show "proc.same_held w (snd (on_disk fd m w))"
  proof (cases "w_disks w fd = None \<or> w_socks w fd = None")
    case True
    then show ?thesis by (auto simp: on_disk_def proc.same_held_refl split: option.splits)
  next
    case False
    then obtain d s where ds: "w_disks w fd = Some d" "w_socks w fd = Some s" by auto
    obtain r d' s' where m: "m (d, s) = (r, d', s')" by (metis prod_cases3)
    show ?thesis
      using world_upd_disk [OF _ ds keepsD [OF assms m]] ds m by (simp add: on_disk_def proc.same_held_def)
  qed
qed

lemma moves_next_layer: "proc.moves {} next_layer (\<lambda>fd. {Fd fd})"
proof (rule proc.movesI)
  fix w e w' assume "world_wf w" "next_layer w = (Inl e, w')"
  then show "world_wf w' \<and> proc_held w' = proc_held w - {}"
    by (auto simp: next_layer_def world_wf_def proc_held_def fd_open_def split: list.splits net_event.splits)
next
  fix w fd w' assume wf: "world_wf w" and run: "next_layer w = (Inr fd, w')"
  then obtain s cert es where w': "fd = w_next w" "w' = w\<lparr>w_script := es, w_next := w_next w + 1,
      w_socks := (w_socks w)(fd \<mapsto> s\<lparr>tx := [], is_open := True\<rparr>), w_cert := (w_cert w)(fd := cert)\<rparr>"
    by (auto simp: next_layer_def split: list.splits net_event.splits)
  have o: "fd_open w' x \<longleftrightarrow> x = fd \<or> fd_open w x" for x using w'(2) by (simp add: fd_open_def)
  have n: "\<not> fd_open w fd" "w_disks w fd = None" using wf w'(1) by (auto simp: world_wf_def fd_open_def)
  have "world_wf w'" using wf n o by (auto simp: world_wf_def w')
  then show "world_wf w' \<and> proc_held w' = (proc_held w - {}) \<union> {Fd fd} \<and> {Fd fd} \<inter> (proc_held w - {}) = {}"
    using o n(1) w'(2) by (auto simp: proc_held_def)
qed

text \<open>Effects on one socket after which it is closed.\<close>

lemma releases_on_sock:
  assumes "\<And>s. \<not> is_open (snd (m s))"
  shows "proc.releases (on_sock fd m) {Fd fd}"
  unfolding proc.releases_def
proof (intro allI impI)
  fix w assume wf: "world_wf w"
  let ?w = "snd (on_sock fd m w)"
  show "world_wf ?w \<and> proc_held ?w = proc_held w - {Fd fd}"
  proof (cases "w_socks w fd")
    case None
    then show ?thesis using wf by (auto simp: on_sock_def proc_held_def fd_open_def)
  next
    case (Some s)
    obtain r s' where m: "m s = (r, s')" by (cases "m s")
    then have c: "\<not> is_open s'" using assms [of s] by simp
    have w': "?w = w\<lparr>w_socks := (w_socks w)(fd \<mapsto> s')\<rparr>" using Some m by (simp add: on_sock_def)
    have o: "fd_open ?w x \<longleftrightarrow> x \<noteq> fd \<and> fd_open w x" for x using c by (simp add: w' fd_open_upd)
    have "world_wf ?w" using wf Some o by (auto simp: world_wf_def w')
    moreover have "proc_held ?w = proc_held w - {Fd fd}" using o by (auto simp: proc_held_def w')
    ultimately show ?thesis ..
  qed
qed

lemma releases_close_fd: "proc.releases (close_fd fd) {Fd fd}"
  unfolding close_fd_def by (rule releases_on_sock) simp

lemma releases_detach: "proc.releases (detach fd) {Fd fd}"
  unfolding detach_def by (rule releases_on_sock) simp

lemma snd_ignore_OSError: "snd (ignore_OSError m w) = snd (m w)"
  by (simp add: ignore_OSError_def catch_io_def split: prod.splits sum.splits)

lemma releases_ignore: "proc.releases m P \<Longrightarrow> proc.releases (ignore_OSError m) P"
  by (simp add: proc.releases_def snd_ignore_OSError)

lemma moves_wrap_socket: "proc.moves {Fd fd} (wrap_socket ctx fd h) (\<lambda>x. {Fd x})"
proof -
  have n: "proc.moves {} (then_io (log_act (Hello h ctx)) next_layer) (\<lambda>x. {Fd x})"
    by (intro proc.moves_then proc.moves_same same_held_log moves_next_layer)
  have d: "proc.moves {Fd fd} (then_io (check_open fd) (detach fd)) (\<lambda>x. {})"
  proof (rule proc.movesI)
    fix w :: world and r w'
    assume wf: "world_wf w" "{Fd fd} \<subseteq> proc_held w"
    then have o: "fd_open w fd" by (auto simp: proc_held_def)
    then have run: "then_io (check_open fd) (detach fd) w = detach fd w"
      by (simp add: check_open_def then_io_def)
    have "fst (detach fd w) = Inr ()"
      using o by (auto simp: detach_def on_sock_def fd_open_def split: option.splits)
    moreover have "world_wf (snd (detach fd w)) \<and> proc_held (snd (detach fd w)) = proc_held w - {Fd fd}"
      using releases_detach [of fd] wf(1) unfolding proc.releases_def by blast
    ultimately have ex: "\<exists>w1. detach fd w = (Inr (), w1) \<and> world_wf w1 \<and> proc_held w1 = proc_held w - {Fd fd}"
      by (metis prod.collapse)
    show "then_io (check_open fd) (detach fd) w = (Inl r, w') \<Longrightarrow> world_wf w' \<and> proc_held w' = proc_held w - {Fd fd}"
      using ex run by auto
    fix x show "then_io (check_open fd) (detach fd) w = (Inr x, w') \<Longrightarrow>
      world_wf w' \<and> proc_held w' = proc_held w - {Fd fd} \<union> {} \<and> {} \<inter> (proc_held w - {Fd fd}) = {}"
      using ex run by auto
  qed
  have "proc.moves {Fd fd}
      (then_io (then_io (check_open fd) (detach fd)) (then_io (log_act (Hello h ctx)) next_layer)) (\<lambda>x. {Fd x})"
    by (rule proc.moves_then [OF d n])
  moreover have "then_io (then_io a b) c = then_io a (then_io b c)" for a b :: "(world, unit) io" and c :: "(world, nat) io"
    by (auto simp: then_io_def bind_io_def split: prod.splits sum.splits)
  ultimately show ?thesis by (simp add: wrap_socket_def)
qed

lemma moves_dup_socket: "proc.moves {} (dup_socket fd) (\<lambda>x. {Fd x})"
  unfolding dup_socket_def by (intro proc.moves_then proc.moves_same same_held_check moves_next_layer)

lemma moves_create_connection: "proc.moves {} (create_connection host port) (\<lambda>x. {Fd x})"
  unfolding create_connection_def
  by (intro proc.moves_then proc.moves_same same_held_log moves_next_layer)

lemma holds_new_disk:
  assumes "disk_wf d" and "\<not> nd_closed d"
  shows "proc.holds {Fd (nd_sock d)} (new_disk d) (\<lambda>x. {Fd (nd_sock d)})"
proof (rule proc.holdsI)
  fix w :: world and x w' assume wf: "world_wf w" "{Fd (nd_sock d)} \<subseteq> proc_held w" and run: "new_disk d w = (Inr x, w')"
  then have "nd_sock d < w_next w" by (auto simp: proc_held_def intro: world_wf_fdD)
  then have "world_wf w'"
    using wf(1) run assms by (auto simp: new_disk_def world_wf_def fd_open_def split: if_splits)
  moreover have "proc_held w' = proc_held w" using run by (auto simp: new_disk_def proc_held_def fd_open_def)
  ultimately show "world_wf w' \<and> proc_held w' = proc_held w - {Fd (nd_sock d)} \<union> {Fd (nd_sock d)} \<and>
      {Fd (nd_sock d)} \<inter> (proc_held w - {Fd (nd_sock d)}) = {}" using wf(2) by auto
qed (simp add: new_disk_def)

end
