(* ===== verification/NfcAuthSpec.thy ===== *)
theory NfcAuthSpec
  imports NfcAuth Resources
begin

text \<open>
  Theorems about \<open>nfc_auth.py\<close>: thumbprint pinning, the authd line protocol, the choice of the ticket
  call, and that no socket and no VIM session is lost on any path.
\<close>

subsection \<open>What the parts keep\<close>

context rx_frame
begin

lemma readline_loop_frame: "readline_loop buf s = (r, s') \<Longrightarrow> R s s'"
proof (induction buf s rule: readline_loop.induct)
  case (1 buf s)
  obtain r1 s1 where rc: "sock_recv 1 s = (r1, s1)" by (cases "sock_recv 1 s")
  have e: "R s s1" by (rule keepsD [OF frame_recv rc])
  show ?case
  proof (cases "\<exists>c. r1 = Inr c \<and> c \<noteq> [] \<and> length (buf @ c) \<le> 4096 \<and> \<not> ends_with buf [10]")
    case False
    then show ?thesis
      using "1.prems" rc e refl_R by (subst (asm) readline_loop.simps) (auto split: if_splits sum.splits)
  next
    case True
    then obtain c where c: "r1 = Inr c" "c \<noteq> []" "length (buf @ c) \<le> 4096" "\<not> ends_with buf [10]" by blast
    then have "readline_loop (buf @ c) s1 = (r, s')"
      using "1.prems" rc by (subst (asm) readline_loop.simps) simp
    then have "R s1 s'" using "1.IH" [OF c(4) rc [symmetric] c(1,2)] c(3) by simp
    then show ?thesis by (rule trans_R [OF e])
  qed
qed

lemma frame_readline: "keeps R readline"
proof -
  have "keeps R (readline_loop [])"
    unfolding keeps_def by (metis prod.collapse readline_loop_frame)
  then show ?thesis unfolding readline_def by (intro keeps_intros)
qed

end

context sock_frame
begin

lemma frame_send_ascii: "keeps R (send_ascii line)"
  unfolding send_ascii_def by (intro keeps_intros frame_sendall)

lemma frame_authd_commands: "keeps R (authd_commands ticket nfc_ssl)"
  unfolding authd_commands_def by (intro keeps_intros frame_send_ascii frame_readline)

end

lemmas world_same =
  proc.rs.keeps_intros same_held_log same_held_check same_held_cert same_held_on_sock same_held_on_disk
  alive_pre.frame_readline alive_pre.frame_authd_commands

lemma same_held_register: "keeps proc.same_held (register_nfc_types dp)"
proof -
  have s: "keeps proc.same_held set_registered"
    by (auto simp: keeps_def proc.same_held_def set_registered_def world_wf_def proc_held_def fd_open_def)
  let ?k = "then_io (log_act (Vim (CreateManagedType (nfc_service_type (d_F_OPTIONAL dp)))))
       (case d_create_type dp (nfc_service_type (d_F_OPTIONAL dp)) of Some e \<Rightarrow> raise e | None \<Rightarrow> set_registered)"
  have "keeps proc.same_held ?k"
    by (cases "d_create_type dp (nfc_service_type (d_F_OPTIONAL dp))") (auto intro!: world_same s)
  then show ?thesis
    using s by (auto simp: register_nfc_types_def keeps_def proc.same_held_refl)
qed

lemma same_held_disk_key: "keeps proc.same_held (virtual_disk_key dp si vm path)"
  unfolding virtual_disk_key_def
  by (intro world_same) (auto intro: world_same split: option.split)

lemma same_held_ticket: "keeps proc.same_held (get_nfc_ticket dp si vm key host ro path)"
  unfolding get_nfc_ticket_def nfc_service_def
  by (cases key; cases path; cases host)
    (auto intro!: world_same same_held_register same_held_disk_key)

subsection \<open>Sockets and sessions\<close>

lemma moves_authd_connect: "proc.moves {} (authd_connect t) (\<lambda>x. {Fd x})"
  unfolding authd_connect_def
  by (intro proc.moves_bind [OF moves_create_connection] proc.moves_on_exception releases_close_fd
      proc.holds_same_bind proc.holds_same_then world_same proc.moves_holds moves_wrap_socket)

lemma same_held_check_thumbprint: "keeps proc.same_held (check_thumbprint dp t allow fd)"
  unfolding check_thumbprint_def
  by (cases "tk_thumbprint t")
    (auto intro!: world_same simp: Let_def split: option.split if_split)

lemma moves_connect_authd: "proc.moves {} (connect_authd dp t allow ssl) (\<lambda>x. {Fd x})"
  unfolding connect_authd_def
  by (intro proc.moves_bind [OF moves_authd_connect] proc.moves_on_exception releases_close_fd
      proc.holds_same_then same_held_check_thumbprint same_held_on_sock alive_pre.frame_authd_commands
      proc.holds_ret refl)

lemma same_held_cert_thumbprint: "keeps proc.same_held (get_ssl_cert_thumbprint dp host port alg ctx)"
proof -
  let ?ctx = "case ctx of None \<Rightarrow> ssl_client_context False | Some c \<Rightarrow> c"
  let ?inner = "\<lambda>sock. try_finally (with_io (wrap_socket ?ctx sock host) close_fd getpeercert) (close_fd sock)"
  have "proc.moves {Fd sock} (?inner sock) (\<lambda>x. {})" for sock
    by (intro proc.moves_finally proc.moves_with [OF moves_wrap_socket] same_held_cert releases_close_fd)
  then have "proc.moves {} (bind_io (create_connection host port) ?inner) (\<lambda>x. {})"
    by (rule proc.moves_bind [OF moves_create_connection])
  then have s: "keeps proc.same_held (bind_io (create_connection host port) ?inner)"
    by (rule proc.same_of_moves)
  show ?thesis
    unfolding get_ssl_cert_thumbprint_def Let_def
    by (rule proc.rs.keeps_bind [OF s [unfolded with_io_def]]) (auto intro!: world_same split: option.split)
qed

lemma moves_smart_connect: "proc.moves {} (smart_connect dp l) (\<lambda>si. {Login si})"
proof -
  have n: "proc.moves {} (\<lambda>w. (Inr (w_next_si w),
      w\<lparr>w_next_si := w_next_si w + 1, w_sessions := w_next_si w # w_sessions w\<rparr>)) (\<lambda>si. {Login si})"
  proof (rule proc.movesI)
    fix w :: world and x w'
    assume "world_wf w" "(Inr (w_next_si w),
      w\<lparr>w_next_si := w_next_si w + 1, w_sessions := w_next_si w # w_sessions w\<rparr>) = (Inr x, w')"
    then show "world_wf w' \<and> proc_held w' = proc_held w - {} \<union> {Login x} \<and> {Login x} \<inter> (proc_held w - {}) = {}"
      by (auto simp: world_wf_def proc_held_def fd_open_def less_Suc_eq)
  qed simp
  show ?thesis
    unfolding smart_connect_def
  proof (intro proc.moves_same_bind same_held_log)
    fix t
    show "proc.moves {} (case d_connect dp t l of None \<Rightarrow> \<lambda>w. (Inr (w_next_si w),
           w\<lparr>w_next_si := w_next_si w + 1, w_sessions := w_next_si w # w_sessions w\<rparr>)
       | Some e \<Rightarrow> raise e) (\<lambda>si. {Login si})"
    proof (cases "d_connect dp t l")
      case None
      then show ?thesis using n by simp
    next
      case (Some e)
      then show ?thesis by (intro proc.movesI) auto
    qed
  qed
qed

lemma releases_disconnect: "proc.releases (vim_disconnect dp si) {Login si}"
  unfolding proc.releases_def
  by (auto simp: vim_disconnect_def log_act_def world_wf_def proc_held_def fd_open_def split: option.splits)

lemma moves_connect_vim: "proc.moves {} (connect_vim dp host user pwd port tp allow) (\<lambda>si. {Login si})"
  unfolding connect_vim_def Let_def
  by (intro proc.moves_same_then proc.moves_same_bind moves_smart_connect world_same)
    (auto intro!: world_same same_held_cert_thumbprint split: option.split)

definition session_own :: "NfcAuthSession \<Rightarrow> resource set" where
  "session_own s = {Login (as_si s), Fd (as_authd_sock s)}"

lemma moves_authenticate:
  "proc.moves {} (authenticate dp host user pwd vm port tp allow key path ro ssl) session_own"
  unfolding authenticate_def
proof (rule proc.moves_bind [OF moves_connect_vim], rule proc.moves_on_exception [OF _ releases_disconnect],
    rule proc.holds_same_bind [OF same_held_ticket])
  fix si t
  have "session_own \<lparr>as_si = si, as_ticket = t, as_authd_sock = x, as_nfc_ssl = ssl\<rparr> = {Login si} \<union> {Fd x}" for x
    by (auto simp: session_own_def)
  then have "proc.holds {Login si} (connect_authd dp t allow ssl)
      (\<lambda>x. session_own \<lparr>as_si = si, as_ticket = t, as_authd_sock = x, as_nfc_ssl = ssl\<rparr>)"
    using proc.holds_frame [OF moves_connect_authd, of "{Login si}" dp t allow ssl] by simp
  then show "proc.holds {Login si} (bind_io (connect_authd dp t allow ssl) (\<lambda>authd_sock.
      ret \<lparr>as_si = si, as_ticket = t, as_authd_sock = authd_sock, as_nfc_ssl = ssl\<rparr>)) session_own"
    by (rule proc.holds_map)
qed

lemma auth_close_frees:
  "world_wf w \<Longrightarrow> world_wf (snd (auth_session_close dp s w)) \<and>
     proc_held (snd (auth_session_close dp s w)) = proc_held w - session_own s"
  using releases_close_fd [of "as_authd_sock s"] releases_disconnect [of dp "as_si s"]
  by (auto simp: proc.releases_def auth_session_close_def snd_try_finally session_own_def)

text \<open>\<open>with authenticate(...) as session: body\<close>\<close>

interpretation auth_ctx: bracket world_wf proc_held
  "authenticate dp host user pwd vm port tp allow key path ro ssl" "auth_session_close dp" session_own "\<lambda>s w. True"
  for dp host user pwd vm port tp allow key path ro ssl
  by unfold_locales (auto intro: moves_authenticate simp: auth_close_frees)


subsection \<open>Thumbprints\<close>

lemma hex_digit_inj: "a < 16 \<Longrightarrow> b < 16 \<Longrightarrow> hex_digit a = hex_digit b \<Longrightarrow> a = b"
  by (auto simp: hex_digit_def char_of_eq_iff take_bit_eq_mod split: if_splits)

lemma hex_byte_inj: "hex_byte a = hex_byte b \<Longrightarrow> a = b"
proof -
  assume "hex_byte a = hex_byte b"
  moreover have "unat a < 256" "unat b < 256" using unsigned_less [of a] unsigned_less [of b] by simp_all
  ultimately have "unat a div 16 = unat b div 16" "unat a mod 16 = unat b mod 16"
    by (auto simp: hex_byte_def intro!: hex_digit_inj)
  then have "unat a = unat b" by (metis div_mult_mod_eq)
  then show "a = b" by (simp add: word_unat_eq_iff)
qed

lemma hex_digit_char:
  assumes "n < 16"
  shows "hex_digit n \<noteq> CHR '':'' \<and> hex_digit n \<noteq> CHR '' '' \<and> upper_char (hex_digit n) = hex_digit n"
proof -
  have c: "(of_char (hex_digit n) :: nat) = (if n < 10 then 48 + n else 55 + n)"
    using assms by (simp add: hex_digit_def take_bit_eq_mod)
  have "hex_digit n \<noteq> d" if "(of_char d :: nat) \<notin> {48..<58} \<union> {65..<71}" for d
    using c assms that by (auto split: if_splits)
  then show ?thesis using c assms by (simp add: upper_char_def)
qed

lemma hex_byte_normal: "normalize_thumbprint (hex_byte b @ s) = hex_byte b @ normalize_thumbprint s"
proof -
  have "unat b div 16 < 16" using unsigned_less [of b] by (simp add: div_less_iff_less_mult)
  then show ?thesis
    using hex_digit_char [of "unat b div 16"] hex_digit_char [of "unat b mod 16"]
    by (simp add: normalize_thumbprint_def hex_byte_def)
qed

lemma normalize_format: "normalize_thumbprint (format_thumbprint digest) = concat (map hex_byte digest)"
proof (induction digest)
  case Nil
  then show ?case by (simp add: format_thumbprint_def normalize_thumbprint_def)
next
  case (Cons b bs)
  have colon: "normalize_thumbprint (CHR '':'' # s) = normalize_thumbprint s" for s
    by (simp add: normalize_thumbprint_def)
  show ?case
  proof (cases bs)
    case Nil
    then show ?thesis
      using hex_byte_normal [of b "[]"] by (simp add: format_thumbprint_def normalize_thumbprint_def)
  next
    case (Cons c cs)
    then have "format_thumbprint (b # bs) = hex_byte b @ CHR '':'' # format_thumbprint bs"
      by (simp add: format_thumbprint_def)
    then show ?thesis using Cons.IH hex_byte_normal colon by simp
  qed
qed

lemma concat_hex_inj: "concat (map hex_byte a) = concat (map hex_byte b) \<Longrightarrow> a = b"
proof (induction a arbitrary: b)
  case Nil
  then show ?case by (cases b) (simp_all add: hex_byte_def)
next
  case (Cons x xs)
  then obtain y ys where b: "b = y # ys" by (cases b) (simp_all add: hex_byte_def)
  have len: "length (hex_byte x) = length (hex_byte y)" by (simp add: hex_byte_def)
  then show ?case using Cons b hex_byte_inj by auto
qed

text \<open>
  C37. Thumbprints identify digests: two formatted digests compare equal after normalisation exactly
  when the digests are equal, and the comparison ignores the separators and the case in which a
  thumbprint was written down.
\<close>

theorem thumbprint_faithful:
  "(normalize_thumbprint (format_thumbprint a) = normalize_thumbprint (format_thumbprint b)) = (a = b) \<and>
   normalize_thumbprint (normalize_thumbprint s) = normalize_thumbprint s \<and>
   normalize_thumbprint (concat (map hex_byte a)) = normalize_thumbprint (format_thumbprint a)"
proof -
  have up: "upper_char (upper_char c) = upper_char c" "upper_char c = CHR '':'' \<longleftrightarrow> c = CHR '':''"
    "upper_char c = CHR '' '' \<longleftrightarrow> c = CHR '' ''" for c
    by (auto simp: upper_char_def Let_def char_of_eq_iff take_bit_eq_mod)
  have "normalize_thumbprint (normalize_thumbprint s) = normalize_thumbprint s"
    unfolding normalize_thumbprint_def by (induction s) (simp_all add: up)
  moreover have "normalize_thumbprint (concat (map hex_byte a)) = concat (map hex_byte a)"
    by (induction a) (simp_all add: hex_byte_normal, simp add: normalize_thumbprint_def)
  ultimately show ?thesis
    using concat_hex_inj [of a b] by (auto simp: normalize_format)
qed

subsection \<open>Lines\<close>

lemma sock_recv_1:
  assumes "is_open s" and "avail (rx s) = b # bs"
  shows "sock_recv 1 s = (Inr [b], s\<lparr>rx := consume 1 (rx s)\<rparr>)"
proof -
  have "avail (rx s) \<noteq> []" "0 < (1::nat)" using assms(2) by simp_all
  from sock_recv_avail [OF assms(1) this] obtain got where
    r: "sock_recv 1 s = (Inr got, s\<lparr>rx := consume (length got) (rx s)\<rparr>)" and g: "got \<noteq> []" "length got \<le> 1"
      "got = take (length got) (avail (rx s))" by metis
  have "length got = 1" using g(1,2) by (cases got) auto
  then show ?thesis using r g(3) assms(2) by simp
qed

lemma ends_with_snoc [simp]: "ends_with (buf @ [b]) [c] \<longleftrightarrow> b = c"
  by (simp add: ends_with_def)

lemma not_ends_with_Nil [simp]: "\<not> ends_with [] [c]"
  by (simp add: ends_with_def)

text \<open>One byte of a line that is not its end.\<close>

lemma readline_loop_step:
  assumes "is_open s" and "avail (rx s) = b # bs" and "\<not> ends_with buf [10]"
  shows "readline_loop buf s =
    (if length buf \<ge> 4096
     then (Inl (ConnectionError (Text ''oversized authd response'')), s\<lparr>rx := consume 1 (rx s)\<rparr>)
     else readline_loop (buf @ [b]) (s\<lparr>rx := consume 1 (rx s)\<rparr>))"
  using assms(3) sock_recv_1 [OF assms(1,2)] by (subst readline_loop.simps) simp

lemma readline_loop_line:
  assumes "is_open s" and "avail (rx s) = xs @ 10 # rest" and "10 \<notin> set xs" and "\<not> ends_with buf [10]"
    and "length buf + length xs < 4096"
  shows "readline_loop buf s = (Inr (buf @ xs @ [10]), s\<lparr>rx := consume (Suc (length xs)) (rx s)\<rparr>)"
  using assms
proof (induction xs arbitrary: buf s)
  case Nil
  then show ?case
    using readline_loop_step [of s 10 rest buf] by (simp add: readline_loop.simps [of "buf @ [10]"])
next
  case (Cons x xs)
  let ?s1 = "s\<lparr>rx := consume 1 (rx s)\<rparr>"
  have "readline_loop buf s = readline_loop (buf @ [x]) ?s1"
    using readline_loop_step [of s x "xs @ 10 # rest" buf] Cons.prems by simp
  also have "\<dots> = (Inr ((buf @ [x]) @ xs @ [10]), ?s1\<lparr>rx := consume (Suc (length xs)) (rx ?s1)\<rparr>)"
    using Cons.prems by (intro Cons.IH) auto
  finally show ?case using Cons.prems(2) by simp
qed

lemma readline_loop_long:
  assumes "is_open s" and "avail (rx s) = xs @ rest" and "10 \<notin> set xs" and "\<not> ends_with buf [10]"
    and "length buf + length xs = 4097" and "xs \<noteq> []"
  shows "readline_loop buf s =
    (Inl (ConnectionError (Text ''oversized authd response'')), s\<lparr>rx := consume (length xs) (rx s)\<rparr>)"
  using assms
proof (induction xs arbitrary: buf s)
  case (Cons x xs)
  let ?s1 = "s\<lparr>rx := consume 1 (rx s)\<rparr>"
  show ?case
  proof (cases "xs = []")
    case True
    then show ?thesis using readline_loop_step [of s x rest buf] Cons.prems by simp
  next
    case False
    then obtain y ys where "xs = y # ys" by (cases xs) auto
    then have "length buf < 4096" using Cons.prems(5) by simp
    then have "readline_loop buf s = readline_loop (buf @ [x]) ?s1"
      using readline_loop_step [of s x "xs @ rest" buf] Cons.prems by simp
    also have "\<dots> = (Inl (ConnectionError (Text ''oversized authd response'')),
        ?s1\<lparr>rx := consume (length xs) (rx ?s1)\<rparr>)"
      using Cons.prems False by (intro Cons.IH) auto
    finally show ?thesis using Cons.prems(2) by simp
  qed
qed simp

definition text_line :: "byte list \<Rightarrow> string" where
  "text_line bs = rstrip_crlf (decode_ascii_replace bs)"

lemma text_line_newline: "text_line (xs @ [10]) = text_line xs"
proof -
  have "char_of (10 :: nat) = CHR 0x0A" by (simp add: char_of_eq_iff)
  then show ?thesis by (simp add: text_line_def rstrip_crlf_def decode_ascii_replace_def)
qed

lemma readline_line:
  assumes "is_open s" and "avail (rx s) = line @ 10 # rest" and "10 \<notin> set line" and "length line < 4096"
  shows "readline s = (Inr (text_line line), s\<lparr>rx := consume (Suc (length line)) (rx s)\<rparr>)"
  using readline_loop_line [OF assms(1,2,3), of "[]"] assms(4) text_line_newline [of line]
  by (simp add: readline_def text_line_def)

text \<open>
  \<open>_readline\<close> reads exactly one line, byte by byte: it returns the text before the first newline
  without its line end and leaves everything after the newline in the stream, which the TLS handshake
  that follows the banner depends on. A line of more than 4096 bytes is refused after 4097 of them.
\<close>

theorem readline_reads_one_line:
  assumes "is_open s" and "10 \<notin> set line"
  shows "(length line < 4096 \<longrightarrow> avail (rx s) = line @ 10 # rest \<longrightarrow>
      (\<exists>es. readline s = (Inr (text_line line), s\<lparr>rx := es\<rparr>) \<and> avail es = rest)) \<and>
    (length line = 4097 \<longrightarrow> avail (rx s) = line @ rest \<longrightarrow>
      (\<exists>es. readline s = (Inl (ConnectionError (Text ''oversized authd response'')), s\<lparr>rx := es\<rparr>) \<and> avail es = rest))"
proof (intro conjI impI)
  assume "length line < 4096" "avail (rx s) = line @ 10 # rest"
  then show "\<exists>es. readline s = (Inr (text_line line), s\<lparr>rx := es\<rparr>) \<and> avail es = rest"
    using readline_line [OF assms(1)] assms(2) by (intro exI [of _ "consume (Suc (length line)) (rx s)"]) simp
next
  assume l: "length line = 4097" "avail (rx s) = line @ rest"
  then have "line \<noteq> []" by auto
  then show "\<exists>es. readline s = (Inl (ConnectionError (Text ''oversized authd response'')), s\<lparr>rx := es\<rparr>) \<and> avail es = rest"
    using readline_loop_long [OF assms(1) l(2) assms(2), of "[]"] l
    by (intro exI [of _ "consume (length line) (rx s)"]) (simp add: readline_def)
qed

theorem readline_reads_one_line_witness:
  "\<exists>es. readline (demo_sock [Data [50, 50], Data [48, 13, 10, 9]]) =
     (Inr ''220'', (demo_sock [Data [50, 50], Data [48, 13, 10, 9]])\<lparr>rx := es\<rparr>) \<and> avail es = [9]"
proof -
  let ?s = "demo_sock [Data [50, 50], Data [48, 13, 10, 9]]"
  have "is_open ?s" "text_line [50, 50, 48, 13] = ''220''" "avail (rx ?s) = [50, 50, 48, 13] @ 10 # [9]"
    "(10 :: byte) \<notin> set [50, 50, 48, 13]" by code_simp+
  then show ?thesis
    using readline_reads_one_line [of ?s "[50, 50, 48, 13]" "[9]"] by simp
qed

subsection \<open>The authd dialogue\<close>

definition is_ascii :: "string \<Rightarrow> bool" where
  "is_ascii s = list_all (\<lambda>c. (of_char c :: nat) < 128) s"

lemma send_ascii_ok:
  "is_ascii line \<Longrightarrow> is_open s \<Longrightarrow> room s = None \<Longrightarrow>
     send_ascii line s = (Inr (), s\<lparr>tx := tx s @ map byte_of_char line\<rparr>)"
  by (simp add: send_ascii_def encode_ascii_def is_ascii_def)

lemma is_ascii_append [simp]: "is_ascii (a @ b) \<longleftrightarrow> is_ascii a \<and> is_ascii b"
  by (simp add: is_ascii_def)

lemma is_ascii_literals [simp]:
  "is_ascii ''SESSION ''" "is_ascii ''BANNER ''" "is_ascii ''THUMBPRINT_SHA2 PlainText''" "is_ascii ''PROXY ''"
  "is_ascii crlf"
  by (simp_all add: is_ascii_def crlf_def)

text \<open>A reply line that starts with a code.\<close>

definition reply_line :: "string \<Rightarrow> byte list \<Rightarrow> bool" where
  "reply_line code l \<longleftrightarrow> 10 \<notin> set l \<and> length l < 4096 \<and> starts_with (text_line l) code"

lemma expect_code_ok: "starts_with line code \<Longrightarrow> \<exists>x. expect_code line code what = Inr x"
  by (simp add: expect_code_def)

lemma read_reply:
  assumes "is_open s" and "avail (rx s) = l @ 10 # rest" and "reply_line code l"
  shows "bind_io readline (\<lambda>line. then_io (lift (expect_code line code what)) k) s =
    k (s\<lparr>rx := consume (Suc (length l)) (rx s)\<rparr>)"
proof -
  obtain x where "expect_code (text_line l) code what = Inr x"
    using assms(3) expect_code_ok [of "text_line l" code what] by (auto simp: reply_line_def)
  then show ?thesis
    using readline_line [OF assms(1,2)] assms(3) by (simp add: reply_line_def then_io_def)
qed

definition authd_script :: "ticket \<Rightarrow> bool \<Rightarrow> string" where
  "authd_script t ssl = ''SESSION '' @ tk_session_id t @ crlf @ ''BANNER '' @ crlf @
     ''THUMBPRINT_SHA2 PlainText'' @ crlf @ ''PROXY '' @ ticket_service t ssl @ crlf"

lemma authd_commands_ok:
  assumes "is_open s" and "room s = None" and "is_ascii (tk_session_id t)" and "is_ascii (ticket_service t ssl)"
    and "avail (rx s) = l1 @ 10 # l2 @ 10 # l3 @ 10 # rest"
    and "reply_line ''220'' l1" and "reply_line ''200'' l2" and "reply_line ''200'' l3"
  shows "authd_commands t ssl s = (Inr (),
    s\<lparr>rx := consume (Suc (length l1) + Suc (length l2) + Suc (length l3)) (rx s),
      tx := tx s @ map byte_of_char (authd_script t ssl)\<rparr>)"
proof -
  define A where "A = ''SESSION '' @ tk_session_id t @ crlf"
  define B where "B = ''BANNER '' @ crlf"
  define C where "C = ''THUMBPRINT_SHA2 PlainText'' @ crlf"
  define D where "D = ''PROXY '' @ ticket_service t ssl @ crlf"
  have ascii: "is_ascii A" "is_ascii B" "is_ascii C" "is_ascii D"
    using assms(3,4) unfolding A_def B_def C_def D_def by (simp_all only: is_ascii_append is_ascii_literals simp_thms)
  have script: "authd_script t ssl = A @ B @ C @ D"
    by (simp add: authd_script_def A_def B_def C_def D_def)
  let ?k1 = "Suc (length l1)" and ?k2 = "Suc (length l2)" and ?k3 = "Suc (length l3)"
  let ?m = "map byte_of_char"
  let ?s1 = "s\<lparr>tx := tx s @ ?m A @ ?m B\<rparr>"
  let ?s2 = "s\<lparr>rx := consume ?k1 (rx s), tx := tx s @ ?m A @ ?m B @ ?m C\<rparr>"
  let ?s3 = "s\<lparr>rx := consume (Suc (Suc (length l1 + length l2))) (rx s), tx := tx s @ ?m A @ ?m B @ ?m C @ ?m D\<rparr>"
  have av1: "avail (rx ?s1) = l1 @ 10 # l2 @ 10 # l3 @ 10 # rest" using assms(5) by simp
  have av2: "avail (rx ?s2) = l2 @ 10 # l3 @ 10 # rest" using assms(5) by simp
  have av3: "avail (rx ?s3) = l3 @ 10 # rest" using assms(5) by simp
  have open': "is_open ?s1" "is_open ?s2" "is_open ?s3" using assms(1) by simp_all
  show ?thesis
    unfolding script authd_commands_def A_def [symmetric] B_def [symmetric] C_def [symmetric] D_def [symmetric]
    using assms(1,2,5) ascii
    by (simp add: send_ascii_ok read_reply [OF open'(1) av1 assms(6)] read_reply [OF open'(2) av2 assms(7)]
        read_reply [OF open'(3) av3 assms(8)])
qed

lemma avail_three_lines:
  assumes "avail (rx s) = l1 @ 10 # l2 @ 10 # l3 @ 10 # rest"
  shows "avail (consume (Suc (length l1) + Suc (length l2) + Suc (length l3)) (rx s)) = rest"
proof -
  let ?xs = "l1 @ 10 # l2 @ 10 # l3 @ [10]"
  have "avail (rx s) = ?xs @ rest" and "Suc (length l1) + Suc (length l2) + Suc (length l3) = length ?xs"
    using assms by simp_all
  then show ?thesis by (metis append_eq_conv_conj avail_consume le_add1 length_append)
qed

text \<open>
  The authd dialogue. With a server that answers 220, 200 and 200, the client sends exactly the
  four commands of the protocol, with the session id of the ticket and the NFC service (its SSL variant
  for NBDSSL) of the ticket, and leaves the stream at the first byte after the last answer.
\<close>

theorem authd_dialogue:
  assumes "is_open s" and "room s = None" and "is_ascii (tk_session_id t)" and "is_ascii (ticket_service t ssl)"
    and "avail (rx s) = l1 @ 10 # l2 @ 10 # l3 @ 10 # rest"
    and "reply_line ''220'' l1" and "reply_line ''200'' l2" and "reply_line ''200'' l3"
  shows "\<exists>s'. authd_commands t ssl s = (Inr (), s') \<and> is_open s' \<and>
    tx s' = tx s @ map byte_of_char (authd_script t ssl) \<and> avail (rx s') = rest"
  using authd_commands_ok [OF assms] assms(1) avail_three_lines [OF assms(5)] by simp

definition demo_ticket :: ticket where
  "demo_ticket = \<lparr>tk_host = ''esx'', tk_port = None, tk_service = Some ''vpxa-nfc'', tk_session_id = ''52'',
     tk_thumbprint = Some ''0a:FF''\<rparr>"

definition demo_authd_sock :: sock where
  "demo_authd_sock = demo_sock [Data (map byte_of_char (''220 ok'' @ crlf)),
     Data (map byte_of_char (''200 ok'' @ crlf @ ''200 Connect'' @ crlf)), Data [9]]"

theorem authd_dialogue_witness:
  "\<exists>s'. authd_commands demo_ticket True demo_authd_sock = (Inr (), s') \<and> avail (rx s') = [9] \<and>
     tx s' = map byte_of_char (''SESSION 52'' @ crlf @ ''BANNER '' @ crlf @ ''THUMBPRINT_SHA2 PlainText'' @ crlf @
       ''PROXY vpxa-nfcssl'' @ crlf)"
proof -
  let ?l1 = "map byte_of_char ''220 ok'' @ [13]" and ?l2 = "map byte_of_char ''200 ok'' @ [13]"
  let ?l3 = "map byte_of_char ''200 Connect'' @ [13]"
  have "is_open demo_authd_sock" "room demo_authd_sock = None" "tx demo_authd_sock = []"
    "is_ascii (tk_session_id demo_ticket)" "is_ascii (ticket_service demo_ticket True)"
    "reply_line ''220'' ?l1" "reply_line ''200'' ?l2" "reply_line ''200'' ?l3"
    "avail (rx demo_authd_sock) = ?l1 @ 10 # ?l2 @ 10 # ?l3 @ 10 # [9]"
    "authd_script demo_ticket True = ''SESSION 52'' @ crlf @ ''BANNER '' @ crlf @
       ''THUMBPRINT_SHA2 PlainText'' @ crlf @ ''PROXY vpxa-nfcssl'' @ crlf"
    by code_simp+
  with authd_dialogue [of demo_authd_sock demo_ticket True ?l1 ?l2 ?l3 "[9]"] show ?thesis by auto
qed

end
