(* ===== verification/NfcLogin.thy ===== *)
theory NfcLogin
  imports NfcAuthSpec
begin

text \<open>
  What is asked of the VIM server and of authd, and under which certificate: pinning of the management
  and of the ESXi certificate, the choice of the ticket call, the device key of a disk path, and the
  context manager of \<open>NfcAuthSession\<close>.
\<close>

subsection \<open>What an effect adds to the log\<close>

definition logs_only :: "(act \<Rightarrow> bool) \<Rightarrow> world \<Rightarrow> world \<Rightarrow> bool" where
  "logs_only Q w w' \<longleftrightarrow> (\<exists>acts. w_log w' = w_log w @ acts \<and> list_all Q acts)"

interpretation logq: state_preorder "logs_only Q" for Q
proof unfold_locales
  show "logs_only Q w w" for w by (simp add: logs_only_def)
  show "logs_only Q w u" if a: "logs_only Q w v" and b: "logs_only Q v u" for w v u
  proof -
    obtain x where "w_log v = w_log w @ x" "list_all Q x" using a by (auto simp: logs_only_def)
    moreover obtain y where "w_log u = w_log v @ y" "list_all Q y" using b by (auto simp: logs_only_def)
    ultimately show ?thesis by (auto simp: logs_only_def)
  qed
qed

lemma logs_log_act: "Q a \<Longrightarrow> keeps (logs_only Q) (log_act a)"
  by (auto simp: keeps_def logs_only_def log_act_def)

lemma logs_same: "(\<And>w. w_log (snd (m w)) = w_log w) \<Longrightarrow> keeps (logs_only Q) m"
  by (auto simp: keeps_def logs_only_def)

lemma logs_world:
  "keeps (logs_only Q) next_layer" "keeps (logs_only Q) (on_sock fd m)" "keeps (logs_only Q) (check_open fd)"
  "keeps (logs_only Q) (close_fd fd)" "keeps (logs_only Q) (detach fd)" "keeps (logs_only Q) (getpeercert fd)"
  "keeps (logs_only Q) set_registered"
  by (rule logs_same; auto simp: next_layer_def on_sock_def check_open_def close_fd_def detach_def getpeercert_def
      then_io_def bind_io_def set_registered_def split: list.splits net_event.splits option.splits prod.splits)+

lemma logs_register: "(\<And>t. Q (Vim (CreateManagedType t))) \<Longrightarrow> keeps (logs_only Q) (register_nfc_types dp)"
  unfolding keeps_def register_nfc_types_def
  by (auto simp: logs_only_def set_registered_def log_act_def then_io_def split: option.split)

text \<open>Connections and handshakes, no remote call.\<close>

fun is_net :: "act \<Rightarrow> bool" where
  "is_net (Vim c) = False"
| "is_net _ = True"

lemma logs_cert_thumbprint: "keeps (logs_only is_net) (get_ssl_cert_thumbprint dp host port alg ctx)"
  unfolding get_ssl_cert_thumbprint_def Let_def create_connection_def wrap_socket_def
  by (intro logq.keeps_intros logs_world logs_log_act)
    (auto intro!: logq.keeps_intros split: option.split)

subsection \<open>The management certificate\<close>

lemma on_sock_cert: "w_cert (snd (on_sock fd m w)) = w_cert w"
  by (simp add: on_sock_def split: option.splits prod.splits)

lemma close_fd_cert: "close_fd fd w = (r, w') \<Longrightarrow> w_cert w' = w_cert w"
  using on_sock_cert [of fd sock_close w] by (simp add: close_fd_def)

lemma getpeercert_InrD: "getpeercert fd w = (Inr c, w') \<Longrightarrow> w' = w \<and> c = w_cert w fd \<and> fd_open w fd"
  by (auto simp: getpeercert_def io_iffs check_open_def split: if_splits)

lemma cert_thumbprint_InrD:
  assumes "get_ssl_cert_thumbprint dp host port alg ctx w = (Inr peer, w')"
  shows "\<exists>fd der h. w_cert w' fd = Some der \<and> d_hash dp alg = Some h \<and> peer = format_thumbprint (h der)"
proof -
  from assms obtain cert w1 fd ssock w2 w3 where
    c: "getpeercert ssock w2 = (Inr cert, w3)" and w1: "w_cert w1 = w_cert w3"
    and k: "(case cert of None \<Rightarrow> raise (ConnectionError (NoPeerCert host port))
         | Some der \<Rightarrow>
             if der = [] then raise (ConnectionError (NoPeerCert host port))
             else (case d_hash dp alg of
                     None \<Rightarrow> raise (ValueError (Text (''unsupported hash type '' @ alg)))
                   | Some h \<Rightarrow> ret (format_thumbprint (h der)))) w1 = (Inr peer, w')"
    unfolding get_ssl_cert_thumbprint_def Let_def
    by (fastforce simp: bind_io_Inr_iff dest!: try_finally_InrD close_fd_cert)
  from k obtain der h where "cert = Some der" "d_hash dp alg = Some h" "peer = format_thumbprint (h der)" "w' = w1"
    by (auto split: option.splits if_splits)
  then show ?thesis using getpeercert_InrD [OF c] w1 by metis
qed

definition login_args :: "string \<Rightarrow> string \<Rightarrow> string \<Rightarrow> nat \<Rightarrow> string option \<Rightarrow> bool \<Rightarrow> string list \<Rightarrow> vim_login" where
  "login_args host user pwd port tp allow versions =
     \<lparr>vl_host = host, vl_user = user, vl_pwd = pwd, vl_port = port, vl_thumbprint = tp,
      vl_context = (if allow \<or> truthy tp then Some (ssl_client_context False) else None),
      vl_no_validation = (allow \<or> truthy tp), vl_versions = versions\<rparr>"

definition pin_effect :: "deps \<Rightarrow> string \<Rightarrow> nat \<Rightarrow> string option \<Rightarrow> bool \<Rightarrow> (world, unit) io" where
  "pin_effect dp host port thumbprint allow_untrusted =
     (case thumbprint of
          Some tp \<Rightarrow>
            if tp \<noteq> [] \<and> \<not> allow_untrusted
            then bind_io (get_ssl_cert_thumbprint dp host port ''sha1'' None) (\<lambda>peer.
                 raise_if (normalize_thumbprint peer \<noteq> normalize_thumbprint tp)
                   (ConnectionError (Text (''management SSL thumbprint mismatch: got '' @ peer @
                      '', expected '' @ tp))))
            else ret ()
        | None \<Rightarrow> ret ())"

lemma connect_vim_alt:
  "connect_vim dp host user pwd port tp allow =
     then_io (pin_effect dp host port tp allow)
     (bind_io (lift (vim_preferred_api_versions dp)) (\<lambda>versions.
      smart_connect dp (login_args host user pwd port tp allow versions)))"
  by (simp add: connect_vim_def pin_effect_def login_args_def Let_def)

lemma logs_pin_effect: "keeps (logs_only is_net) (pin_effect dp host port tp allow)"
  unfolding pin_effect_def
  by (auto intro!: logq.keeps_intros logs_cert_thumbprint split: option.split)

lemma pin_effect_InrD:
  assumes "pin_effect dp host port tp allow w = (Inr u, w')"
  shows "allow \<or> \<not> truthy tp \<or> (\<exists>fd der h. w_cert w' fd = Some der \<and> d_hash dp ''sha1'' = Some h \<and>
    Some (concat (map hex_byte (h der))) = map_option normalize_thumbprint tp)"
proof (cases "tp = None \<or> tp = Some [] \<or> allow")
  case False
  then obtain x where x: "tp = Some x" "x \<noteq> []" "\<not> allow" by auto
  then obtain peer w1 where g: "get_ssl_cert_thumbprint dp host port ''sha1'' None w = (Inr peer, w1)"
    and "w1 = w'" "normalize_thumbprint peer = normalize_thumbprint x"
    using assms by (auto simp: pin_effect_def bind_io_Inr_iff raise_if_def split: if_splits)
  then show ?thesis using cert_thumbprint_InrD [OF g] x normalize_format by fastforce
qed auto

lemma smart_connect_state:
  "w_cert (snd (smart_connect dp l w)) = w_cert w \<and> w_log (snd (smart_connect dp l w)) = w_log w @ [Vim (SmartConnect l)]"
  by (simp add: smart_connect_def log_act_def split: option.split)

lemma versions_InrD:
  "vim_preferred_api_versions dp = Inr vs \<Longrightarrow> vs \<noteq> [] \<and> list_all (\<lambda>v. starts_with v ''vim.version.v8_'') vs"
  by (auto simp: vim_preferred_api_versions_def Let_def list_all_iff split: if_splits)

text \<open>
  C13. The password leaves the process only after the pin. If \<open>connect_vim\<close> makes a login call at all, it
  makes one, as its last act, with the arguments of the caller and with pyVmomi versions of the 8.x
  family only; and with a thumbprint and without \<open>allow_untrusted\<close>, a certificate was received before it
  whose SHA-1 digest is exactly the one the thumbprint spells. Certificate validation is left to the
  system only when there is neither.
\<close>

theorem login_after_pin:
  assumes "connect_vim dp host user pwd port tp allow w = (r, w')"
  shows "(\<exists>acts. w_log w' = w_log w @ acts \<and> list_all is_net acts \<and> (\<exists>e. r = Inl e)) \<or>
    (\<exists>acts vs. w_log w' = w_log w @ acts @ [Vim (SmartConnect (login_args host user pwd port tp allow vs))] \<and>
       list_all is_net acts \<and> vs \<noteq> [] \<and> list_all (\<lambda>v. starts_with v ''vim.version.v8_'') vs \<and>
       (allow \<or> \<not> truthy tp \<or> (\<exists>fd der h. w_cert w' fd = Some der \<and> d_hash dp ''sha1'' = Some h \<and>
          Some (concat (map hex_byte (h der))) = map_option normalize_thumbprint tp)))"
proof -
  obtain rp w1 where p: "pin_effect dp host port tp allow w = (rp, w1)" by (cases "pin_effect dp host port tp allow w")
  obtain acts where acts: "w_log w1 = w_log w @ acts" "list_all is_net acts"
    using keepsD [OF logs_pin_effect p] by (auto simp: logs_only_def)
  show ?thesis
  proof (cases rp)
    case (Inl e)
    then show ?thesis using assms p acts by (auto simp: connect_vim_alt)
  next
    case (Inr u)
    note pin = pin_effect_InrD [OF p [unfolded Inr]]
    show ?thesis
    proof (cases "vim_preferred_api_versions dp")
      case Inl': (Inl e)
      then show ?thesis using assms p acts Inr by (auto simp: connect_vim_alt)
    next
      case Inr': (Inr vs)
      let ?l = "login_args host user pwd port tp allow vs"
      have "w' = snd (smart_connect dp ?l w1)" using assms p Inr Inr' by (simp add: connect_vim_alt)
      then have "w_cert w' = w_cert w1" "w_log w' = w_log w @ acts @ [Vim (SmartConnect ?l)]"
        using smart_connect_state [of dp ?l w1] acts by simp_all
      then show ?thesis using versions_InrD [OF Inr'] pin acts(2) by auto
    qed
  qed
qed

definition demo_chain :: "backing option" where
  "demo_chain = Some (Backing (Some ''[ds] vm/vm-000001.vmdk'') (Some (Backing (Some ''[ds] vm/vm.vmdk'') None)))"

definition demo_deps :: deps where
  "demo_deps = \<lparr>d_sha1 = (\<lambda>_. [10, 255]), d_hash = (\<lambda>_. Some (\<lambda>_. [10, 255])),
     d_service_versions = (\<lambda>_. [''vim.version.v9_0_0_0'', ''vim.version.v8_0_2_0'']), d_F_OPTIONAL = 2,
     d_has_nfc_type = False, d_create_type = (\<lambda>_. None), d_connect = (\<lambda>_ _. None), d_disconnect = (\<lambda>_ _. None),
     d_devices = (\<lambda>_ _ _. Inr [OtherDevice 200, VirtualDisk 2000 demo_chain]),
     d_runtime_host = (\<lambda>_ _ _. Inr ''host-1''), d_vm_files = (\<lambda>_ _ _. Inr demo_ticket),
     d_open_readonly = (\<lambda>_ _ _ _ _. Inr demo_ticket), d_open_disk = (\<lambda>_ _ _ _ _. Inr demo_ticket)\<rparr>"

definition demo_world :: "net_event list \<Rightarrow> world" where
  "demo_world es = \<lparr>w_socks = (\<lambda>_. None), w_cert = (\<lambda>_. None), w_next = 3, w_script = es, w_nodelay = [],
     w_disks = (\<lambda>_. None), w_sessions = [], w_next_si = 0, w_registered = False, w_log = []\<rparr>"

definition demo_mgmt :: "net_event list" where
  "demo_mgmt = [Accept (demo_sock []) None, Accept (demo_sock []) (Some [1])]"

theorem login_after_pin_witness:
  "\<exists>r w' acts vs. connect_vim demo_deps ''vc'' ''u'' ''p'' 443 (Some ''0a:ff'') False (demo_world demo_mgmt) = (r, w') \<and>
     w_log w' = acts @ [Vim (SmartConnect (login_args ''vc'' ''u'' ''p'' 443 (Some ''0a:ff'') False vs))] \<and>
     list_all is_net acts \<and> (\<exists>fd der. w_cert w' fd = Some der)"
proof -
  let ?run = "connect_vim demo_deps ''vc'' ''u'' ''p'' 443 (Some ''0a:ff'') False (demo_world demo_mgmt)"
  obtain r w' where run: "?run = (r, w')" by (cases ?run)
  have "\<not> list_all is_net (w_log (snd ?run))" "w_log (demo_world demo_mgmt) = []" by code_simp+
  then have "\<not> list_all is_net (w_log w')" "w_log (demo_world demo_mgmt) = []" unfolding run by simp_all
  with login_after_pin [OF run] run show ?thesis by auto
qed

subsection \<open>The ESXi certificate\<close>

lemma next_layer_InrD:
  "next_layer w = (Inr fd, w') \<Longrightarrow> \<exists>s. w_socks w' fd = Some s \<and> is_open s \<and> tx s = []"
  by (auto simp: next_layer_def split: list.splits net_event.splits)

lemma authd_connect_InrD:
  "authd_connect t w = (Inr fd, w') \<Longrightarrow> \<exists>s. w_socks w' fd = Some s \<and> is_open s \<and> tx s = []"
  by (auto simp: authd_connect_def wrap_socket_def io_iffs split: if_splits
      dest!: on_exception_InrD next_layer_InrD)

interpretation certq: state_preorder "\<lambda>w w'. w_cert w' = w_cert w"
  by unfold_locales auto

definition cert_matches :: "deps \<Rightarrow> string \<Rightarrow> byte list option \<Rightarrow> bool" where
  "cert_matches dp tp cert \<longleftrightarrow> (case cert of None \<Rightarrow> False
     | Some der \<Rightarrow> der \<noteq> [] \<and> concat (map hex_byte (d_sha1 dp der)) = normalize_thumbprint tp)"

lemma check_thumbprint_eq:
  assumes "tk_thumbprint t = Some tp" and "tp \<noteq> []" and "fd_open w fd"
  shows "\<exists>e. check_thumbprint dp t False fd w = (if cert_matches dp tp (w_cert w fd) then Inr () else Inl e, w)"
  using assms
  by (auto simp: check_thumbprint_def getpeercert_def check_open_def then_io_def cert_matches_def
      sha1_thumbprint_def normalize_format Let_def raise_if_def split: option.splits)

text \<open>
  C14. Nothing is sent to an ESXi host whose certificate does not match the ticket. With a thumbprint in
  the ticket and without \<open>allow_untrusted\<close>, when TLS is up (\<open>authd_connect\<close> returned the socket \<open>fd\<close>) and
  the certificate is missing or its SHA-1 digest is not the one that the thumbprint spells,
  \<open>connect_authd\<close> raises, the socket is closed, and not a byte, in particular not the session id, has
  been sent over it; when \<open>connect_authd\<close> returns, the certificate does match.
\<close>

theorem authd_pinned:
  assumes "authd_connect t w = (Inr fd, w1)" and "tk_thumbprint t = Some tp" and "tp \<noteq> []"
    and "connect_authd dp t False ssl w = (r, w')"
  shows "if cert_matches dp tp (w_cert w1 fd) then w_cert w' fd = w_cert w1 fd
    else (\<exists>e s. r = Inl e \<and> w_socks w' fd = Some s \<and> \<not> is_open s \<and> tx s = [])"
proof -
  obtain s where s: "w_socks w1 fd = Some s" "is_open s" "tx s = []" using authd_connect_InrD [OF assms(1)] by blast
  then have "fd_open w1 fd" by (simp add: fd_open_def)
  then obtain e where chk: "check_thumbprint dp t False fd w1 =
      (if cert_matches dp tp (w_cert w1 fd) then Inr () else Inl e, w1)"
    using check_thumbprint_eq [OF assms(2,3)] by blast
  have run: "connect_authd dp t False ssl w = on_exception
      (then_io (check_thumbprint dp t False fd) (then_io (on_sock fd (authd_commands t ssl)) (ret fd))) (close_fd fd) w1"
    using assms(1) by (simp add: connect_authd_def)
  show ?thesis
  proof (cases "cert_matches dp tp (w_cert w1 fd)")
    case True
    have "keeps (\<lambda>w w'. w_cert w' = w_cert w) (on_exception
        (then_io (on_sock fd (authd_commands t ssl)) (ret fd)) (close_fd fd))"
      by (intro certq.keeps_intros) (simp_all add: keeps_def on_sock_cert close_fd_def)
    moreover have "on_exception (then_io (on_sock fd (authd_commands t ssl)) (ret fd)) (close_fd fd) w1 = (r, w')"
      using assms(4) run chk True by (simp add: on_exception_def catch_io_def)
    ultimately have "w_cert w' = w_cert w1" by (rule keepsD)
    then show ?thesis using True by simp
  next
    case False
    have "close_fd fd w1 = (case close_fault s of None \<Rightarrow> Inr () | Some e \<Rightarrow> Inl e,
        w1\<lparr>w_socks := (w_socks w1)(fd \<mapsto> s\<lparr>is_open := False\<rparr>)\<rparr>)"
      using s by (simp add: close_fd_def on_sock_def sock_close_def)
    then show ?thesis
      using assms(4) run chk False s
      by (auto simp: on_exception_def catch_io_def then_io_def bind_io_def split: option.splits)
  qed
qed

definition demo_authd :: "byte list option \<Rightarrow> net_event list" where
  "demo_authd cert = [Accept (demo_sock [Data (map byte_of_char (''220 authd'' @ crlf))]) None,
     Accept demo_authd_sock cert]"

theorem authd_pinned_witness:
  "\<exists>r w' e s. connect_authd (demo_deps\<lparr>d_sha1 := \<lambda>_. [1]\<rparr>) demo_ticket False True (demo_world (demo_authd (Some [7]))) = (r, w') \<and>
     r = Inl e \<and> w_socks w' 4 = Some s \<and> \<not> is_open s \<and> tx s = []"
proof -
  let ?dp = "demo_deps\<lparr>d_sha1 := \<lambda>_. [1]\<rparr>" and ?w = "demo_world (demo_authd (Some [7]))"
  obtain w1 where w1: "authd_connect demo_ticket ?w = (Inr 4, w1)" and c: "w_cert w1 4 = Some [7]"
  proof -
    have "fst (authd_connect demo_ticket ?w) = Inr 4" "w_cert (snd (authd_connect demo_ticket ?w)) 4 = Some [7]"
      by code_simp+
    then show thesis using that by (metis prod.collapse)
  qed
  obtain r w' where run: "connect_authd ?dp demo_ticket False True ?w = (r, w')" by (metis prod.collapse)
  have "tk_thumbprint demo_ticket = Some ''0a:FF''" "\<not> cert_matches ?dp ''0a:FF'' (Some [7])" by code_simp+
  with authd_pinned [OF w1 _ _ run] run c show ?thesis by simp
qed

lemmas layer_ops = log_act_def next_layer_def on_sock_def check_open_def detach_def fd_open_def then_io_def bind_io_def
  on_exception_def catch_io_def raise_if_def

subsection \<open>The whole authd connection\<close>

lemma connect_authd_ok:
  assumes "w_script w = Accept s0 cert0 # Accept s1 cert # es" and "room s1 = None"
    and "avail (rx s0) = l0 @ 10 # rest0" and "reply_line ''220'' l0"
    and "avail (rx s1) = l1 @ 10 # l2 @ 10 # l3 @ 10 # rest"
    and "reply_line ''220'' l1" and "reply_line ''200'' l2" and "reply_line ''200'' l3"
    and "is_ascii (tk_session_id t)" and "is_ascii (ticket_service t ssl)"
    and "case tk_thumbprint t of None \<Rightarrow> True | Some tp \<Rightarrow> allow \<or> tp = [] \<or> cert_matches dp tp cert"
  shows "connect_authd dp t allow ssl w = (Inr (w_next w + 1),
    w\<lparr>w_script := es, w_next := w_next w + 2, w_log := w_log w @ [Dial (tk_host t) (ticket_port t),
      Hello (tk_host t) (ssl_client_context False)],
      w_cert := (w_cert w)(w_next w := cert0, w_next w + 1 := cert),
      w_socks := (w_socks w)(w_next w \<mapsto> s0\<lparr>tx := [], rx := consume (Suc (length l0)) (rx s0), is_open := False\<rparr>,
        w_next w + 1 \<mapsto> s1\<lparr>is_open := True, rx := consume (Suc (length l1) + Suc (length l2) + Suc (length l3)) (rx s1),
          tx := map byte_of_char (authd_script t ssl)\<rparr>)\<rparr>)"
proof -
  let ?fd = "w_next w" and ?s0 = "s0\<lparr>tx := [], is_open := True\<rparr>" and ?s1 = "s1\<lparr>tx := [], is_open := True\<rparr>"
  let ?p = "?s0\<lparr>rx := consume (Suc (length l0)) (rx s0), is_open := False\<rparr>"
  let ?w1 = "w\<lparr>w_script := es, w_next := ?fd + 2, w_log := w_log w @ [Dial (tk_host t) (ticket_port t),
      Hello (tk_host t) (ssl_client_context False)], w_socks := (w_socks w)(?fd \<mapsto> ?p, ?fd + 1 \<mapsto> ?s1),
      w_cert := (w_cert w)(?fd := cert0, ?fd + 1 := cert)\<rparr>"
  have banner: "readline ?s0 = (Inr (text_line l0), ?s0\<lparr>rx := consume (Suc (length l0)) (rx s0)\<rparr>)"
    using readline_line [of ?s0 l0 rest0] assms(3,4) by (simp add: reply_line_def)
  have "authd_connect t w = (Inr (?fd + 1), ?w1)"
    using assms(1,4) banner
    by (simp add: authd_connect_def create_connection_def wrap_socket_def layer_ops reply_line_def)
  moreover have "check_thumbprint dp t allow (?fd + 1) ?w1 = (Inr (), ?w1)"
    using assms(11) check_thumbprint_eq [of t _ ?w1 "?fd + 1" dp]
    by (auto simp: check_thumbprint_def fd_open_def split: option.splits)
  moreover have "on_sock (?fd + 1) (authd_commands t ssl) ?w1 = (Inr (), ?w1\<lparr>w_socks := (w_socks w)(?fd \<mapsto> ?p, ?fd + 1 \<mapsto>
      ?s1\<lparr>rx := consume (Suc (length l1) + Suc (length l2) + Suc (length l3)) (rx s1),
          tx := map byte_of_char (authd_script t ssl)\<rparr>)\<rparr>)"
    using authd_commands_ok [of ?s1 t ssl l1 l2 l3 rest] assms(2,5-10) by (simp add: on_sock_def)
  ultimately show ?thesis
    by (simp add: connect_authd_def on_exception_def catch_io_def)
qed

text \<open>
  C32. The authd connection. With a host that greets with 220, completes TLS with an acceptable certificate
  and answers the four commands, \<open>connect_authd\<close> dials the host and port of the ticket (902 by default), takes
  the plain-text connection over into TLS without validation by the system store, sends exactly the four
  commands over TLS and nothing in plain text, and returns the TLS socket, open, with the stream right after
  the last answer.
\<close>

theorem connect_authd_establishes:
  assumes "w_script w = Accept s0 cert0 # Accept s1 cert # es" and "room s1 = None"
    and "avail (rx s0) = l0 @ 10 # rest0" and "reply_line ''220'' l0"
    and "avail (rx s1) = l1 @ 10 # l2 @ 10 # l3 @ 10 # rest"
    and "reply_line ''220'' l1" and "reply_line ''200'' l2" and "reply_line ''200'' l3"
    and "is_ascii (tk_session_id t)" and "is_ascii (ticket_service t ssl)"
    and "case tk_thumbprint t of None \<Rightarrow> True | Some tp \<Rightarrow> allow \<or> tp = [] \<or> cert_matches dp tp cert"
  shows "\<exists>w' p s'. connect_authd dp t allow ssl w = (Inr (w_next w + 1), w') \<and>
    w_socks w' (w_next w) = Some p \<and> \<not> is_open p \<and> tx p = [] \<and>
    w_socks w' (w_next w + 1) = Some s' \<and> is_open s' \<and> tx s' = map byte_of_char (authd_script t ssl) \<and>
    avail (rx s') = rest \<and> w_script w' = es \<and>
    w_log w' = w_log w @ [Dial (tk_host t) (ticket_port t), Hello (tk_host t) (ssl_client_context False)]"
  using connect_authd_ok [OF assms] avail_three_lines [OF assms(5)] by simp

theorem connect_authd_establishes_witness:
  "\<exists>w' s'. connect_authd demo_deps demo_ticket False True (demo_world (demo_authd (Some [7]))) = (Inr 4, w') \<and>
     w_socks w' 4 = Some s' \<and> is_open s' \<and> avail (rx s') = [9] \<and>
     tx s' = map byte_of_char (authd_script demo_ticket True) \<and>
     w_log w' = [Dial ''esx'' 902, Hello ''esx'' (ssl_client_context False)]"
proof -
  let ?l0 = "map byte_of_char ''220 authd'' @ [13]" and ?l1 = "map byte_of_char ''220 ok'' @ [13]"
  let ?l2 = "map byte_of_char ''200 ok'' @ [13]" and ?l3 = "map byte_of_char ''200 Connect'' @ [13]"
  let ?s0 = "demo_sock [Data (map byte_of_char (''220 authd'' @ crlf))]" and ?w = "demo_world (demo_authd (Some [7]))"
  have s: "w_script ?w = Accept ?s0 None # Accept demo_authd_sock (Some [7]) # []" "w_next ?w = 3" "w_log ?w = []"
    by (simp_all add: demo_world_def demo_authd_def)
  have lines: "reply_line ''220'' ?l0" "reply_line ''220'' ?l1" "reply_line ''200'' ?l2" "reply_line ''200'' ?l3"
    "avail (rx ?s0) = ?l0 @ 10 # []" "avail (rx demo_authd_sock) = ?l1 @ 10 # ?l2 @ 10 # ?l3 @ 10 # [9]"
    "room demo_authd_sock = None" "is_ascii (tk_session_id demo_ticket)" "is_ascii (ticket_service demo_ticket True)"
    "tk_host demo_ticket = ''esx''" "ticket_port demo_ticket = 902"
    "case tk_thumbprint demo_ticket of None \<Rightarrow> True | Some tp \<Rightarrow> False \<or> tp = [] \<or> cert_matches demo_deps tp (Some [7])"
    by code_simp+
  show ?thesis
    using connect_authd_establishes [OF s(1) lines(7,5,1,6,2,3,4,8,9,12)] lines(10,11) s(2,3) by auto
qed

end
