(* ===== verification/NfcTicket.thy ===== *)
theory NfcTicket
  imports NfcLogin
begin

text \<open>
  Theorems about the NFC ticket (\<open>get_nfc_ticket\<close>, \<open>_virtual_disk_key\<close>): which call is made for which
  arguments, and which device key a disk path has. Then the context manager of \<open>authenticate\<close>.
\<close>

subsection \<open>The device key of a path\<close>

text \<open>The files of a disk: its leaf and the parents in its delta chain.\<close>

fun chain_files :: "backing option \<Rightarrow> string list" where
  "chain_files None = []"
| "chain_files (Some (Backing fileName parent)) =
     (case fileName of None \<Rightarrow> [] | Some f \<Rightarrow> [f]) @ chain_files parent"

fun device_files :: "device \<Rightarrow> string list" where
  "device_files (VirtualDisk key b) = chain_files b"
| "device_files (OtherDevice key) = []"

fun device_key :: "device \<Rightarrow> int" where
  "device_key (VirtualDisk key b) = key"
| "device_key (OtherDevice key) = key"

lemma backing_has_chain: "backing_has path b \<longleftrightarrow> path \<in> set (chain_files b)"
  by (induction path b rule: backing_has.induct) (auto split: option.split)

lemma disk_key_find:
  "disk_key_loop path ds = map_option device_key (List.find (\<lambda>d. path \<in> set (device_files d)) ds)"
  by (induction path ds rule: disk_key_loop.induct) (auto simp: backing_has_chain)

text \<open>
  C36. The device key of a VMDK path is that of the first device that has the path among its files, where the
  files of a virtual disk are its leaf and all its parents in the snapshot chain and other devices have
  none: so the leaf and the parents of one disk give one key. A path that no device has is refused.
\<close>

theorem virtual_disk_key_reference:
  "virtual_disk_key dp si vm path w =
     (case d_devices dp (length (w_log w)) si vm of
        Inl e \<Rightarrow> Inl e
      | Inr ds \<Rightarrow> (case List.find (\<lambda>d. path \<in> set (device_files d)) ds of
            None \<Rightarrow> Inl (ValueError (NotAttached path vm))
          | Some d \<Rightarrow> Inr (device_key d)),
      w\<lparr>w_log := w_log w @ [Vim (GetDevices si vm)]\<rparr>)"
  by (simp add: virtual_disk_key_def log_act_def disk_key_find split: sum.split option.split)

subsection \<open>The ticket call\<close>

fun is_ticket_call :: "act \<Rightarrow> bool" where
  "is_ticket_call (Vim (GetVmFiles si vm)) = True"
| "is_ticket_call (Vim (RandomAccessOpenReadonly si vm key host)) = True"
| "is_ticket_call (Vim (RandomAccessOpen si vm key host)) = True"
| "is_ticket_call _ = False"

text \<open>What the server answers to a ticket call at time \<open>t\<close>.\<close>

fun ticket_answer :: "deps \<Rightarrow> nat \<Rightarrow> vim_call \<Rightarrow> exn + ticket" where
  "ticket_answer dp t (GetVmFiles si vm) = d_vm_files dp t si vm"
| "ticket_answer dp t (RandomAccessOpenReadonly si vm key host) = d_open_readonly dp t si vm key host"
| "ticket_answer dp t (RandomAccessOpen si vm key host) = d_open_disk dp t si vm key host"
| "ticket_answer dp t _ = Inl (OtherError (Text ''''))"

text \<open>The call that the arguments ask for; a key that was not given is that of the path.\<close>

definition right_call ::
  "deps \<Rightarrow> nat \<Rightarrow> string \<Rightarrow> int option \<Rightarrow> string option \<Rightarrow> bool \<Rightarrow> string option \<Rightarrow> vim_call \<Rightarrow> bool" where
  "right_call dp si vm key host ro path call \<longleftrightarrow>
     (if ro \<and> key = None \<and> path = None then call = GetVmFiles si vm
      else \<exists>k h. call = (if ro then RandomAccessOpenReadonly si vm k h else RandomAccessOpen si vm k h) \<and>
        host \<in> {None, Some h} \<and>
        (case key of Some x \<Rightarrow> k = x
         | None \<Rightarrow> \<exists>p t ds. path = Some p \<and> d_devices dp t si vm = Inr ds \<and> disk_key_loop p ds = Some k))"

abbreviation quiet :: "world \<Rightarrow> world \<Rightarrow> bool" where
  "quiet \<equiv> logs_only (\<lambda>a. \<not> is_ticket_call a)"

lemma quiet_service: "keeps quiet (nfc_service dp si)"
  unfolding nfc_service_def by (intro logq.keeps_intros logs_register) simp

definition key_lookup :: "deps \<Rightarrow> nat \<Rightarrow> string \<Rightarrow> int option \<Rightarrow> string option \<Rightarrow> (world, int) io" where
  "key_lookup dp si vm key path = (case key of
       Some key \<Rightarrow> ret key
     | None \<Rightarrow> (case path of
         None \<Rightarrow> raise (ValueError (Text ''writable NFC tickets need disk_path or disk_device_key''))
       | Some path \<Rightarrow> virtual_disk_key dp si vm path))"

definition host_lookup :: "deps \<Rightarrow> nat \<Rightarrow> string \<Rightarrow> string option \<Rightarrow> (world, string) io" where
  "host_lookup dp si vm host = (case host of
       Some h \<Rightarrow> ret h
     | None \<Rightarrow> bind_io (log_act (Vim (GetRuntimeHost si vm))) (\<lambda>t. lift (d_runtime_host dp t si vm)))"

definition ask :: "deps \<Rightarrow> vim_call \<Rightarrow> (world, ticket) io" where
  "ask dp call = bind_io (log_act (Vim call)) (\<lambda>t. lift (ticket_answer dp t call))"

lemma get_nfc_ticket_alt:
  "get_nfc_ticket dp si vm key host ro path =
     then_io (nfc_service dp si)
     (if ro \<and> key = None \<and> path = None then ask dp (GetVmFiles si vm)
      else bind_io (key_lookup dp si vm key path) (\<lambda>k. bind_io (host_lookup dp si vm host) (\<lambda>h.
        ask dp (if ro then RandomAccessOpenReadonly si vm k h else RandomAccessOpen si vm k h))))"
  by (cases ro) (simp_all add: get_nfc_ticket_def ask_def key_lookup_def host_lookup_def)

lemma ask_run: "ask dp call w = (ticket_answer dp (length (w_log w)) call, w\<lparr>w_log := w_log w @ [Vim call]\<rparr>)"
  by (simp add: ask_def log_act_def)

lemma quiet_lookups: "keeps quiet (key_lookup dp si vm key path)" "keeps quiet (host_lookup dp si vm host)"
  unfolding key_lookup_def host_lookup_def virtual_disk_key_def
  by (auto intro!: logq.keeps_intros logs_log_act split: option.split)

lemma key_lookup_InrD:
  "key_lookup dp si vm key path w = (Inr k, w') \<Longrightarrow>
     (case key of Some x \<Rightarrow> k = x
      | None \<Rightarrow> \<exists>p t ds. path = Some p \<and> d_devices dp t si vm = Inr ds \<and> disk_key_loop p ds = Some k)"
  by (auto simp: key_lookup_def virtual_disk_key_def bind_io_Inr_iff lift_def split: option.splits)

lemma host_lookup_InrD: "host_lookup dp si vm host w = (Inr h, w') \<Longrightarrow> host \<in> {None, Some h}"
  by (auto simp: host_lookup_def split: option.splits)

text \<open>
  C15. The ticket. Whatever the server answers, \<open>get_nfc_ticket\<close> makes at most one ticket call, as its last act, and it
  is the one its arguments ask for: \<open>NfcGetVmFiles\<close> for a read-only ticket without a disk, otherwise the
  read-only or the writable disk call, with the given device key or the key of the given path, and with
  the given host. Its result is the server's answer to that call; when it makes no ticket call, it raises.
  In particular a writable ticket without a disk is refused.
\<close>

theorem ticket_call_right:
  assumes "get_nfc_ticket dp si vm key host ro path w = (r, w')"
  shows "\<exists>acts. list_all (\<lambda>a. \<not> is_ticket_call a) acts \<and>
    (w_log w' = w_log w @ acts \<and> (\<exists>e. r = Inl e) \<or>
     (\<exists>call. w_log w' = w_log w @ acts @ [Vim call] \<and> right_call dp si vm key host ro path call \<and>
        r = ticket_answer dp (length (w_log w @ acts)) call))"
proof -
  have quiet_exn: ?thesis if "quiet w w'" "r = Inl e" for e
    using that by (auto simp: logs_only_def)
  have asked: ?thesis if "quiet w v" "right_call dp si vm key host ro path call" "ask dp call v = (r, w')" for v call
    using that by (auto simp: ask_run logs_only_def)
  obtain r1 w1 where 1: "nfc_service dp si w = (r1, w1)" by (cases "nfc_service dp si w")
  have q1: "quiet w w1" by (rule keepsD [OF quiet_service 1])
  show ?thesis
  proof (cases r1)
    case (Inl e)
    then show ?thesis using assms 1 q1 by (intro quiet_exn) (auto simp: get_nfc_ticket_alt)
  next
    case r1: (Inr u)
    show ?thesis
    proof (cases "ro \<and> key = None \<and> path = None")
      case True
      then show ?thesis using assms 1 r1 by (intro asked [OF q1]) (auto simp: get_nfc_ticket_alt right_call_def)
    next
      case False
      obtain r2 w2 where 2: "key_lookup dp si vm key path w1 = (r2, w2)" by (cases "key_lookup dp si vm key path w1")
      have q2: "quiet w w2" by (rule logq.trans_R [OF q1 keepsD [OF quiet_lookups(1) 2]])
      obtain r3 w3 where 3: "host_lookup dp si vm host w2 = (r3, w3)" by (cases "host_lookup dp si vm host w2")
      have q3: "quiet w w3" by (rule logq.trans_R [OF q2 keepsD [OF quiet_lookups(2) 3]])
      show ?thesis
      proof (cases "\<exists>k h. r2 = Inr k \<and> r3 = Inr h")
        case True
        then obtain k h where kh: "r2 = Inr k" "r3 = Inr h" by blast
        let ?call = "if ro then RandomAccessOpenReadonly si vm k h else RandomAccessOpen si vm k h"
        have "right_call dp si vm key host ro path ?call"
          using False key_lookup_InrD [of dp si vm key path w1 k w2] host_lookup_InrD [of dp si vm host w2 h w3] 2 3 kh
          by (auto simp: right_call_def)
        then show ?thesis using assms 1 r1 2 3 kh False by (intro asked [OF q3]) (auto simp: get_nfc_ticket_alt)
      next
        case no: False
        then have "\<exists>e. r = Inl e \<and> (w' = w2 \<or> w' = w3)"
          using assms 1 r1 2 3 False by (cases r2; cases r3) (auto simp: get_nfc_ticket_alt)
        then show ?thesis using q2 q3 quiet_exn by blast
      qed
    qed
  qed
qed

theorem ticket_call_right_witness:
  "\<exists>r w' acts k h. get_nfc_ticket demo_deps 0 ''vm-1'' None None False (Some ''[ds] vm/vm.vmdk'') (demo_world []) = (r, w') \<and>
     w_log w' = acts @ [Vim (RandomAccessOpen 0 ''vm-1'' k h)] \<and> list_all (\<lambda>a. \<not> is_ticket_call a) acts \<and> r = Inr demo_ticket"
proof -
  let ?run = "get_nfc_ticket demo_deps 0 ''vm-1'' None None False (Some ''[ds] vm/vm.vmdk'') (demo_world [])"
  obtain r w' where run: "?run = (r, w')" by (cases ?run)
  have "fst ?run = Inr demo_ticket" "w_log (demo_world []) = []" by code_simp+
  then have "r = Inr demo_ticket" "w_log (demo_world []) = []" using run by simp_all
  with ticket_call_right [OF run] run show ?thesis by (auto simp: right_call_def)
qed

subsection \<open>The authenticated session\<close>

text \<open>
  C35. \<open>with authenticate(...) as session: body\<close> gives everything back: whatever fails, in authentication, in the
  body or in closing, afterwards the process holds exactly the sockets and VIM sessions it held before.
\<close>

theorem authenticate_leaks_nothing:
  assumes "\<And>s. keeps proc.same_held (body s)" and "world_wf w"
  shows "proc_held (snd (with_io (authenticate dp host user pwd vm port tp allow key path ro ssl) (auth_session_close dp) body w))
    = proc_held w"
proof -
  have "keeps proc.same_held (with_io (authenticate dp host user pwd vm port tp allow key path ro ssl) (auth_session_close dp) body)"
    by (intro auth_ctx.with_same_held assms) (simp add: keeps_def)
  then show ?thesis using assms(2) by (auto simp: keeps_def proc.same_held_def)
qed

text \<open>The server hangs up in the authd dialogue.\<close>

theorem authenticate_leaks_nothing_witness:
  "proc_held (snd (with_io
     (authenticate demo_deps ''vc'' ''u'' ''p'' ''vm-1'' 443 (Some ''0a:ff'') False None None True True)
     (auth_session_close demo_deps) (\<lambda>s. check_open (as_authd_sock s)) (demo_world (demo_mgmt @ demo_authd (Some [7]))))) = {}"
proof -
  have "world_wf (demo_world es)" "proc_held (demo_world es) = {}" for es
    by (simp_all add: world_wf_def proc_held_def fd_open_def demo_world_def)
  then show ?thesis
    using authenticate_leaks_nothing [of "\<lambda>s. check_open (as_authd_sock s)", OF same_held_check] by simp
qed

end
