(* ===== verification/NfcOpen.thy ===== *)
theory NfcOpen
  imports NfcAuth
begin

text \<open>
  Opening a disk (\<open>openvixdisklib/nfc_open.py\<close>): the socket taken over from authd, the classic NFC
  handshake, the AIO session and \<open>OPEN_FILE\<close>. \<open>open_disk\<close> returns the number of the socket object that
  owns the new \<open>NfcDisk\<close> object.
\<close>

definition enable_tcp_nodelay :: "nat \<Rightarrow> (world, unit) io" where
  "enable_tcp_nodelay fd =
     then_io (check_open fd) (\<lambda>w. (Inr (), w\<lparr>w_nodelay := fd # w_nodelay w\<rparr>))"

definition takeover_authd_socket :: "nat \<Rightarrow> (world, nat) io" where
  "takeover_authd_socket ssock =
     bind_io (dup_socket ssock) (\<lambda>raw. then_io (enable_tcp_nodelay raw) (ret raw))"

definition wrap_nfcssl_socket :: "nat \<Rightarrow> string \<Rightarrow> (world, nat) io" where
  "wrap_nfcssl_socket ssock server_hostname =
     bind_io (takeover_authd_socket ssock) (\<lambda>raw.
     on_exception (wrap_socket (ssl_client_context False) raw server_hostname) (close_fd raw))"

definition handshake :: "string \<Rightarrow> string \<Rightarrow> int \<Rightarrow> (sock, unit) io" where
  "handshake client_name op_id version =
     then_io (send_nfc_msg NFC_MSG_HANDSHAKE (map byte_of_char ''PlainText''))
     (then_io (send_nfc_msg NFC_MSG_SESSION_PARAMS [])
     (bind_io recv_nfc_msg (\<lambda>(reply_type, _).
      then_io (raise_if (reply_type \<noteq> NFC_MSG_SESSION_PARAMS_REPLY)
                 (NfcProtocolError (ExpectedReply NFC_MSG_SESSION_PARAMS_REPLY reply_type)))
     (bind_io (lift (struct_pack [FI] [version])) (\<lambda>v.
      then_io (send_nfc_msg NFC_MSG_VERSION v)
     (bind_io recv_nfc_msg (\<lambda>(reply_type, body).
      then_io (raise_if (reply_type \<noteq> NFC_MSG_VERSION)
                 (NfcProtocolError (ExpectedReply NFC_MSG_VERSION reply_type)))
     (bind_io (lift (unpack_I body 0)) (\<lambda>remote_version.
      then_io (raise_if (remote_version < 3) (NfcProtocolError (VersionTooOld remote_version)))
     (bind_io (lift (encode_ascii client_name)) (\<lambda>name_b.
      bind_io (lift (encode_ascii op_id)) (\<lambda>op_b.
      bind_io (lift (struct_pack [FI, FI] [int (length name_b), int (length op_b)])) (\<lambda>lens.
      then_io (send_nfc_msg NFC_MSG_CONNECTION_DATA lens)
     (then_io (sock_sendall name_b)
     (then_io (sock_sendall op_b)
     (bind_io (lift (struct_pack [FI] [NFC_SESSION_FEATURE_INTERRUPTION_SWITCH])) (\<lambda>features.
      then_io (send_nfc_msg NFC_MSG_SESSION_FEATURES features)
     (then_io (send_nfc_msg NFC_MSG_AIO_SESSION_OPEN [])
     (bind_io recv_nfc_msg (\<lambda>(reply_type, _).
      raise_if (reply_type \<noteq> NFC_MSG_AIO_SESSION_OPEN)
        (NfcProtocolError (ExpectedReply NFC_MSG_AIO_SESSION_OPEN reply_type))))))))))))))))))))))"

definition aio_prepare :: "(dstate, unit) io" where
  "aio_prepare = (\<lambda>(d, s).
     bind_io (lift (struct_pack [FI, FI, FI, FI]
                [0, int (nd_aio_buffer_size d), int (nd_aio_buffer_count d), 0])) (\<lambda>open_session.
     then_io (aio_roundtrip NFC_AIO_MSG_OPEN_SESSION open_session [] 0)
     (then_io (aio_roundtrip NFC_AIO_MSG_SET_SOCK_OPTS (replicate 12 0) [] 0)
     (bind_io (lift (struct_pack [FI] [1])) (\<lambda>pool.
      then_io (aio_roundtrip NFC_AIO_MSG_SET_RES_POOL pool [] 0) (ret ()))))) (d, s))"

definition parse_open_reply :: "byte list \<Rightarrow> exn + (nat \<times> nat)" where
  "parse_open_reply body =
     (if length body < 40 then Inl (NfcProtocolError (OpenReplyTooShort (length body)))
      else case unpack_QII body 8 of
        Inl e \<Rightarrow> Inl e
      | Inr (handle, file_type, flags) \<Rightarrow>
          (case unpack_I body 36 of
             Inl e \<Rightarrow> Inl e
           | Inr sector_size \<Rightarrow>
               if file_type \<noteq> NFC_DISK then Inl (NfcProtocolError (OpenedFileType file_type))
               else Inr (handle, if sector_size = 0 then NFC_SECTOR_SIZE else sector_size)))"

definition set_opened :: "nat \<Rightarrow> nat \<Rightarrow> (dstate, unit) io" where
  "set_opened handle sector_size =
     (\<lambda>(d, s). (Inr (), d\<lparr>nd_handle := handle, nd_sector_size := sector_size\<rparr>, s))"

text \<open>The body of the \<open>try\<close> of \<open>open_disk\<close>.\<close>

definition open_on ::
  "nat \<Rightarrow> string \<Rightarrow> string \<Rightarrow> string \<Rightarrow> int \<Rightarrow> bool \<Rightarrow> int \<Rightarrow> int \<Rightarrow> int \<Rightarrow> (world, nat) io" where
  "open_on sock disk_path client_name op_id version read_only compression aio_buffer_size aio_buffer_count =
     then_io (on_sock sock (handshake client_name op_id version))
     (then_io (new_disk (nfc_disk_init sock disk_path 0 NFC_SECTOR_SIZE (nat compression)
                           (nat aio_buffer_size) (nat aio_buffer_count)))
     (then_io (on_disk sock aio_prepare)
     (let path_b = encode_utf8 disk_path;
          open_flags = (if read_only then NFC_OPEN_FLAGS_READ_ONLY else NFC_OPEN_FLAGS_READ_WRITE) in
      bind_io (lift (struct_pack [FI, FI, FI, FI, FI, FI]
                [int (length path_b), 0, 0, 0, int NFC_DISK, open_flags])) (\<lambda>open_body.
      bind_io (on_disk sock (aio_roundtrip NFC_AIO_MSG_OPEN_FILE (ljust0 60 open_body) path_b 0)) (\<lambda>reply.
      bind_io (lift (parse_open_reply reply)) (\<lambda>(handle, sector_size).
      then_io (on_disk sock (set_opened handle sector_size)) (ret sock)))))))"

definition open_disk ::
  "NfcAuthSession \<Rightarrow> string \<Rightarrow> string \<Rightarrow> string \<Rightarrow> int \<Rightarrow> bool \<Rightarrow> int \<Rightarrow> int \<Rightarrow> int \<Rightarrow> (world, nat) io" where
  "open_disk session disk_path client_name op_id version read_only compression aio_buffer_size aio_buffer_count =
     then_io (raise_if (aio_buffer_size < 1) (ValueError (Text ''aio_buffer_size must be at least 1'')))
     (then_io (raise_if (aio_buffer_count < 1) (ValueError (Text ''aio_buffer_count must be at least 1'')))
     (then_io (raise_if (compression \<notin> {int NFC_COMPRESSION_NONE, int NFC_COMPRESSION_FASTLZ})
                 (NotImplementedError (UnsupportedCompression compression)))
     (bind_io (if as_nfc_ssl session
               then wrap_nfcssl_socket (as_authd_sock session) (tk_host (as_ticket session))
               else takeover_authd_socket (as_authd_sock session)) (\<lambda>sock.
      on_exception
        (open_on sock disk_path client_name op_id version read_only compression aio_buffer_size aio_buffer_count)
        (close_fd sock)))))"

end
