(* ===== verification/VixHandle.thy ===== *)
theory VixHandle
  imports NfcOpen
begin

text \<open>
  \<open>openvixdisklib/openvixdisklib.py\<close>: the VDDK-shaped handle. The two context managers are the effects
  before their \<open>yield\<close> (\<open>handle_connect\<close>, \<open>handle_open\<close>) and after it (\<open>handle_disconnect\<close>,
  \<open>handle_close\<close>); \<open>with_io\<close> puts a body between them.
\<close>

definition VIXDISKLIB_SECTOR_SIZE :: nat where
  [simp]: "VIXDISKLIB_SECTOR_SIZE = 512"
definition VIXDISKLIB_FLAG_OPEN_READ_ONLY :: int where
  [simp]: "VIXDISKLIB_FLAG_OPEN_READ_ONLY = 4"
definition VIXDISKLIB_FLAG_OPEN_COMPRESSION_ZLIB :: int where
  [simp]: "VIXDISKLIB_FLAG_OPEN_COMPRESSION_ZLIB = 16"
definition VIXDISKLIB_FLAG_OPEN_COMPRESSION_FASTLZ :: int where
  [simp]: "VIXDISKLIB_FLAG_OPEN_COMPRESSION_FASTLZ = 32"
definition VIXDISKLIB_FLAG_OPEN_COMPRESSION_SKIPZ :: int where
  [simp]: "VIXDISKLIB_FLAG_OPEN_COMPRESSION_SKIPZ = 64"

definition VIX_SUPPORTED_COMPATIBILITY_MODES :: "string list" where
  "VIX_SUPPORTED_COMPATIBILITY_MODES = [''8.0'']"

definition nfc_compression :: "int \<Rightarrow> exn + int" where
  "nfc_compression flags =
     (let alg = flags AND (VIXDISKLIB_FLAG_OPEN_COMPRESSION_ZLIB OR
                  VIXDISKLIB_FLAG_OPEN_COMPRESSION_FASTLZ OR VIXDISKLIB_FLAG_OPEN_COMPRESSION_SKIPZ) in
      if alg = 0 then Inr (int NFC_COMPRESSION_NONE)
      else if alg = VIXDISKLIB_FLAG_OPEN_COMPRESSION_FASTLZ then Inr (int NFC_COMPRESSION_FASTLZ)
      else if alg AND (alg - 1) \<noteq> 0
      then Inl (NotImplementedError
             (Text ''Cannot set two or more NBD compression algorithms at the same time''))
      else Inl (NotImplementedError (UnsupportedCompression alg)))"

text \<open>\<open>ctypes.create_string_buffer(size)\<close>: a writable buffer of zero bytes.\<close>

definition get_buffer :: "int \<Rightarrow> exn + pybuf" where
  "get_buffer n =
     (if n < 0 then Inl (ValueError (Text ''Array length must be >= 0''))
      else Inr \<lparr>pb_readonly = False, pb_bytes = replicate (nat n) 0\<rparr>)"

text \<open>\<open>s.split(sep, 1)\<close> at the first separator, and \<open>s.split(sep)\<close>.\<close>

fun split_at :: "char \<Rightarrow> string \<Rightarrow> string \<times> string" where
  "split_at sep [] = ([], [])"
| "split_at sep (c # cs) =
     (if c = sep then ([], cs) else (case split_at sep cs of (a, b) \<Rightarrow> (c # a, b)))"

fun split_all :: "char \<Rightarrow> string \<Rightarrow> string list" where
  "split_all sep [] = [[]]"
| "split_all sep (c # cs) =
     (if c = sep then [] # split_all sep cs
      else (case split_all sep cs of [] \<Rightarrow> [[c]] | w # ws \<Rightarrow> (c # w) # ws))"

definition lower_char :: "char \<Rightarrow> char" where
  "lower_char c = (let n = (of_char c :: nat) in if 65 \<le> n \<and> n \<le> 90 then char_of (n + 32) else c)"

definition parse_vm_moref :: "string option \<Rightarrow> exn + string" where
  "parse_vm_moref vmx_spec =
     (case vmx_spec of
        None \<Rightarrow> Inl (ValueError (Text ''vmx_spec is required''))
      | Some spec \<Rightarrow>
          if spec = [] then Inl (ValueError (Text ''vmx_spec is required''))
          else if CHR ''='' \<in> set spec
          then (case split_at (CHR ''='') spec of (kind, value) \<Rightarrow>
                  if map lower_char kind \<noteq> ''moref'' \<or> value = []
                  then Inl (ValueError (Text (''unsupported vmx_spec: '' @ spec)))
                  else Inr value)
          else Inr spec)"

fun first_transport :: "string list \<Rightarrow> string option" where
  "first_transport [] = None"
| "first_transport (mode # modes) =
     (if mode = ''nbdssl'' \<or> mode = ''nbd'' then Some mode else first_transport modes)"

definition select_transport :: "string option \<Rightarrow> exn + string" where
  "select_transport transport_modes =
     (case transport_modes of
        None \<Rightarrow> Inr ''nbdssl''
      | Some modes \<Rightarrow>
          (case first_transport (split_all (CHR '':'') modes) of
             Some mode \<Rightarrow> Inr mode
           | None \<Rightarrow> Inl (NotImplementedError (Text (''supported transports are nbdssl and nbd, got '' @ modes)))))"

text \<open>\<open>os.name\<close> is the argument.\<close>

definition get_vix_disklib_name :: "string \<Rightarrow> string" where
  "get_vix_disklib_name os_name = (if os_name = ''nt'' then ''vixDiskLib.dll'' else ''libvixDiskLib.so'')"

definition get_transport_modes :: "string list" where
  "get_transport_modes = [''nbdssl'', ''nbd'']"

record Connection =
  cn_si :: nat
  cn_vm_moref :: string
  cn_snapshot_ref :: "string option"
  cn_thumbprint :: "string option"
  cn_allow_untrusted :: bool
  cn_read_only :: bool
  cn_transport_mode :: string

text \<open>The disk of a handle is the number of the socket that its \<open>NfcDisk\<close> object owns.\<close>

record DiskHandle =
  dh_disk :: nat
  dh_authd_sock :: nat
  dh_transport_mode :: string

definition get_transport_mode :: "DiskHandle \<Rightarrow> string" where
  "get_transport_mode disk_handle = dh_transport_mode disk_handle"

text \<open>The constructor returns the version it reports.\<close>

definition handle_init :: "string option \<Rightarrow> exn + string" where
  "handle_init vixdisklib_compatibility_version =
     (case vixdisklib_compatibility_version of
        None \<Rightarrow> Inr (last VIX_SUPPORTED_COMPATIBILITY_MODES)
      | Some v \<Rightarrow>
          if v = [] then Inr (last VIX_SUPPORTED_COMPATIBILITY_MODES)
          else if v \<notin> set VIX_SUPPORTED_COMPATIBILITY_MODES
          then Inl (ValueError (Text (''Unsupported vixDiskLib compatibility version '' @ v)))
          else Inr (last [v]))"

subsection \<open>Connecting\<close>

definition handle_connect ::
  "deps \<Rightarrow> string \<Rightarrow> string option \<Rightarrow> string \<Rightarrow> string \<Rightarrow> string option \<Rightarrow> string option \<Rightarrow> bool \<Rightarrow>
     string option \<Rightarrow> nat \<Rightarrow> bool \<Rightarrow> (world, Connection) io" where
  "handle_connect dp server_name thumbprint username password vmx_spec snapshot_ref read_only
     transport_modes port allow_untrusted =
     bind_io (lift (select_transport transport_modes)) (\<lambda>transport_mode.
     bind_io (lift (parse_vm_moref vmx_spec)) (\<lambda>vm_moref.
     bind_io (connect_vim dp server_name username password port thumbprint allow_untrusted) (\<lambda>si.
     ret \<lparr>cn_si = si, cn_vm_moref = vm_moref, cn_snapshot_ref = snapshot_ref, cn_thumbprint = thumbprint,
          cn_allow_untrusted = allow_untrusted, cn_read_only = read_only,
          cn_transport_mode = transport_mode\<rparr>)))"

definition handle_disconnect :: "deps \<Rightarrow> Connection \<Rightarrow> (world, unit) io" where
  "handle_disconnect dp conn = vim_disconnect dp (cn_si conn)"

subsection \<open>Opening\<close>

definition handle_open ::
  "deps \<Rightarrow> Connection \<Rightarrow> string \<Rightarrow> int \<Rightarrow> int \<Rightarrow> int \<Rightarrow> (world, DiskHandle) io" where
  "handle_open dp conn disk_path flags aio_buffer_size aio_buffer_count =
     bind_io (lift (nfc_compression flags)) (\<lambda>compression.
     let read_only = (flags AND VIXDISKLIB_FLAG_OPEN_READ_ONLY \<noteq> 0) in
     then_io (raise_if (\<not> read_only \<and> cn_read_only conn)
                (NotImplementedError (Text ''ConnectEx was read-only; cannot open for write'')))
     (let nfc_ssl = (cn_transport_mode conn = ''nbdssl'') in
      bind_io (get_nfc_ticket dp (cn_si conn) (cn_vm_moref conn) None None read_only
                 (if read_only then None else Some disk_path)) (\<lambda>ticket.
      bind_io (connect_authd dp ticket (cn_allow_untrusted conn) nfc_ssl) (\<lambda>authd_sock.
      let session = \<lparr>as_si = cn_si conn, as_ticket = ticket, as_authd_sock = authd_sock, as_nfc_ssl = nfc_ssl\<rparr> in
      bind_io
        (on_exception
           (open_disk session disk_path ''vddk'' ''nbdmode'' NFC_PROTOCOL_VERSION read_only compression
              aio_buffer_size aio_buffer_count)
           (close_fd authd_sock)) (\<lambda>disk.
      ret \<lparr>dh_disk = disk, dh_authd_sock = authd_sock, dh_transport_mode = cn_transport_mode conn\<rparr>)))))"

definition handle_close :: "DiskHandle \<Rightarrow> (world, unit) io" where
  "handle_close disk_handle =
     try_finally (on_disk (dh_disk disk_handle) disk_close)
       (ignore_OSError (close_fd (dh_authd_sock disk_handle)))"

definition handle_exit :: "(world, unit) io" where
  "handle_exit = ret ()"

subsection \<open>Sector I/O\<close>

text \<open>\<open>read\<close> runs on the process and the caller's buffer.\<close>

definition handle_read ::
  "fastlz_lib \<Rightarrow> DiskHandle \<Rightarrow> int \<Rightarrow> int \<Rightarrow> bool \<Rightarrow> (world \<times> pybuf, ReadResult) io" where
  "handle_read lib disk_handle start_sector num_sectors skip = (\<lambda>(w, buf).
     let fd = dh_disk disk_handle in
     case (w_disks w fd, w_socks w fd) of
       (Some d, Some s) \<Rightarrow>
         (case readinto lib start_sector num_sectors skip ((d, s), buf) of (r, (d', s'), buf') \<Rightarrow>
            (r, w\<lparr>w_disks := (w_disks w)(fd \<mapsto> d'), w_socks := (w_socks w)(fd \<mapsto> s')\<rparr>, buf'))
     | _ \<Rightarrow> (Inl EBADF, w, buf))"

text \<open>\<open>buf[:length]\<close>, where a negative length counts from the end.\<close>

definition py_take :: "int \<Rightarrow> 'a list \<Rightarrow> 'a list" where
  "py_take k xs = (if 0 \<le> k then take (nat k) xs else take (nat (int (length xs) + k)) xs)"

definition handle_write ::
  "fastlz_lib \<Rightarrow> DiskHandle \<Rightarrow> int \<Rightarrow> int \<Rightarrow> byte list \<Rightarrow> world \<Rightarrow> ((exn + unit) \<times> world) option" where
  "handle_write lib disk_handle start_sector num_sectors buf = (\<lambda>w.
     let fd = dh_disk disk_handle; data = py_take (num_sectors * int VIXDISKLIB_SECTOR_SIZE) buf in
     case (w_disks w fd, w_socks w fd) of
       (Some d, Some s) \<Rightarrow>
         (case disk_write lib start_sector num_sectors data (d, s) of
            None \<Rightarrow> None
          | Some (r, d', s') \<Rightarrow>
              Some (r, w\<lparr>w_disks := (w_disks w)(fd \<mapsto> d'), w_socks := (w_socks w)(fd \<mapsto> s')\<rparr>))
     | _ \<Rightarrow> Some (Inl EBADF, w))"

end
