(* ===== verification/VixArgs.thy ===== *)
theory VixArgs
  imports VixHandle
begin

text \<open>
  The argument parsers of \<open>openvixdisklib.py\<close> against what they are meant to accept: the compression bits
  of the open flags, the colon-separated list of transports, and the VM selector.
\<close>

subsection \<open>Open flags\<close>

text \<open>The three compression bits as one number below 8.\<close>

lemma compression_bits:
  "flags AND (VIXDISKLIB_FLAG_OPEN_COMPRESSION_ZLIB OR VIXDISKLIB_FLAG_OPEN_COMPRESSION_FASTLZ OR
     VIXDISKLIB_FLAG_OPEN_COMPRESSION_SKIPZ) = push_bit 4 (take_bit 3 (drop_bit 4 flags))"
proof -
  have eq: "VIXDISKLIB_FLAG_OPEN_COMPRESSION_ZLIB OR VIXDISKLIB_FLAG_OPEN_COMPRESSION_FASTLZ OR
      VIXDISKLIB_FLAG_OPEN_COMPRESSION_SKIPZ = push_bit 4 (mask 3)"
    by (simp add: mask_eq_exp_minus_1 push_bit_eq_mult)
  show ?thesis unfolding eq by (rule bit_eqI) (auto simp: bit_simps)
qed

lemma take_bit_3: "take_bit 3 (k :: int) = of_bool (bit k 0) + 2 * of_bool (bit k 1) + 4 * of_bool (bit k 2)"
  by (simp add: numeral_3_eq_3 take_bit_Suc bit_0 bit_Suc numeral_2_eq_2 mod2_eq_if)

text \<open>
  The compression flags, for every integer \<open>flags\<close>: no compression bit means none, the FastLZ bit alone
  means FastLZ, the zlib or the skipz bit alone is refused by its value and two or more of them with the
  VDDK message. The other bits do not matter, and what is returned is a type that \<open>open_disk\<close> accepts.
\<close>

theorem nfc_compression_bits:
  "nfc_compression flags =
     (case (bit flags 4, bit flags 5, bit flags 6) of
        (False, False, False) \<Rightarrow> Inr 0
      | (False, True, False) \<Rightarrow> Inr 2
      | (True, False, False) \<Rightarrow> Inl (NotImplementedError (UnsupportedCompression 16))
      | (False, False, True) \<Rightarrow> Inl (NotImplementedError (UnsupportedCompression 64))
      | _ \<Rightarrow> Inl (NotImplementedError
               (Text ''Cannot set two or more NBD compression algorithms at the same time'')))"
  unfolding nfc_compression_def compression_bits take_bit_3
  by (cases "bit flags 4"; cases "bit flags 5"; cases "bit flags 6")
    (simp_all add: bit_simps Let_def push_bit_eq_mult)

subsection \<open>Transports\<close>

lemma split_all_no_sep: "sep \<notin> set w \<Longrightarrow> split_all sep w = [w]"
  by (induction w) auto

lemma split_all_append: "sep \<notin> set w \<Longrightarrow> split_all sep (w @ sep # rest) = w # split_all sep rest"
  by (induction w) auto

lemma split_join: "ws \<noteq> [] \<Longrightarrow> list_all (\<lambda>w. CHR '':'' \<notin> set w) ws \<Longrightarrow> split_all (CHR '':'') (join_colon ws) = ws"
  by (induction ws rule: join_colon.induct) (simp_all add: split_all_no_sep split_all_append)

lemma first_transport_find: "first_transport modes = List.find (\<lambda>m. m \<in> set get_transport_modes) modes"
  by (induction modes) (auto simp: get_transport_modes_def)

text \<open>
  The transport. From a colon-separated list the first mode that the library implements (one of
  \<open>get_transport_modes\<close>) is taken, whatever else is asked for before or after it; when there is none, the
  request is refused; and without a list the mode is NBDSSL.
\<close>

theorem select_transport_first:
  assumes "ws \<noteq> []" and "list_all (\<lambda>w. CHR '':'' \<notin> set w) ws"
  shows "select_transport None = Inr ''nbdssl'' \<and>
    (case filter (\<lambda>m. m \<in> set get_transport_modes) ws of
       [] \<Rightarrow> \<exists>e. select_transport (Some (join_colon ws)) = Inl (NotImplementedError e)
     | m # ms \<Rightarrow> select_transport (Some (join_colon ws)) = Inr m)"
proof -
  have "first_transport ws = (case filter (\<lambda>m. m \<in> set get_transport_modes) ws of [] \<Rightarrow> None | m # ms \<Rightarrow> Some m)"
    unfolding first_transport_find by (induction ws) auto
  then show ?thesis
    using split_join [OF assms] by (auto simp: select_transport_def split: list.split option.split)
qed

theorem select_transport_first_witness:
  "select_transport (Some ''file:nbd:nbdssl'') = Inr ''nbd'' \<and> (\<exists>e. select_transport (Some ''hotadd'') = Inl (NotImplementedError e))"
proof -
  have "list_all (\<lambda>w. CHR '':'' \<notin> set w) [''file'', ''nbd'', ''nbdssl'']" "list_all (\<lambda>w. CHR '':'' \<notin> set w) [''hotadd'']"
    "join_colon [''file'', ''nbd'', ''nbdssl''] = ''file:nbd:nbdssl''" "join_colon [''hotadd''] = ''hotadd''"
    "filter (\<lambda>m. m \<in> set get_transport_modes) [''file'', ''nbd'', ''nbdssl''] = [''nbd'', ''nbdssl'']"
    "filter (\<lambda>m. m \<in> set get_transport_modes) [''hotadd''] = []"
    by code_simp+
  then show ?thesis
    using select_transport_first [of "[''file'', ''nbd'', ''nbdssl'']"] select_transport_first [of "[''hotadd'']"] by simp
qed

subsection \<open>The VM selector\<close>

lemma split_at_append: "sep \<notin> set a \<Longrightarrow> split_at sep (a @ sep # b) = (a, b)"
  by (induction a) auto

lemma lower_moref_no_eq: "map lower_char kind = ''moref'' \<Longrightarrow> CHR ''='' \<notin> set kind"
proof
  assume "map lower_char kind = ''moref''" and "CHR ''='' \<in> set kind"
  then have "lower_char (CHR ''='') \<in> set ''moref''" by (metis image_eqI set_map)
  moreover have "lower_char (CHR ''='') = CHR ''=''" by code_simp
  ultimately show False by simp
qed

text \<open>
  The VM selector. \<open>_parse_vm_moref\<close> returns exactly the managed object ids that its two forms name: a non-empty
  id after \<open>moref=\<close> in any letter case, where the id may itself contain \<open>=\<close>, or a bare non-empty id without
  \<open>=\<close>. Everything else is refused.
\<close>

theorem parse_vm_moref_iff:
  "parse_vm_moref spec = Inr v \<longleftrightarrow>
     v \<noteq> [] \<and> ((\<exists>kind. spec = Some (kind @ ''='' @ v) \<and> map lower_char kind = ''moref'') \<or>
                spec = Some v \<and> CHR ''='' \<notin> set v)"
proof (cases spec)
  case (Some s)
  show ?thesis
  proof (cases "CHR ''='' \<in> set s")
    case True
    obtain a b where s: "s = a @ CHR ''='' # b" "CHR ''='' \<notin> set a" using split_list_first [OF True] by blast
    have ab: "split_at (CHR ''='') s = (a, b)" unfolding s(1) by (rule split_at_append [OF s(2)])
    have "parse_vm_moref spec = Inr v \<longleftrightarrow> v \<noteq> [] \<and> map lower_char a = ''moref'' \<and> b = v"
      using Some True ab by (auto simp: parse_vm_moref_def)
    also have "\<dots> \<longleftrightarrow> v \<noteq> [] \<and> (\<exists>kind. s = kind @ CHR ''='' # v \<and> map lower_char kind = ''moref'')"
      using ab s(1) split_at_append [OF lower_moref_no_eq] by (metis prod.inject)
    finally show ?thesis using Some True by auto
  next
    case False
    then show ?thesis using Some by (auto simp: parse_vm_moref_def)
  qed
qed (simp add: parse_vm_moref_def)

end
