(* ===== verification/NfcOpenSpec.thy ===== *)
theory NfcOpenSpec
  imports NfcOpen NfcLogin
begin

text \<open>
  Theorems about opening a disk: the bytes of the handshake and of \<open>OPEN_FILE\<close>, what the open reply
  must be, the disk object that a successful open leaves, and that a failed one leaves nothing.
\<close>

subsection \<open>Resources\<close>

context sock_frame
begin

lemma frame_handshake: "keeps R (handshake name op version)"
  unfolding handshake_def case_prod_beta
  by (intro keeps_intros frame_send_nfc_msg frame_recv_nfc_msg frame_sendall)

end

context disk_frame
begin

lemma frame_aio_prepare: "keeps D aio_prepare"
  unfolding keeps_def
proof
  fix st :: dstate obtain d s where st: "st = (d, s)" by (cases st)
  let ?m = "bind_io (lift (struct_pack [FI, FI, FI, FI]
                [0, int (nd_aio_buffer_size d), int (nd_aio_buffer_count d), 0])) (\<lambda>open_session.
     then_io (aio_roundtrip NFC_AIO_MSG_OPEN_SESSION open_session [] 0)
     (then_io (aio_roundtrip NFC_AIO_MSG_SET_SOCK_OPTS (replicate 12 0) [] 0)
     (bind_io (lift (struct_pack [FI] [1])) (\<lambda>pool.
      then_io (aio_roundtrip NFC_AIO_MSG_SET_RES_POOL pool [] 0) (ret ())))))"
  have "keeps D ?m" by (intro dk.keeps_intros frame_aio_roundtrip)
  then show "D st (snd (aio_prepare st))"
    unfolding st aio_prepare_def keeps_def by (simp del: struct_pack.simps)
qed

end

lemma unpack_QII_le:
  "unpack_QII buf off =
     (if off + 16 \<le> length buf
      then Inr (le_val (take 8 (drop off buf)), le_val (take 4 (drop (off + 8) buf)),
                le_val (take 4 (drop (off + 12) buf)))
      else Inl StructError)"
  by (simp add: unpack_QII_def unpack_from_def numeral_2_eq_2 add.commute)

lemma unpack_QII_bounds:
  assumes "unpack_QII body off = Inr (h, t, f)"
  shows "h < 2 ^ 64 \<and> t < 2 ^ 32 \<and> f < 2 ^ 32"
  using assms le_val_bound [of "take 8 (drop off body)"] le_val_bound [of "take 4 (drop (off + 8) body)"]
    le_val_bound [of "take 4 (drop (off + 12) body)"]
  by (auto simp: unpack_QII_le split: if_splits)

lemma unpack_I_bound: "unpack_I body off = Inr v \<Longrightarrow> v < 2 ^ 32"
  using le_val_bound [of "take 4 (drop off body)"]
  by (auto simp: unpack_I_def unpack_from_def split: if_splits)

lemma parse_open_reply_InrD:
  "parse_open_reply body = Inr (handle, sector_size) \<Longrightarrow>
     40 \<le> length body \<and> handle < 2 ^ 64 \<and> 0 < sector_size \<and> sector_size < 2 ^ 32"
  by (auto simp: parse_open_reply_def split: if_splits sum.splits dest!: unpack_QII_bounds unpack_I_bound)

lemma keeps_set_opened:
  "handle < 2 ^ 64 \<Longrightarrow> 0 < sector_size \<Longrightarrow> sector_size < 2 ^ 32 \<Longrightarrow> keeps disk_alive (set_opened handle sector_size)"
  by (auto simp: keeps_def disk_alive_def set_opened_def disk_wf_def)

definition open_args_ok :: "int \<Rightarrow> int \<Rightarrow> int \<Rightarrow> bool" where
  "open_args_ok compression bufsize bufcount \<longleftrightarrow>
     1 \<le> bufsize \<and> 1 \<le> bufcount \<and> compression \<in> {int NFC_COMPRESSION_NONE, int NFC_COMPRESSION_FASTLZ}"

lemma init_disk_wf:
  "open_args_ok c b n \<Longrightarrow> disk_wf (nfc_disk_init fd path 0 NFC_SECTOR_SIZE (nat c) (nat b) (nat n))"
  by (auto simp: open_args_ok_def disk_wf_def nfc_disk_init_def)

lemma holds_open_on:
  assumes "open_args_ok c b n"
  shows "proc.holds {Fd fd} (open_on fd path name op version ro c b n) (\<lambda>x. {Fd x})"
proof -
  let ?d = "nfc_disk_init fd path 0 NFC_SECTOR_SIZE (nat c) (nat b) (nat n)"
  have new: "proc.holds {Fd fd} (new_disk ?d) (\<lambda>x. {Fd fd})"
    using holds_new_disk [OF init_disk_wf [OF assms], of fd path] by (simp add: nfc_disk_init_def)
  have fin: "proc.holds {Fd fd} (bind_io (lift (parse_open_reply reply)) (\<lambda>(handle, sector_size).
      then_io (on_disk fd (set_opened handle sector_size)) (ret fd))) (\<lambda>x. {Fd x})" for reply
  proof (cases "parse_open_reply reply")
    case (Inl e)
    then show ?thesis by (auto intro!: proc.holdsI)
  next
    case (Inr p)
    obtain h ss where p: "p = (h, ss)" by (cases p)
    have "keeps disk_alive (set_opened h ss)"
      using parse_open_reply_InrD [of reply h ss] Inr p by (intro keeps_set_opened) auto
    then show ?thesis
      using Inr p by (auto intro!: proc.holds_same_then same_held_on_disk proc.holds_ret)
  qed
  show ?thesis
    unfolding open_on_def Let_def
    by (intro proc.holds_then [OF new] proc.holds_same_then proc.holds_same_bind same_held_on_sock
        same_held_on_disk alive_pre.frame_handshake alive_disk.frame_aio_prepare
        alive_disk.frame_aio_roundtrip proc.rs.keeps_lift fin)
qed

lemma moves_takeover: "proc.moves {} (takeover_authd_socket fd) (\<lambda>x. {Fd x})"
  unfolding takeover_authd_socket_def
proof (rule proc.moves_bind [OF moves_dup_socket], rule proc.movesI)
  fix raw :: nat and w :: world and w' and e :: exn and x :: nat
  assume w: "world_wf w" "{Fd raw} \<subseteq> proc_held w"
  then have "fd_open w raw" by (auto simp: proc_held_def)
  then have run: "then_io (enable_tcp_nodelay raw) (ret raw) w = (Inr raw, w\<lparr>w_nodelay := raw # w_nodelay w\<rparr>)"
    by (simp add: enable_tcp_nodelay_def check_open_def then_io_def)
  show "then_io (enable_tcp_nodelay raw) (ret raw) w = (Inl e, w') \<Longrightarrow> world_wf w' \<and> proc_held w' = proc_held w - {Fd raw}"
    using run by simp
  show "then_io (enable_tcp_nodelay raw) (ret raw) w = (Inr x, w') \<Longrightarrow>
      world_wf w' \<and> proc_held w' = proc_held w - {Fd raw} \<union> {Fd x} \<and> {Fd x} \<inter> (proc_held w - {Fd raw}) = {}"
    using run w by (auto simp: world_wf_def proc_held_def fd_open_def)
qed

lemma moves_wrap_nfcssl: "proc.moves {} (wrap_nfcssl_socket fd host) (\<lambda>x. {Fd x})"
  unfolding wrap_nfcssl_socket_def
  by (intro proc.moves_bind [OF moves_takeover] proc.moves_on_exception proc.moves_holds
      moves_wrap_socket releases_close_fd)

lemma moves_open_disk: "proc.moves {} (open_disk session path name op version ro c b n) (\<lambda>x. {Fd x})"
proof (cases "open_args_ok c b n")
  case True
  have s: "proc.moves {} (if as_nfc_ssl session
      then wrap_nfcssl_socket (as_authd_sock session) (tk_host (as_ticket session))
      else takeover_authd_socket (as_authd_sock session)) (\<lambda>x. {Fd x})"
    by (simp add: moves_wrap_nfcssl moves_takeover)
  show ?thesis
    unfolding open_disk_def
    by (intro proc.moves_same_then proc.rs.keeps_raise_if proc.moves_bind [OF s]
        proc.moves_on_exception holds_open_on [OF True] releases_close_fd)
next
  case False
  then have "b < 1 \<or> n < 1 \<or> c \<notin> {int NFC_COMPRESSION_NONE, int NFC_COMPRESSION_FASTLZ}"
    by (auto simp: open_args_ok_def)
  then have "\<exists>e. open_disk session path name op version ro c b n = raise e"
    unfolding open_disk_def by auto
  then show ?thesis by (auto intro!: proc.movesI)
qed

subsection \<open>The handshake\<close>

lemma send_frame:
  "u32 t \<Longrightarrow> length body \<le> 260 \<Longrightarrow> is_open s \<Longrightarrow> room s = None \<Longrightarrow>
     send_nfc_msg t body s = (Inr (), s\<lparr>tx := tx s @ nfc_frame t body\<rparr>)"
  by (simp add: send_nfc_msg_alt)

lemma recv_frame:
  assumes "is_open s" and "avail (rx s) = nfc_frame t body @ rest" and "u32 t" and "length body \<le> 260"
  shows "recv_nfc_msg s = (Inr (t, ljust0 260 body), s\<lparr>rx := consume 264 (rx s)\<rparr>)"
  using assms recv_nfc_msg_ok [of s] by (simp add: nfc_frame_eq length_nfc_frame le_val_le_bytes u32_def)

text \<open>What the client sends before and after it has seen the version of the server.\<close>

definition hello_script :: "int \<Rightarrow> byte list" where
  "hello_script version = nfc_frame NFC_MSG_HANDSHAKE (map byte_of_char ''PlainText'') @
     nfc_frame NFC_MSG_SESSION_PARAMS [] @ nfc_frame NFC_MSG_VERSION (le_bytes 4 (nat version))"

definition connection_script :: "string \<Rightarrow> string \<Rightarrow> byte list" where
  "connection_script name op = nfc_frame NFC_MSG_CONNECTION_DATA (le_bytes 4 (length name) @ le_bytes 4 (length op)) @
     map byte_of_char name @ map byte_of_char op @ nfc_frame NFC_MSG_SESSION_FEATURES (le_bytes 4 3) @
     nfc_frame NFC_MSG_AIO_SESSION_OPEN []"

text \<open>What a server answers that agrees to version \<open>v\<close>.\<close>

definition handshake_replies :: "nat \<Rightarrow> byte list \<Rightarrow> byte list \<Rightarrow> byte list \<Rightarrow> byte list" where
  "handshake_replies v b1 b2 b3 = nfc_frame NFC_MSG_SESSION_PARAMS_REPLY b1 @
     nfc_frame NFC_MSG_VERSION (le_bytes 4 v @ b2) @ nfc_frame NFC_MSG_AIO_SESSION_OPEN b3"

lemma handshake_ok:
  assumes "is_open s" and "room s = None" and "is_ascii name" and "is_ascii op"
    and "u32 (length name)" and "u32 (length op)" and "0 \<le> version" and "version < 2 ^ 32"
    and "avail (rx s) = handshake_replies v b1 b2 b3 @ rest" and "u32 v"
    and "length b1 \<le> 260" and "length b2 \<le> 256" and "length b3 \<le> 260"
  shows "handshake name op version s =
    (if v < 3 then (Inl (NfcProtocolError (VersionTooOld v)),
       s\<lparr>rx := consume 528 (rx s), tx := tx s @ hello_script version\<rparr>)
     else (Inr (), s\<lparr>rx := consume 792 (rx s), tx := tx s @ hello_script version @ connection_script name op\<rparr>))"
proof -
  let ?f1 = "nfc_frame 43 (map byte_of_char ''PlainText'')" and ?f2 = "nfc_frame 33 []"
  let ?f3 = "nfc_frame 51 (le_bytes 4 (nat version))"
  let ?s1 = "s\<lparr>tx := tx s @ ?f1 @ ?f2\<rparr>"
  let ?s2 = "s\<lparr>rx := consume 264 (rx s), tx := tx s @ ?f1 @ ?f2 @ ?f3\<rparr>"
  let ?s3 = "s\<lparr>rx := consume 528 (rx s), tx := tx s @ hello_script version @ connection_script name op\<rparr>"
  have len: "length (nfc_frame 36 b1) = 264" "length (nfc_frame 51 (le_bytes 4 v @ b2)) = 264"
    "length (nfc_frame 52 b3) = 264"
    using assms(11-13) by (simp_all add: length_nfc_frame)
  have av: "avail (rx ?s1) = nfc_frame 36 b1 @ nfc_frame 51 (le_bytes 4 v @ b2) @ nfc_frame 52 b3 @ rest"
    "avail (rx ?s2) = nfc_frame 51 (le_bytes 4 v @ b2) @ nfc_frame 52 b3 @ rest"
    "avail (rx ?s3) = nfc_frame 52 b3 @ rest"
    using assms(9) len by (simp_all add: handshake_replies_def)
  have c: "consume 264 (consume 264 (rx s)) = consume 528 (rx s)" "consume 264 (consume 528 (rx s)) = consume 792 (rx s)"
    using assms(9) len by (simp_all add: handshake_replies_def)
  have r1: "recv_nfc_msg ?s1 = (Inr (36, ljust0 260 b1), ?s1\<lparr>rx := consume 264 (rx s)\<rparr>)"
    using recv_frame [OF _ av(1)] assms(1,11) by (simp add: u32_def)
  have r2: "recv_nfc_msg ?s2 = (Inr (51, ljust0 260 (le_bytes 4 v @ b2)), ?s2\<lparr>rx := consume 528 (rx s)\<rparr>)"
    using recv_frame [OF _ av(2)] assms(1,12) c by (simp add: u32_def)
  have r3: "recv_nfc_msg ?s3 = (Inr (52, ljust0 260 b3), ?s3\<lparr>rx := consume 792 (rx s)\<rparr>)"
    using recv_frame [OF _ av(3)] assms(1,13) c by (simp add: u32_def)
  have p: "struct_pack [FI] [version] = Inr (le_bytes 4 (nat version))"
    "struct_pack [FI, FI] [int (length name), int (length op)] = Inr (le_bytes 4 (length name) @ le_bytes 4 (length op))"
    "struct_pack [FI] [3] = Inr (le_bytes 4 3)"
    using assms(5-8) by (simp_all add: pack1_def u32_def)
  have e: "encode_ascii name = Inr (map byte_of_char name)" "encode_ascii op = Inr (map byte_of_char op)"
    using assms(3,4) by (simp_all add: encode_ascii_def is_ascii_def)
  have v: "unpack_I (ljust0 260 (le_bytes 4 v @ b2)) 0 = Inr v"
    using assms(10,12) by (simp add: unpack_I_le ljust0_def le_val_le_bytes u32_def)
  have h: "hello_script version = ?f1 @ ?f2 @ ?f3" by (simp add: hello_script_def)
  show ?thesis
    unfolding handshake_def
    using assms(1,2) r1 r2 r3 p e v
    by (simp add: send_frame u32_def h connection_script_def raise_if_def del: struct_pack.simps)
qed

text \<open>
  The classic handshake. With a server that answers each step, \<open>_handshake\<close> sends exactly the frames of
  the protocol with the client's names and version, and leaves the stream right after the last reply. A
  server whose version is below 3 is refused before the client names itself or asks for an AIO session.
\<close>

theorem handshake_dialogue:
  assumes "is_open s" and "room s = None" and "is_ascii name" and "is_ascii op"
    and "u32 (length name)" and "u32 (length op)" and "0 \<le> version" and "version < 2 ^ 32"
    and "avail (rx s) = handshake_replies v b1 b2 b3 @ rest" and "u32 v"
    and "length b1 \<le> 260" and "length b2 \<le> 256" and "length b3 \<le> 260"
  shows "\<exists>r s'. handshake name op version s = (r, s') \<and> is_open s' \<and>
    (if v < 3 then r = Inl (NfcProtocolError (VersionTooOld v)) \<and> tx s' = tx s @ hello_script version
     else r = Inr () \<and> tx s' = tx s @ hello_script version @ connection_script name op \<and> avail (rx s') = rest)"
  using handshake_ok [OF assms] assms(1,9,11-13) by (simp add: handshake_replies_def length_nfc_frame)

definition demo_shake :: "nat \<Rightarrow> sock" where
  "demo_shake v = demo_sock [Data (handshake_replies v [7] [] []), Data [9]]"

theorem handshake_dialogue_witness:
  "(\<exists>s'. handshake ''vddk'' ''nbdmode'' 11 (demo_shake 11) = (Inr (), s') \<and> is_open s' \<and>
      tx s' = hello_script 11 @ connection_script ''vddk'' ''nbdmode'' \<and> avail (rx s') = [9]) \<and>
   (\<exists>s'. handshake ''vddk'' ''nbdmode'' 11 (demo_shake 2) = (Inl (NfcProtocolError (VersionTooOld 2)), s') \<and>
      is_open s' \<and> tx s' = hello_script 11)"
proof -
  have names: "is_ascii ''vddk''" "is_ascii ''nbdmode''" "u32 (length ''vddk'')" "u32 (length ''nbdmode'')"
    by code_simp+
  have s: "is_open (demo_shake v)" "room (demo_shake v) = None" "tx (demo_shake v) = []"
    "avail (rx (demo_shake v)) = handshake_replies v [7] [] [] @ [9]" for v
    by (simp_all add: demo_shake_def demo_sock_def)
  show ?thesis
    using handshake_dialogue [OF s(1,2) names _ _ s(4), of 11 11] handshake_dialogue [OF s(1,2) names _ _ s(4), of 11 2]
    by (simp add: u32_def s)
qed

subsection \<open>A disk that opens\<close>

lemma on_sock_run:
  "w_socks w fd = Some s \<Longrightarrow> m s = (r, s') \<Longrightarrow> on_sock fd m w = (r, w\<lparr>w_socks := (w_socks w)(fd \<mapsto> s')\<rparr>)"
  by (simp add: on_sock_def)

definition prepare_script :: "nat \<Rightarrow> nat \<Rightarrow> byte list" where
  "prepare_script bufsize bufcount =
     aio_msg NFC_AIO_MSG_OPEN_SESSION 0 (le_bytes 4 0 @ le_bytes 4 bufsize @ le_bytes 4 bufcount @ le_bytes 4 0) @
     aio_msg NFC_AIO_MSG_SET_SOCK_OPTS 1 (replicate 12 0) @ aio_msg NFC_AIO_MSG_SET_RES_POOL 2 (le_bytes 4 1)"

definition prepare_replies :: "byte list \<Rightarrow> byte list \<Rightarrow> byte list \<Rightarrow> byte list" where
  "prepare_replies c1 c2 c3 = aio_msg NFC_AIO_MSG_OPEN_SESSION 0 c1 @
     aio_msg NFC_AIO_MSG_SET_SOCK_OPTS 1 c2 @ aio_msg NFC_AIO_MSG_SET_RES_POOL 2 c3"

lemma aio_prepare_ok:
  assumes "is_open s" and "room s = None" and "nd_op_id d = 0"
    and "u32 (nd_aio_buffer_size d)" and "u32 (nd_aio_buffer_count d)"
    and "avail (rx s) = prepare_replies c1 c2 c3 @ rest"
    and "u32 (length c1)" and "u32 (length c2)" and "u32 (length c3)"
  shows "aio_prepare (d, s) = (Inr (), d\<lparr>nd_op_id := 3\<rparr>,
    s\<lparr>rx := consume (length (prepare_replies c1 c2 c3)) (rx s),
      tx := tx s @ prepare_script (nd_aio_buffer_size d) (nd_aio_buffer_count d)\<rparr>)"
proof -
  let ?p = "le_bytes 4 0 @ le_bytes 4 (nd_aio_buffer_size d) @ le_bytes 4 (nd_aio_buffer_count d) @ le_bytes 4 0"
  let ?m1 = "aio_msg 2 0 ?p" and ?m2 = "aio_msg 9 1 (replicate 12 0)" and ?m3 = "aio_msg 22 2 (le_bytes 4 1)"
  let ?k1 = "16 + length c1" and ?k2 = "16 + length c2" and ?k3 = "16 + length c3"
  let ?s1 = "s\<lparr>rx := consume ?k1 (rx s), tx := tx s @ ?m1\<rparr>"
  let ?s2 = "s\<lparr>rx := consume (?k1 + ?k2) (rx s), tx := tx s @ ?m1 @ ?m2\<rparr>"
  have p: "struct_pack [FI, FI, FI, FI] [0, int (nd_aio_buffer_size d), int (nd_aio_buffer_count d), 0] = Inr ?p"
    "struct_pack [FI] [1] = Inr (le_bytes 4 1)"
    using assms(4,5) by (simp_all add: pack1_def u32_def)
  have av: "avail (rx s) = aio_msg 2 (nd_op_id d) c1 @ aio_msg 9 1 c2 @ aio_msg 22 2 c3 @ rest"
    "avail (rx ?s1) = aio_msg 9 (nd_op_id (bump d)) c2 @ aio_msg 22 2 c3 @ rest"
    "avail (rx ?s2) = aio_msg 22 (nd_op_id (bump (bump d))) c3 @ rest"
    using assms(3,6) by (simp_all add: prepare_replies_def flip: numeral_2_eq_2)
  have r1: "aio_roundtrip 2 ?p [] 0 (d, s) = (Inr c1, bump d, ?s1)"
    using aio_roundtrip_ok [OF assms(1,2) av(1), of ?p "[]"] assms by (simp add: u32_def)
  have r2: "aio_roundtrip 9 (replicate 12 0) [] 0 (bump d, ?s1) = (Inr c2, bump (bump d), ?s2)"
    using aio_roundtrip_ok [OF _ _ av(2), of "replicate 12 0" "[]"] assms by (simp add: u32_def prepare_replies_def)
  have r3: "aio_roundtrip 22 (le_bytes 4 1) [] 0 (bump (bump d), ?s2) =
      (Inr c3, bump (bump (bump d)), ?s2\<lparr>rx := consume (?k1 + ?k2 + ?k3) (rx s), tx := tx s @ ?m1 @ ?m2 @ ?m3\<rparr>)"
    using aio_roundtrip_ok [OF _ _ av(3), of "le_bytes 4 1" "[]"] assms
    by (simp add: u32_def prepare_replies_def flip: numeral_2_eq_2)
  show ?thesis
    unfolding aio_prepare_def using p r1 r2 r3 assms(3)
    by (simp add: prepare_script_def prepare_replies_def bump_def del: struct_pack.simps flip: numeral_2_eq_2)
qed

definition open_body :: "string \<Rightarrow> bool \<Rightarrow> byte list" where
  "open_body path ro = ljust0 60 (le_bytes 4 (length (encode_utf8 path)) @ le_bytes 4 0 @ le_bytes 4 0 @ le_bytes 4 0 @
     le_bytes 4 NFC_DISK @ le_bytes 4 (if ro then 0x1E else 0x1A))"

text \<open>All that the client sends to open a disk, and the replies that make it succeed.\<close>

definition open_script :: "string \<Rightarrow> string \<Rightarrow> int \<Rightarrow> string \<Rightarrow> bool \<Rightarrow> nat \<Rightarrow> nat \<Rightarrow> byte list" where
  "open_script name op version path ro bufsize bufcount =
     hello_script version @ connection_script name op @ prepare_script bufsize bufcount @
     aio_msg NFC_AIO_MSG_OPEN_FILE 3 (open_body path ro) @ encode_utf8 path"

definition open_replies ::
  "nat \<Rightarrow> byte list \<Rightarrow> byte list \<Rightarrow> byte list \<Rightarrow> byte list \<Rightarrow> byte list \<Rightarrow> byte list \<Rightarrow> byte list \<Rightarrow> byte list" where
  "open_replies v b1 b2 b3 c1 c2 c3 reply =
     handshake_replies v b1 b2 b3 @ prepare_replies c1 c2 c3 @ aio_msg NFC_AIO_MSG_OPEN_FILE 3 reply"

definition replies_fit ::
  "nat \<Rightarrow> byte list \<Rightarrow> byte list \<Rightarrow> byte list \<Rightarrow> byte list \<Rightarrow> byte list \<Rightarrow> byte list \<Rightarrow> byte list \<Rightarrow> bool" where
  "replies_fit v b1 b2 b3 c1 c2 c3 reply \<longleftrightarrow> 3 \<le> v \<and> u32 v \<and> length b1 \<le> 260 \<and> length b2 \<le> 256 \<and>
     length b3 \<le> 260 \<and> u32 (length c1) \<and> u32 (length c2) \<and> u32 (length c3) \<and> u32 (length reply)"

text \<open>The arguments that fit the fields they are sent in.\<close>

definition args_fit :: "string \<Rightarrow> string \<Rightarrow> int \<Rightarrow> string \<Rightarrow> int \<Rightarrow> int \<Rightarrow> int \<Rightarrow> bool" where
  "args_fit name op version path c b n \<longleftrightarrow> is_ascii name \<and> is_ascii op \<and> u32 (length name) \<and> u32 (length op) \<and>
     0 \<le> version \<and> version < 2 ^ 32 \<and> u32 (length (encode_utf8 path)) \<and> open_args_ok c b n \<and> b < 2 ^ 32 \<and> n < 2 ^ 32"

definition opened_disk :: "nat \<Rightarrow> string \<Rightarrow> nat \<Rightarrow> nat \<Rightarrow> int \<Rightarrow> int \<Rightarrow> int \<Rightarrow> nfc_disk" where
  "opened_disk fd path h ss c b n =
     \<lparr>nd_sock = fd, nd_op_id = 4, nd_path = path, nd_handle = h, nd_sector_size = ss, nd_compression = nat c,
      nd_aio_buffer_size = nat b, nd_aio_buffer_count = nat n, nd_closed = False\<rparr>"

lemma open_file_ok:
  assumes "is_open s" and "room s = None" and "nd_op_id d = 3"
    and "avail (rx s) = aio_msg 4 3 reply @ rest" and "u32 (length reply)"
  shows "aio_roundtrip 4 (open_body path ro) extra 0 (d, s) = (Inr reply, d\<lparr>nd_op_id := 4\<rparr>,
    s\<lparr>rx := consume (16 + length reply) (rx s), tx := tx s @ aio_msg 4 3 (open_body path ro) @ extra\<rparr>)"
  using aio_roundtrip_ok [of s 4 d reply rest "open_body path ro" extra] assms
  by (simp add: u32_def open_body_def bump_def)

lemma open_on_ok:
  assumes w: "w_socks w fd = Some s" "is_open s" "room s = None" and args: "args_fit name op version path c b n"
    and av: "avail (rx s) = open_replies v b1 b2 b3 c1 c2 c3 reply @ rest"
    and fit: "replies_fit v b1 b2 b3 c1 c2 c3 reply" and reply: "parse_open_reply reply = Inr (h, ss)"
  shows "\<exists>s'. open_on fd path name op version ro c b n w = (Inr fd,
      w\<lparr>w_socks := (w_socks w)(fd \<mapsto> s'), w_disks := (w_disks w)(fd \<mapsto> opened_disk fd path h ss c b n)\<rparr>) \<and>
    is_open s' \<and> room s' = None \<and> tx s' = tx s @ open_script name op version path ro (nat b) (nat n) \<and>
    avail (rx s') = rest \<and> close_fault s' = close_fault s"
proof -
  let ?d = "nfc_disk_init fd path 0 512 (nat c) (nat b) (nat n)"
  let ?P = "prepare_replies c1 c2 c3" and ?H = "hello_script version @ connection_script name op"
  let ?s1 = "s\<lparr>rx := consume 792 (rx s), tx := tx s @ ?H\<rparr>"
  let ?s2 = "s\<lparr>rx := consume (792 + length ?P) (rx s), tx := tx s @ ?H @ prepare_script (nat b) (nat n)\<rparr>"
  let ?s3 = "s\<lparr>rx := consume (792 + length ?P + 16 + length reply) (rx s),
      tx := tx s @ open_script name op version path ro (nat b) (nat n)\<rparr>"
  have len: "length (handshake_replies v b1 b2 b3) = 792"
    using fit by (simp add: replies_fit_def handshake_replies_def length_nfc_frame)
  have av': "avail (rx s) = handshake_replies v b1 b2 b3 @ ?P @ aio_msg 4 3 reply @ rest"
    "avail (rx ?s1) = ?P @ aio_msg 4 3 reply @ rest" "avail (rx ?s2) = aio_msg 4 3 reply @ rest"
    "avail (rx ?s3) = rest"
    using av len by (simp_all add: open_replies_def)
  have c: "consume (length ?P) (consume 792 (rx s)) = consume (792 + length ?P) (rx s)"
    "consume (16 + length reply) (consume (792 + length ?P) (rx s)) = consume (792 + length ?P + 16 + length reply) (rx s)"
    using av len by (simp_all add: open_replies_def add.assoc)
  have h: "handshake name op version s = (Inr (), ?s1)"
    using handshake_ok [OF w(2,3) _ _ _ _ _ _ av'(1)] args fit by (simp add: args_fit_def replies_fit_def)
  have u: "u32 (nat b)" "u32 (nat n)"
    using args by (auto simp: args_fit_def open_args_ok_def u32_def nat_less_iff)
  have p: "aio_prepare (?d, ?s1) = (Inr (), ?d\<lparr>nd_op_id := 3\<rparr>, ?s2)"
    using aio_prepare_ok [OF _ _ _ _ _ av'(2), of ?d] u fit w(2,3) c(1)
    by (simp add: replies_fit_def nfc_disk_init_def)
  have o: "aio_roundtrip 4 (open_body path ro) (encode_utf8 path) 0 (?d\<lparr>nd_op_id := 3\<rparr>, ?s2) =
      (Inr reply, ?d\<lparr>nd_op_id := 4\<rparr>, ?s3)"
    using open_file_ok [OF _ _ _ av'(3), of "?d\<lparr>nd_op_id := 3\<rparr>" path ro "encode_utf8 path"] fit w(2,3) c(2)
    by (simp add: replies_fit_def open_script_def)
  have pk: "struct_pack [FI, FI, FI, FI, FI, FI] [int (length (encode_utf8 path)), 0, 0, 0, int NFC_DISK,
      if ro then NFC_OPEN_FLAGS_READ_ONLY else NFC_OPEN_FLAGS_READ_WRITE] = Inr (take 24 (open_body path ro))"
    "ljust0 60 (take 24 (open_body path ro)) = open_body path ro"
    using args by (simp_all add: args_fit_def u32_def pack1_def open_body_def ljust0_def)
  let ?w1 = "w\<lparr>w_socks := (w_socks w)(fd \<mapsto> ?s1)\<rparr>"
  let ?w2 = "w\<lparr>w_socks := (w_socks w)(fd \<mapsto> ?s1), w_disks := (w_disks w)(fd \<mapsto> ?d)\<rparr>"
  let ?w3 = "w\<lparr>w_socks := (w_socks w)(fd \<mapsto> ?s2), w_disks := (w_disks w)(fd \<mapsto> ?d\<lparr>nd_op_id := 3\<rparr>)\<rparr>"
  let ?w4 = "w\<lparr>w_socks := (w_socks w)(fd \<mapsto> ?s3), w_disks := (w_disks w)(fd \<mapsto> ?d\<lparr>nd_op_id := 4\<rparr>)\<rparr>"
  let ?w5 = "w\<lparr>w_socks := (w_socks w)(fd \<mapsto> ?s3), w_disks := (w_disks w)(fd \<mapsto> opened_disk fd path h ss c b n)\<rparr>"
  have 1: "on_sock fd (handshake name op version) w = (Inr (), ?w1)" using on_sock_run [of w fd s, OF w(1)] h by blast
  have 2: "new_disk ?d ?w1 = (Inr (), ?w2)" by (simp add: new_disk_def nfc_disk_init_def)
  have 3: "on_disk fd aio_prepare ?w2 = (Inr (), ?w3)" using p by (simp add: on_disk_def)
  have 4: "on_disk fd (aio_roundtrip 4 (open_body path ro) (encode_utf8 path) 0) ?w3 = (Inr reply, ?w4)"
    using o by (simp add: on_disk_def)
  have 5: "on_disk fd (set_opened h ss) ?w4 = (Inr (), ?w5)"
    by (simp add: on_disk_def set_opened_def opened_disk_def nfc_disk_init_def)
  have "open_on fd path name op version ro c b n w = (Inr fd, ?w5)"
    unfolding open_on_def Let_def using 1 2 3 4 5 pk reply by (simp del: struct_pack.simps)
  then show ?thesis using w(2,3) av'(4) by (intro exI [of _ ?s3]) simp
qed

definition nfc_layer :: "NfcAuthSession \<Rightarrow> (world, nat) io" where
  "nfc_layer session = (if as_nfc_ssl session
     then wrap_nfcssl_socket (as_authd_sock session) (tk_host (as_ticket session))
     else takeover_authd_socket (as_authd_sock session))"

lemma open_disk_alt:
  "open_args_ok c b n \<Longrightarrow> open_disk session path name op version ro c b n =
     bind_io (nfc_layer session) (\<lambda>sock. on_exception (open_on sock path name op version ro c b n) (close_fd sock))"
  by (simp add: open_disk_def open_args_ok_def nfc_layer_def)

lemma open_disk_InrD:
  assumes "open_disk session path name op version ro c b n w = (Inr fd, w')"
  shows "open_args_ok c b n \<and>
    (\<exists>sock w1. nfc_layer session w = (Inr sock, w1) \<and> open_on sock path name op version ro c b n w1 = (Inr fd, w'))"
proof -
  have ok: "open_args_ok c b n" using assms by (auto simp: open_disk_def open_args_ok_def split: if_splits)
  then show ?thesis using assms by (auto simp: open_disk_alt bind_io_Inr_iff dest!: on_exception_InrD)
qed

text \<open>
  C11. Opening works. On the layer that the authd connection gives (the bare TCP stream for NBD, a second TLS
  session for NBDSSL), with a server that answers every step, \<open>open_disk\<close> sends exactly the handshake, the
  AIO session set-up and \<open>OPEN_FILE\<close> with the UTF-8 path and the flags of the mode, with the \<open>opId\<close>s 0 to 3,
  and returns an open disk object with the server's handle and sector size and the caller's parameters,
  the stream at the first byte after the last reply.
\<close>

theorem open_disk_opens:
  assumes "nfc_layer session w = (Inr fd, w1)" and "w_socks w1 fd = Some s" and "is_open s" and "room s = None"
    and "args_fit name op version path c b n"
    and "avail (rx s) = open_replies v b1 b2 b3 c1 c2 c3 reply @ rest" and "replies_fit v b1 b2 b3 c1 c2 c3 reply"
    and "parse_open_reply reply = Inr (h, ss)"
  shows "\<exists>s'. open_disk session path name op version ro c b n w = (Inr fd,
      w1\<lparr>w_socks := (w_socks w1)(fd \<mapsto> s'), w_disks := (w_disks w1)(fd \<mapsto> opened_disk fd path h ss c b n)\<rparr>) \<and>
    is_open s' \<and> tx s' = tx s @ open_script name op version path ro (nat b) (nat n) \<and> avail (rx s') = rest"
proof -
  have "open_args_ok c b n" using assms(5) by (simp add: args_fit_def)
  then show ?thesis
    using open_on_ok [OF assms(2-8), of ro] assms(1)
    by (auto simp: open_disk_alt on_exception_def catch_io_def)
qed

lemmas layer_defs = layer_ops wrap_nfcssl_socket_def takeover_authd_socket_def dup_socket_def enable_tcp_nodelay_def
  wrap_socket_def demo_sock_def

definition demo_open_reply :: "byte list" where
  "demo_open_reply = replicate 8 0 @ le_bytes 8 77 @ le_bytes 4 2 @ replicate 16 0 @ le_bytes 4 0"

definition demo_nfc_sock :: sock where
  "demo_nfc_sock = demo_sock [Data (open_replies 11 [] [] [] [] [] [] demo_open_reply), Data (aio_msg 5 4 []), Data (aio_msg 3 5 [])]"

definition demo_session :: "bool \<Rightarrow> NfcAuthSession" where
  "demo_session ssl = \<lparr>as_si = 0, as_ticket = demo_ticket, as_authd_sock = 3, as_nfc_ssl = ssl\<rparr>"

definition demo_authed :: "net_event list \<Rightarrow> world" where
  "demo_authed es = (demo_world es)\<lparr>w_socks := [3 \<mapsto> demo_sock []], w_next := 4\<rparr>"

theorem open_disk_opens_witness:
  "\<exists>w' s'. open_disk (demo_session True) ''[ds] a.vmdk'' ''vddk'' ''nbdmode'' 11 True 2 65536 1
       (demo_authed [Accept (demo_sock []) None, Accept demo_nfc_sock (Some [7])]) = (Inr 5, w') \<and>
     w_disks w' 5 = Some (opened_disk 5 ''[ds] a.vmdk'' 77 512 2 65536 1) \<and> w_socks w' 5 = Some s' \<and>
     tx s' = open_script ''vddk'' ''nbdmode'' 11 ''[ds] a.vmdk'' True 65536 1"
proof -
  let ?w = "demo_authed [Accept (demo_sock []) None, Accept demo_nfc_sock (Some [7])]"
  obtain w1 where w1: "nfc_layer (demo_session True) ?w = (Inr 5, w1)" and s: "w_socks w1 5 = Some demo_nfc_sock"
    by (simp add: nfc_layer_def demo_session_def demo_authed_def demo_world_def demo_nfc_sock_def layer_defs)
  have "args_fit ''vddk'' ''nbdmode'' 11 ''[ds] a.vmdk'' 2 65536 1" "replies_fit 11 [] [] [] [] [] [] demo_open_reply"
    "parse_open_reply demo_open_reply = Inr (77, 512)"
    by code_simp+
  moreover have "is_open demo_nfc_sock" "room demo_nfc_sock = None" "tx demo_nfc_sock = []"
    "avail (rx demo_nfc_sock) = open_replies 11 [] [] [] [] [] [] demo_open_reply @ aio_msg 5 4 [] @ aio_msg 3 5 []"
    by (simp_all add: demo_nfc_sock_def demo_sock_def)
  ultimately show ?thesis
    using open_disk_opens [OF w1 s, of "''vddk''" "''nbdmode''" 11 "''[ds] a.vmdk''" 2 65536 1 11] by fastforce
qed

subsection \<open>Every disk that opens\<close>

lemma aio_send_InrD:
  "aio_send t p x (d, s) = (Inr op, d', s') \<Longrightarrow> d' = bump d \<and> is_open s'"
  by (auto simp: aio_send_def next_op_id_def on_snd_iff bump_def io_iffs dest!: sock_sendall_InrD)

lemma aio_roundtrip_InrD:
  assumes "aio_roundtrip t p x 0 (d, s) = (Inr body, d', s')"
  shows "d' = bump d \<and> is_open s'"
proof -
  from assms obtain op d1 s1 q s2 where snd: "aio_send t p x (d, s) = (Inr op, d1, s1)"
    and rcv: "aio_recv_reply s1 = (Inr q, s2)" and "d' = d1" "s' = s2"
    by (auto simp: aio_roundtrip_def io_iffs on_snd_iff split: prod.splits if_splits)
  moreover have "sock_alive s1 s2" by (rule keepsD [OF alive_pre.frame_aio_recv_reply rcv])
  ultimately show ?thesis using aio_send_InrD [OF snd] by (simp add: sock_alive_def)
qed

lemma aio_prepare_InrD:
  assumes "aio_prepare (d, s) = (Inr u, d', s')"
  shows "d' = d\<lparr>nd_op_id := nd_op_id d + 3\<rparr> \<and> u32 (nd_aio_buffer_size d) \<and> u32 (nd_aio_buffer_count d)"
proof -
  obtain p where p: "struct_pack [FI, FI, FI, FI] [0, int (nd_aio_buffer_size d), int (nd_aio_buffer_count d), 0] = Inr p"
    using assms by (fastforce simp: aio_prepare_def bind_io_Inr_iff simp del: struct_pack.simps)
  then have "list_all2 (\<lambda>f v. 0 \<le> v \<and> v < 256 ^ fmt_size f) [FI, FI, FI, FI]
      [0, int (nd_aio_buffer_size d), int (nd_aio_buffer_count d), 0]"
    unfolding struct_pack_Inr_iff [symmetric] by blast
  then have "u32 (nd_aio_buffer_size d) \<and> u32 (nd_aio_buffer_count d)" by (simp add: u32_def)
  moreover have "d' = bump (bump (bump d))"
    using assms p by (auto simp: aio_prepare_def io_iffs simp del: struct_pack.simps dest!: aio_roundtrip_InrD)
  ultimately show ?thesis by (simp add: bump_def numeral_3_eq_3)
qed

lemma on_disk_InrE:
  assumes "on_disk fd m w = (Inr x, w')"
  obtains d s d' s' where "w_disks w fd = Some d" "w_socks w fd = Some s" "m (d, s) = (Inr x, d', s')"
    "w' = w\<lparr>w_disks := (w_disks w)(fd \<mapsto> d'), w_socks := (w_socks w)(fd \<mapsto> s')\<rparr>"
  using assms by (auto simp: on_disk_def split: option.splits prod.splits)

lemma open_on_InrD:
  assumes "open_on fd path name op version ro c b n w = (Inr x, w')"
  shows "x = fd \<and> u32 (nat b) \<and> u32 (nat n) \<and>
    (\<exists>h ss s. 0 < ss \<and> ss < 2 ^ 32 \<and> h < 2 ^ 64 \<and> w_disks w' fd = Some (opened_disk fd path h ss c b n) \<and>
       w_socks w' fd = Some s \<and> is_open s)"
proof -
  let ?d = "nfc_disk_init fd path 0 NFC_SECTOR_SIZE (nat c) (nat b) (nat n)"
  from assms obtain w1 w2 w3 w4 body reply h ss u1 u2 u3 where
    new: "new_disk ?d w1 = (Inr u1, w2)" and prep: "on_disk fd aio_prepare w2 = (Inr u2, w3)"
    and opn: "on_disk fd (aio_roundtrip NFC_AIO_MSG_OPEN_FILE (ljust0 60 body) (encode_utf8 path) 0) w3 = (Inr reply, w4)"
    and reply: "parse_open_reply reply = Inr (h, ss)" and set: "on_disk fd (set_opened h ss) w4 = (Inr u3, w')" and x: "x = fd"
    unfolding open_on_def Let_def
    by (auto simp: io_iffs lift_def simp del: struct_pack.simps NFC_AIO_MSG_OPEN_FILE_def NFC_SECTOR_SIZE_def)
  have d2: "w_disks w2 fd = Some ?d" using new by (auto simp: new_disk_def nfc_disk_init_def)
  from prep d2 obtain s2 s3 d3 where "aio_prepare (?d, s2) = (Inr u2, d3, s3)" and w3: "w_disks w3 fd = Some d3"
    by (elim on_disk_InrE) auto
  then have d3: "d3 = ?d\<lparr>nd_op_id := 3\<rparr>" and u: "u32 (nat b)" "u32 (nat n)"
    by (auto dest!: aio_prepare_InrD simp: nfc_disk_init_def)
  from opn w3 obtain s3' s4 d4 where "aio_roundtrip NFC_AIO_MSG_OPEN_FILE (ljust0 60 body) (encode_utf8 path) 0 (d3, s3') = (Inr reply, d4, s4)"
    and w4: "w_disks w4 fd = Some d4" "w_socks w4 fd = Some s4"
    by (elim on_disk_InrE) auto
  then have d4: "d4 = ?d\<lparr>nd_op_id := 4\<rparr>" "is_open s4"
    using d3 by (auto dest!: aio_roundtrip_InrD simp: bump_def)
  have "w_disks w' fd = Some (opened_disk fd path h ss c b n)" "w_socks w' fd = Some s4"
    using set w4 d4 by (auto elim!: on_disk_InrE simp: set_opened_def opened_disk_def nfc_disk_init_def)
  then show ?thesis using x u d4(2) parse_open_reply_InrD [OF reply] by blast
qed

lemma opened_disk_wf:
  "open_args_ok c b n \<Longrightarrow> 0 < ss \<Longrightarrow> ss < 2 ^ 32 \<Longrightarrow> h < 2 ^ 64 \<Longrightarrow> disk_wf (opened_disk fd path h ss c b n)"
  by (auto simp: open_args_ok_def disk_wf_def opened_disk_def)

text \<open>
  C12. What an opened disk is, whatever the server sent. When \<open>open_disk\<close> returns, its disk object is well formed:
  it has the path, compression and AIO buffer parameters that were asked for, the next \<open>opId\<close> is 4, the handle
  fits in 64 bits and the sector size is positive and fits in 32 bits, the buffer parameters are positive
  and fit in 32 bits; it is not closed, and its socket is open and was not open before.
\<close>

theorem open_disk_typed:
  assumes "world_wf w" and "open_disk session path name op version ro c b n w = (Inr fd, w')"
  shows "\<exists>h ss s. w_disks w' fd = Some (opened_disk fd path h ss c b n) \<and> disk_wf (opened_disk fd path h ss c b n) \<and>
    1 \<le> b \<and> b < 2 ^ 32 \<and> 1 \<le> n \<and> n < 2 ^ 32 \<and> w_socks w' fd = Some s \<and> is_open s \<and> \<not> fd_open w fd"
proof -
  obtain sock w1 where ok: "open_args_ok c b n" and o: "open_on sock path name op version ro c b n w1 = (Inr fd, w')"
    using open_disk_InrD [OF assms(2)] by blast
  then obtain h ss s where d: "0 < ss" "ss < 2 ^ 32" "h < 2 ^ 64" "w_disks w' fd = Some (opened_disk fd path h ss c b n)"
    "w_socks w' fd = Some s" "is_open s" "u32 (nat b)" "u32 (nat n)"
    using open_on_InrD [OF o] by blast
  have "{Fd fd} \<inter> proc_held w = {}"
    using proc.moves_Inr [OF moves_open_disk assms(1) _ assms(2)] by simp
  then have "\<not> fd_open w fd" by (auto simp: proc_held_def)
  moreover have "disk_wf (opened_disk fd path h ss c b n)" using opened_disk_wf ok d(1-3) by blast
  ultimately show ?thesis using ok d by (auto simp: open_args_ok_def u32_def nat_less_iff)
qed

lemma demo_opens:
  "\<exists>w'. open_disk (demo_session False) ''[ds] a.vmdk'' ''vddk'' ''nbdmode'' 11 True 2 65536 1
     (demo_authed [Accept demo_nfc_sock None]) = (Inr 4, w')"
proof -
  obtain w1 where w1: "nfc_layer (demo_session False) (demo_authed [Accept demo_nfc_sock None]) = (Inr 4, w1)"
    and s: "w_socks w1 4 = Some demo_nfc_sock"
    by (simp add: nfc_layer_def demo_session_def demo_authed_def demo_world_def demo_nfc_sock_def layer_defs)
  have "args_fit ''vddk'' ''nbdmode'' 11 ''[ds] a.vmdk'' 2 65536 1" "replies_fit 11 [] [] [] [] [] [] demo_open_reply"
    "parse_open_reply demo_open_reply = Inr (77, 512)" and ok: "open_args_ok 2 65536 1"
    by code_simp+
  moreover have "is_open demo_nfc_sock" "room demo_nfc_sock = None"
    "avail (rx demo_nfc_sock) = open_replies 11 [] [] [] [] [] [] demo_open_reply @ aio_msg 5 4 [] @ aio_msg 3 5 []"
    by (simp_all add: demo_nfc_sock_def demo_sock_def)
  ultimately obtain w' where "open_on 4 ''[ds] a.vmdk'' ''vddk'' ''nbdmode'' 11 True 2 65536 1 w1 = (Inr 4, w')"
    using open_on_ok [OF s, of "''vddk''" "''nbdmode''" 11 "''[ds] a.vmdk''" 2 65536 1 11] by blast
  then show ?thesis
    using w1 by (simp only: open_disk_alt [OF ok] bind_io_Inr) (simp add: on_exception_def catch_io_def)
qed

lemma demo_authed_wf: "world_wf (demo_authed es)"
  by (simp add: demo_authed_def demo_world_def world_wf_def fd_open_def)

theorem open_disk_typed_witness:
  "\<exists>w' h ss s. open_disk (demo_session False) ''[ds] a.vmdk'' ''vddk'' ''nbdmode'' 11 True 2 65536 1
       (demo_authed [Accept demo_nfc_sock None]) = (Inr 4, w') \<and>
     w_disks w' 4 = Some (opened_disk 4 ''[ds] a.vmdk'' h ss 2 65536 1) \<and>
     disk_wf (opened_disk 4 ''[ds] a.vmdk'' h ss 2 65536 1) \<and> w_socks w' 4 = Some s \<and> is_open s"
  using demo_opens open_disk_typed [OF demo_authed_wf] by blast

text \<open>
  C34. A failed open leaves nothing behind. Arguments out of range are refused with the exception of their
  case before anything else happens; and whenever \<open>open_disk\<close> raises, in whichever step and for whichever
  server, the process holds exactly the sockets and VIM sessions that it held before, the authd socket
  among them.
\<close>

theorem open_disk_fails_clean:
  assumes "world_wf w" and "open_disk session path name op version ro c b n w = (Inl e, w')"
  shows "world_wf w' \<and> proc_held w' = proc_held w \<and>
    (if b < 1 then e = ValueError (Text ''aio_buffer_size must be at least 1'') \<and> w' = w
     else if n < 1 then e = ValueError (Text ''aio_buffer_count must be at least 1'') \<and> w' = w
     else if c \<noteq> 0 \<and> c \<noteq> 2 then e = NotImplementedError (UnsupportedCompression c) \<and> w' = w
     else True)"
  using proc.moves_Inl [OF moves_open_disk assms(1) _ assms(2)] assms(2)
  by (auto simp: open_disk_def)

text \<open>The second TLS handshake fails.\<close>

theorem open_disk_fails_clean_witness:
  "\<exists>w'. open_disk (demo_session True) ''a'' ''vddk'' ''nbdmode'' 11 True 0 65536 1
      (demo_authed [Accept (demo_sock []) None, Refuse SSLError]) = (Inl SSLError, w') \<and> proc_held w' = {Fd 3}"
proof -
  let ?w = "demo_authed [Accept (demo_sock []) None, Refuse SSLError]"
  let ?run = "open_disk (demo_session True) ''a'' ''vddk'' ''nbdmode'' 11 True 0 65536 1 ?w"
  have "fst ?run = Inl SSLError" by code_simp
  then obtain w' where run: "?run = (Inl SSLError, w')" by (metis prod.collapse)
  have "proc_held ?w = {Fd 3}"
    by (auto simp: proc_held_def fd_open_def demo_authed_def demo_world_def demo_sock_def split: if_splits)
  with open_disk_fails_clean [OF demo_authed_wf run] run show ?thesis by auto
qed

text \<open>
  The \<open>OPEN_FILE\<close> reply. \<open>_parse_open_reply\<close> raises \<open>NfcProtocolError\<close> and nothing else; it accepts a
  payload exactly when it has at least 40 bytes and the file type at offset 16 is a disk, and returns the
  64-bit handle at offset 8 and the sector size at offset 36, which is 512 when the server sends 0.
\<close>

theorem parse_open_reply_spec:
  "parse_open_reply body =
     (if length body < 40 then Inl (NfcProtocolError (OpenReplyTooShort (length body)))
      else if le_val (buf_slice body 16 4) \<noteq> NFC_DISK then Inl (NfcProtocolError (OpenedFileType (le_val (buf_slice body 16 4))))
      else Inr (le_val (buf_slice body 8 8), let z = le_val (buf_slice body 36 4) in if z = 0 then 512 else z))"
  by (simp add: parse_open_reply_def unpack_QII_le unpack_I_le buf_slice_def Let_def)

end
