(* ===== verification/VixHandleSpec.thy ===== *)
theory VixHandleSpec
  imports VixHandle NfcOpenSpec
begin

text \<open>
  Theorems about the VDDK-shaped handle: its argument parsers, which opens it refuses, that its context
  managers give back the sockets and the VIM session that they took, and its sector I/O.
\<close>

subsection \<open>The context managers\<close>

definition handle_own :: "DiskHandle \<Rightarrow> resource set" where
  "handle_own h = {Fd (dh_disk h), Fd (dh_authd_sock h)}"

definition handle_valid :: "DiskHandle \<Rightarrow> world \<Rightarrow> bool" where
  "handle_valid h w \<longleftrightarrow> w_disks w (dh_disk h) \<noteq> None"

lemma moves_handle_connect:
  "proc.moves {} (handle_connect dp srv tp user pwd spec snap ro modes port allow) (\<lambda>c. {Login (cn_si c)})"
  unfolding handle_connect_def
  by (intro proc.moves_same_bind proc.rs.keeps_lift proc.moves_map) (simp add: moves_connect_vim)

lemma moves_handle_open: "proc.moves {} (handle_open dp conn path flags b n) handle_own"
  unfolding handle_open_def Let_def
proof (rule proc.moves_same_bind [OF proc.rs.keeps_lift], rule proc.moves_same_then [OF proc.rs.keeps_raise_if],
    rule proc.moves_same_bind [OF same_held_ticket], rule proc.moves_bind [OF moves_connect_authd], rule proc.moves_map,
    rule proc.moves_on_exception [OF _ releases_close_fd])
  fix c t a
  let ?h = "\<lambda>disk. \<lparr>dh_disk = disk, dh_authd_sock = a, dh_transport_mode = cn_transport_mode conn\<rparr>"
  let ?session = "\<lparr>as_si = cn_si conn, as_ticket = t, as_authd_sock = a,
      as_nfc_ssl = cn_transport_mode conn = ''nbdssl''\<rparr>"
  have "handle_own (?h x) = {Fd a} \<union> {Fd x}" for x by (auto simp: handle_own_def)
  then show "proc.holds {Fd a}
      (open_disk ?session path ''vddk'' ''nbdmode'' NFC_PROTOCOL_VERSION
        (flags AND VIXDISKLIB_FLAG_OPEN_READ_ONLY \<noteq> 0) c b n) (\<lambda>x. handle_own (?h x))"
    using proc.holds_frame [OF moves_open_disk, of "{Fd a}" ?session path "''vddk''" "''nbdmode''"
        NFC_PROTOCOL_VERSION "flags AND VIXDISKLIB_FLAG_OPEN_READ_ONLY \<noteq> 0" c b n]
    by simp
qed

lemma on_disk_InrD: "on_disk fd m w = (Inr x, w') \<Longrightarrow> w_disks w' fd \<noteq> None"
  by (auto simp: on_disk_def split: option.splits prod.splits)

lemma open_on_valid: "open_on fd path name op v ro c b n w = (Inr x, w') \<Longrightarrow> x = fd \<and> w_disks w' fd \<noteq> None"
  unfolding open_on_def Let_def by (auto simp: io_iffs dest!: on_disk_InrD split: prod.splits)

lemma open_disk_valid: "open_disk s path name op v ro c b n w = (Inr x, w') \<Longrightarrow> w_disks w' x \<noteq> None"
  by (auto simp: open_disk_def bind_io_Inr_iff split: if_splits dest!: on_exception_InrD open_on_valid)

lemma handle_open_valid: "handle_open dp conn path flags b n w = (Inr h, w') \<Longrightarrow> handle_valid h w'"
  by (auto simp: handle_open_def Let_def io_iffs handle_valid_def split: if_splits
      dest!: on_exception_InrD open_disk_valid)

lemma on_disk_close_frees:
  assumes wf: "world_wf w" and d: "w_disks w fd = Some d"
  defines "w' \<equiv> snd (on_disk fd disk_close w)"
  shows "world_wf w' \<and> proc_held w' = proc_held w - {Fd fd}"
proof (cases "w_socks w fd")
  case None
  then show ?thesis using wf d by (auto simp: w'_def on_disk_def proc_held_def fd_open_def)
next
  case (Some s)
  obtain r d' s' where run: "disk_close (d, s) = (r, d', s')" by (metis prod_cases3)
  have inv: "conn_inv (d, s)"
    using wf d Some by (auto simp: conn_inv_def world_wf_def fd_open_def split: option.splits)
  have c: "\<not> is_open s'"
    using disk_close_state [OF run] inv run by (cases "nd_closed d") (auto simp: conn_inv_def disk_close_alt)
  have wf': "disk_wf d'" using disk_close_session [OF inv run] by (simp add: conn_inv_def)
  have w': "w' = w\<lparr>w_disks := (w_disks w)(fd \<mapsto> d'), w_socks := (w_socks w)(fd \<mapsto> s')\<rparr>"
    using d Some run by (simp add: w'_def on_disk_def)
  have o: "fd_open w' x \<longleftrightarrow> x \<noteq> fd \<and> fd_open w x" for x using c by (simp add: w' fd_open_def)
  have "world_wf w'" using wf wf' o Some d by (auto simp: world_wf_def w' split: if_splits)
  moreover have "proc_held w' = proc_held w - {Fd fd}" using o by (auto simp: proc_held_def w')
  ultimately show ?thesis ..
qed

lemma handle_close_frees:
  assumes "world_wf w" and "handle_valid h w"
  shows "world_wf (snd (handle_close h w)) \<and> proc_held (snd (handle_close h w)) = proc_held w - handle_own h"
proof -
  obtain d where d: "w_disks w (dh_disk h) = Some d" using assms(2) by (auto simp: handle_valid_def)
  let ?w1 = "snd (on_disk (dh_disk h) disk_close w)"
  have w1: "world_wf ?w1" "proc_held ?w1 = proc_held w - {Fd (dh_disk h)}"
    using on_disk_close_frees [OF assms(1) d] by auto
  then show ?thesis
    using releases_ignore [OF releases_close_fd, of "dh_authd_sock h"]
    by (auto simp: handle_close_def snd_try_finally proc.releases_def handle_own_def)
qed

interpretation connect_ctx: bracket world_wf proc_held
  "handle_connect dp srv tp user pwd spec snap ro modes port allow" "handle_disconnect dp"
  "\<lambda>c. {Login (cn_si c)}" "\<lambda>c w. True"
  for dp srv tp user pwd spec snap ro modes port allow
  using releases_disconnect
  by unfold_locales (auto intro: moves_handle_connect simp: handle_disconnect_def proc.releases_def)

interpretation open_ctx: bracket world_wf proc_held
  "handle_open dp conn path flags b n" handle_close handle_own handle_valid
  for dp conn path flags b n
  by unfold_locales (auto intro: moves_handle_open handle_open_valid simp: handle_close_frees)

text \<open>
  A body that keeps the world well formed and forgets no disk object, as every operation of the model
  does; it may connect, open and close what it likes. A neutral one holds the same after as before besides.
\<close>

definition tame_body :: "(world, 'a) io \<Rightarrow> bool" where
  "tame_body m \<longleftrightarrow> (\<forall>w. dom (w_disks w) \<subseteq> dom (w_disks (snd (m w))) \<and> (world_wf w \<longrightarrow> world_wf (snd (m w))))"

definition neutral_body :: "(world, 'a) io \<Rightarrow> bool" where
  "neutral_body m \<longleftrightarrow> (\<forall>w. dom (w_disks w) \<subseteq> dom (w_disks (snd (m w))) \<and>
     (world_wf w \<longrightarrow> world_wf (snd (m w)) \<and> proc_held (snd (m w)) = proc_held w))"

lemma neutral_tame: "neutral_body m \<Longrightarrow> tame_body m"
  by (simp add: neutral_body_def tame_body_def)

lemma tame_bodyD:
  assumes "tame_body m"
  shows "keeps (\<lambda>w w'. (world_wf w \<longrightarrow> world_wf w') \<and> (handle_valid h w \<longrightarrow> handle_valid h w')) m"
  unfolding keeps_def handle_valid_def
  using assms by (meson domIff tame_body_def subsetD)

lemma neutral_bodyD:
  assumes "neutral_body m"
  shows "keeps proc.same_held m" and "keeps (\<lambda>w w'. handle_valid h w \<longrightarrow> handle_valid h w') m"
proof -
  show "keeps proc.same_held m" using assms by (simp add: neutral_body_def keeps_def proc.same_held_def)
  show "keeps (\<lambda>w w'. handle_valid h w \<longrightarrow> handle_valid h w') m"
    unfolding keeps_def handle_valid_def
    using assms by (meson domIff neutral_body_def subsetD)
qed

text \<open>
  C9. Nothing is lost. Take \<open>with lib.connect(...) as conn: with lib.open(conn, ...) as disk: body\<close> with any
  network, any VIM server and any body that keeps the world well formed. Either connecting or opening failed,
  on whatever step, and the process holds exactly the sockets and the VIM sessions that it held before; or
  the body ran with one new login and the two new sockets of the handle, and exactly these three are taken from
  what it left behind, whether it returned, raised or closed the handle itself, and whether the closing
  exchange and the logout succeed. So with a body that itself holds the same after as before, such as reading
  and writing, the statement holds the same after as before.
\<close>

theorem connect_open_leak_nothing:
  assumes "\<And>c h. tame_body (body c h)" and "world_wf w"
    and "with_io (handle_connect dp srv tp user pwd spec snap ro modes port allow) (handle_disconnect dp)
       (\<lambda>c. with_io (handle_open dp c path flags b n) handle_close (body c)) w = (r, w')"
  shows "(proc_held w' = proc_held w \<or>
      (\<exists>c h w1 rb w2. body c h w1 = (rb, w2) \<and>
         proc_held w1 = proc_held w \<union> {Login (cn_si c), Fd (dh_disk h), Fd (dh_authd_sock h)} \<and>
         {Login (cn_si c), Fd (dh_disk h), Fd (dh_authd_sock h)} \<inter> proc_held w = {} \<and>
         proc_held w' = proc_held w2 - {Login (cn_si c), Fd (dh_disk h), Fd (dh_authd_sock h)})) \<and>
    ((\<forall>c h. neutral_body (body c h)) \<longrightarrow> proc_held w' = proc_held w)"
proof -
  let ?own = "\<lambda>c h. {Login (cn_si c), Fd (dh_disk h), Fd (dh_authd_sock h)}"
  have inner: "keeps (\<lambda>w w'. (world_wf w \<longrightarrow> world_wf w') \<and> (True \<longrightarrow> True))
      (with_io (handle_open dp c path flags b n) handle_close (body c))" (is "keeps _ ?m") for c
    unfolding keeps_def
  proof (intro allI conjI impI)
    fix w assume wf: "world_wf w"
    obtain r w' where run: "?m w = (r, w')" by (cases "?m w")
    from wf run tame_bodyD [OF assms(1)] have "world_wf w'" by (cases rule: open_ctx.with_cases)
    then show "world_wf (snd (?m w))" using run by simp
  qed
  have cases: "proc_held w' = proc_held w \<or> (\<exists>c h w1 rb w2. body c h w1 = (rb, w2) \<and> world_wf w1 \<and>
      proc_held w1 = proc_held w \<union> ?own c h \<and> ?own c h \<inter> proc_held w = {} \<and> proc_held w' = proc_held w2 - ?own c h)"
    (is "_ \<or> ?ran")
    using assms(2,3) inner
  proof (cases rule: connect_ctx.with_cases)
    case (ran c v1 rc v2)
    note outer = ran(3,4,7)
    from ran(2,1) tame_bodyD [OF assms(1)] show ?thesis
    proof (cases rule: open_ctx.with_cases)
      case failed
      then show ?thesis using outer by auto
    next
      case (ran h w1 rb w2)
      have "proc_held w1 = proc_held w \<union> ?own c h" using ran(3) outer(1) by (auto simp: handle_own_def)
      moreover have "?own c h \<inter> proc_held w = {}" using ran(4) outer(1,2) by (auto simp: handle_own_def)
      moreover have "proc_held w' = proc_held w2 - ?own c h" using ran(7) outer(3) by (auto simp: handle_own_def)
      ultimately show ?thesis using ran(1,2) by (intro disjI2 exI conjI)
    qed
  qed blast
  have "proc_held w' = proc_held w" if neutral: "\<forall>c h. neutral_body (body c h)"
    using cases
  proof
    assume ?ran
    then obtain c h w1 rb w2 where b: "body c h w1 = (rb, w2)" "world_wf w1"
      and h: "proc_held w1 = proc_held w \<union> ?own c h" "?own c h \<inter> proc_held w = {}" "proc_held w' = proc_held w2 - ?own c h"
      by (elim exE conjE) (rule that)
    have "proc_held w2 = proc_held w1" using neutral b unfolding neutral_body_def by (metis snd_conv)
    then show ?thesis using h by auto
  qed
  moreover have "?ran \<Longrightarrow> \<exists>c h w1 rb w2. body c h w1 = (rb, w2) \<and> proc_held w1 = proc_held w \<union> ?own c h \<and>
      ?own c h \<inter> proc_held w = {} \<and> proc_held w' = proc_held w2 - ?own c h"
    by (elim exE conjE, intro exI conjI)
  ultimately show ?thesis using cases by (intro conjI) (erule disj_forward, assumption+, rule impI)
qed

lemma neutral_on_disk: "keeps disk_alive m \<Longrightarrow> neutral_body (on_disk fd m)"
proof -
  assume m: "keeps disk_alive m"
  have "dom (w_disks w) \<subseteq> dom (w_disks (snd (on_disk fd m w)))" for w
    by (auto simp: on_disk_def split: option.splits prod.splits)
  then show ?thesis
    using same_held_on_disk [OF m, of fd] by (auto simp: neutral_body_def keeps_def proc.same_held_def)
qed

lemma readinto_alive:
  assumes "readinto lib start num skip ((d, s), buf) = (r, (d', s'), buf')"
  shows "disk_alive (d, s) (d', s')"
  using assms
proof (cases rule: readinto_cases)
  case (send hdr payload e)
  then show ?thesis
    using keepsD [OF alive_pre.frame_sendall send(3)] by (auto simp: disk_alive_def sock_alive_def disk_wf_def)
next
  case (loop hdr payload s1 rl data')
  have "view_safe (s1, take (read_length d num) (pb_bytes buf)) (s', data')"
    using read_loop_safe [of "(s1, take (read_length d num) (pb_bytes buf))" "read_length d num" lib skip "nd_op_id d" read_init]
      loop(4,5) by simp
  then show ?thesis
    using keepsD [OF alive_pre.frame_sendall loop(3)] loop(1)
    by (auto simp: disk_alive_def sock_alive_def disk_wf_def view_safe_def rx_only_iff)
qed (auto simp: disk_alive_def disk_wf_def)

text \<open>A read with a buffer of the caller, as a body.\<close>

definition read_body :: "fastlz_lib \<Rightarrow> int \<Rightarrow> int \<Rightarrow> bool \<Rightarrow> pybuf \<Rightarrow> DiskHandle \<Rightarrow> (world, ReadResult) io" where
  "read_body lib start num skip buf h = (\<lambda>w. case handle_read lib h start num skip (w, buf) of (r, w', buf') \<Rightarrow> (r, w'))"

lemma neutral_read_body: "neutral_body (read_body lib start num skip buf h)"
proof -
  let ?m = "\<lambda>st. case readinto lib start num skip (st, buf) of (r, st', buf') \<Rightarrow> (r, st')"
  have "keeps disk_alive ?m"
    unfolding keeps_def by (auto split: prod.splits intro: readinto_alive)
  moreover have "read_body lib start num skip buf h = on_disk (dh_disk h) ?m"
    by (rule ext) (simp add: read_body_def handle_read_def on_disk_def Let_def split: option.splits prod.splits)
  ultimately show ?thesis using neutral_on_disk by metis
qed

definition demo_full :: "net_event list" where
  "demo_full = demo_mgmt @ demo_authd (Some [7]) @ [Accept (demo_sock []) None, Refuse SSLError]"

definition demo_use :: "(world, ReadResult) io" where
  "demo_use = with_io
     (handle_connect demo_deps ''vc'' (Some ''0a:ff'') ''u'' ''p'' (Some ''moref=vm-1'') None True None 443 False)
     (handle_disconnect demo_deps)
     (\<lambda>c. with_io (handle_open demo_deps c ''[ds] a.vmdk'' 4 65536 1) handle_close
        (read_body zero_run_lz 0 1 False \<lparr>pb_readonly = False, pb_bytes = []\<rparr>))"

text \<open>Login and authd succeed, the second TLS handshake fails: the authd socket and the login are given up.\<close>

theorem connect_open_leak_nothing_witness:
  "fst (demo_use (demo_world demo_full)) = Inl SSLError \<and> proc_held (snd (demo_use (demo_world demo_full))) = {}"
proof -
  have wf: "world_wf (demo_world demo_full)" "proc_held (demo_world demo_full) = {}"
    by (simp_all add: world_wf_def proc_held_def fd_open_def demo_world_def)
  have "fst (demo_use (demo_world demo_full)) = Inl SSLError" by code_simp
  moreover obtain r w' where run: "demo_use (demo_world demo_full) = (r, w')" by (cases "demo_use (demo_world demo_full)")
  ultimately show ?thesis
    using connect_open_leak_nothing [OF neutral_tame [OF neutral_read_body] wf(1) run [unfolded demo_use_def]]
      neutral_read_body wf(2)
    by simp
qed

subsection \<open>Read-only use\<close>

text \<open>Everything but the ticket call for a writable disk.\<close>

fun no_write_ticket :: "act \<Rightarrow> bool" where
  "no_write_ticket (Vim (RandomAccessOpen si vm key host)) = False"
| "no_write_ticket _ = True"

lemma logs_ticket_readonly: "keeps (logs_only no_write_ticket) (get_nfc_ticket dp si vm None None True None)"
  unfolding get_nfc_ticket_def nfc_service_def
  by (auto intro!: logq.keeps_intros logs_register logs_log_act)

lemma logs_connect_authd: "keeps (logs_only no_write_ticket) (connect_authd dp t allow ssl)"
  unfolding connect_authd_def authd_connect_def create_connection_def wrap_socket_def check_thumbprint_def
  by (auto intro!: logq.keeps_intros logs_world logs_log_act split: option.split simp: Let_def)

lemma logs_on_disk: "keeps (logs_only Q) (on_disk fd m)"
  and logs_new_disk: "keeps (logs_only Q) (new_disk d)"
  by (rule logs_same; auto simp: on_disk_def new_disk_def split: option.splits prod.splits)+

lemma logs_takeover: "keeps (logs_only Q) (takeover_authd_socket fd)"
  unfolding takeover_authd_socket_def enable_tcp_nodelay_def dup_socket_def
  by (intro logq.keeps_intros logs_world logs_same) simp

lemma logs_open_disk: "keeps (logs_only no_write_ticket) (open_disk s path name op v ro c b n)"
  unfolding open_disk_def open_on_def wrap_nfcssl_socket_def wrap_socket_def Let_def case_prod_beta
  by (auto intro!: logq.keeps_intros logs_world logs_log_act logs_on_disk logs_new_disk logs_takeover)

text \<open>
  C16. Read-only use stays read-only. \<open>open\<close> without the read-only flag on a read-only connection is refused before
  anything is sent or asked for; and \<open>open\<close> on a read-only connection, or with the read-only flag on any
  connection, never asks the server for a ticket to a writable disk, whatever the server and the network do.
\<close>

theorem readonly_open_safe:
  assumes "handle_open dp conn path flags b n w = (r, w')" and "cn_read_only conn \<or> flags AND 4 \<noteq> 0"
  shows "logs_only no_write_ticket w w' \<and>
    (flags AND 4 = 0 \<longrightarrow> w' = w \<and> (\<exists>e. r = Inl (NotImplementedError e)))"
proof (cases "nfc_compression flags")
  case (Inl e)
  then have "\<exists>m. e = NotImplementedError m" by (auto simp: nfc_compression_def Let_def split: if_splits)
  then show ?thesis using assms Inl by (auto simp: handle_open_def logq.refl_R)
next
  case (Inr c)
  show ?thesis
  proof (cases "flags AND 4 = 0")
    case True
    then show ?thesis using assms Inr by (auto simp: handle_open_def logq.refl_R Let_def)
  next
    case False
    have k: "keeps (logs_only no_write_ticket) (handle_open dp conn path flags b n)"
      unfolding handle_open_def using Inr False
      by (auto intro!: logq.keeps_intros logs_ticket_readonly logs_connect_authd logs_open_disk logs_world simp: Let_def)
    show ?thesis using keepsD [OF k assms(1)] False by simp
  qed
qed

definition demo_conn :: "bool \<Rightarrow> Connection" where
  "demo_conn ro = \<lparr>cn_si = 0, cn_vm_moref = ''vm-1'', cn_snapshot_ref = None, cn_thumbprint = None,
     cn_allow_untrusted = False, cn_read_only = ro, cn_transport_mode = ''nbdssl''\<rparr>"

theorem readonly_open_safe_witness:
  "(\<exists>e. handle_open demo_deps (demo_conn True) ''a'' 0 65536 1 (demo_world []) = (Inl (NotImplementedError e), demo_world [])) \<and>
   (\<exists>r w'. handle_open demo_deps (demo_conn False) ''a'' 4 65536 1 (demo_world demo_full) = (r, w') \<and>
      logs_only no_write_ticket (demo_world demo_full) w')"
proof
  obtain r w' where run: "handle_open demo_deps (demo_conn True) ''a'' 0 65536 1 (demo_world []) = (r, w')"
    by (metis prod.collapse)
  have "cn_read_only (demo_conn True)" by code_simp
  then show "\<exists>e. handle_open demo_deps (demo_conn True) ''a'' 0 65536 1 (demo_world []) = (Inl (NotImplementedError e), demo_world [])"
    using readonly_open_safe [OF run] run by auto
next
  obtain r w' where run: "handle_open demo_deps (demo_conn False) ''a'' 4 65536 1 (demo_world demo_full) = (r, w')"
    by (metis prod.collapse)
  then show "\<exists>r w'. handle_open demo_deps (demo_conn False) ''a'' 4 65536 1 (demo_world demo_full) = (r, w') \<and>
      logs_only no_write_ticket (demo_world demo_full) w'"
    using readonly_open_safe [OF run] by simp
qed

subsection \<open>Sector I/O\<close>

text \<open>
  C38. \<open>write\<close> measures the caller's buffer in sectors of 512 bytes, \<open>NfcDisk.write\<close> in the sectors of the disk. With
  512-byte sectors it writes the first \<open>num_sectors\<close> sectors of the buffer; on a disk with any larger
  sectors every write of at least one sector is refused with \<open>ValueError\<close>, whatever the buffer, and
  nothing is sent.
\<close>

theorem handle_write_sector_size:
  assumes "w_disks w (dh_disk h) = Some d" and "w_socks w (dh_disk h) = Some s" and "1 \<le> num"
  shows "(nd_sector_size d = 512 \<longrightarrow> handle_write lib h start num buf w =
      map_option (\<lambda>(r, d', s'). (r, w\<lparr>w_disks := (w_disks w)(dh_disk h \<mapsto> d'), w_socks := (w_socks w)(dh_disk h \<mapsto> s')\<rparr>))
        (disk_write lib start num (take (write_length d num) buf) (d, s))) \<and>
    (512 < nd_sector_size d \<longrightarrow> (\<exists>e. handle_write lib h start num buf w = Some (Inl (ValueError e), w)))"
proof (intro conjI impI)
  assume "nd_sector_size d = 512"
  then have "py_take (num * 512) buf = take (write_length d num) buf"
    using assms(3) by (simp add: py_take_def write_length_def nat_mult_distrib)
  then show "handle_write lib h start num buf w =
      map_option (\<lambda>(r, d', s'). (r, w\<lparr>w_disks := (w_disks w)(dh_disk h \<mapsto> d'), w_socks := (w_socks w)(dh_disk h \<mapsto> s')\<rparr>))
        (disk_write lib start num (take (write_length d num) buf) (d, s))"
    using assms by (simp add: handle_write_def Let_def split: option.split)
next
  assume "512 < nd_sector_size d"
  moreover have "length (py_take (num * 512) buf) \<le> nat num * 512"
    using assms(3) by (simp add: py_take_def nat_mult_distrib)
  ultimately have "length (py_take (num * 512) buf) < nat num * nd_sector_size d"
    using assms(3) by (meson le_less_trans mult_less_mono2 zero_less_nat_eq zero_less_one order_less_le_trans)
  then show "\<exists>e. handle_write lib h start num buf w = Some (Inl (ValueError e), w)"
    using assms by (auto simp: handle_write_def disk_write_def fun_upd_idem)
qed

definition demo_handle :: DiskHandle where
  "demo_handle = \<lparr>dh_disk = 4, dh_authd_sock = 3, dh_transport_mode = ''nbd''\<rparr>"

definition demo_sectors :: "nat \<Rightarrow> world" where
  "demo_sectors ss = (demo_world [])\<lparr>w_socks := [3 \<mapsto> demo_sock [], 4 \<mapsto> demo_sock []],
     w_disks := [4 \<mapsto> opened_disk 4 ''a'' 77 ss 0 65536 1], w_next := 5\<rparr>"

theorem handle_write_sector_size_witness:
  "\<exists>e. handle_write zero_run_lz demo_handle 0 1 (replicate 4096 7) (demo_sectors 4096) = Some (Inl (ValueError e), demo_sectors 4096)"
  using handle_write_sector_size [of "demo_sectors 4096" demo_handle "opened_disk 4 ''a'' 77 4096 0 65536 1" "demo_sock []"]
  by (simp add: demo_sectors_def demo_handle_def opened_disk_def)

end
