(* ===== verification/FreshFds.thy ===== *)
theory FreshFds
  imports VixHandleSpec
begin

text \<open>
  Which socket and disk objects an operation can change. \<open>beyond n\<close> relates two states of the process
  that agree on all objects numbered below \<open>n\<close>; the locale \<open>guarded\<close> has the rules for effects that keep
  such a relation and whose result satisfies a property. Connecting, opening and logging out change only
  objects that they made themselves.
\<close>

subsection \<open>Effects under a guard\<close>

locale guarded = state_preorder R for R :: "'s \<Rightarrow> 's \<Rightarrow> bool" +
  fixes G :: "'s \<Rightarrow> bool"
  assumes guard_kept: "G s \<Longrightarrow> R s t \<Longrightarrow> G t"
    and unguarded: "\<not> G s \<Longrightarrow> R s t"
begin

definition gives :: "('s, 'a) io \<Rightarrow> ('a \<Rightarrow> bool) \<Rightarrow> bool" where
  "gives m Q \<longleftrightarrow> (\<forall>s. G s \<longrightarrow> (case m s of (r, t) \<Rightarrow> R s t \<and> (\<forall>x. r = Inr x \<longrightarrow> Q x)))"

lemma givesI: "(\<And>s r t. G s \<Longrightarrow> m s = (r, t) \<Longrightarrow> R s t \<and> (\<forall>x. r = Inr x \<longrightarrow> Q x)) \<Longrightarrow> gives m Q"
  by (auto simp: gives_def)

lemma givesD: "gives m Q \<Longrightarrow> G s \<Longrightarrow> m s = (r, t) \<Longrightarrow> R s t \<and> (\<forall>x. r = Inr x \<longrightarrow> Q x)"
  by (auto simp: gives_def)

lemma gives_weaken: "gives m P \<Longrightarrow> (\<And>x. P x \<Longrightarrow> Q x) \<Longrightarrow> gives m Q"
  by (fastforce simp: gives_def)

lemma gives_any: "gives m Q \<Longrightarrow> gives m (\<lambda>x. True)"
  by (erule gives_weaken) simp

lemma gives_keeps: "keeps R m \<Longrightarrow> gives m (\<lambda>x. True)"
  by (auto simp: gives_def dest: keepsD)

lemma gives_ret: "Q x \<Longrightarrow> gives (ret x) Q"
  and gives_raise: "gives (raise e) Q"
  and gives_lift: "gives (lift v) (\<lambda>x. True)"
  and gives_raise_if: "gives (raise_if b e) (\<lambda>x. True)"
  by (simp_all add: gives_def refl_R raise_if_def)

lemma gives_bind:
  assumes "gives m P" and "\<And>x. P x \<Longrightarrow> gives (f x) Q"
  shows "gives (bind_io m f) Q"
proof (rule givesI)
  fix s r t assume g: "G s" and run: "bind_io m f s = (r, t)"
  obtain r1 s1 where m: "m s = (r1, s1)" by (cases "m s")
  note m1 = givesD [OF assms(1) g m]
  show "R s t \<and> (\<forall>x. r = Inr x \<longrightarrow> Q x)"
  proof (cases r1)
    case (Inl e)
    then show ?thesis using m1 m run by auto
  next
    case (Inr x)
    then have "R s1 t \<and> (\<forall>x. r = Inr x \<longrightarrow> Q x)"
      using m1 m run guard_kept [OF g] by (intro givesD [OF assms(2)]) auto
    then show ?thesis using m1 trans_R by blast
  qed
qed

lemma gives_then: "gives m P \<Longrightarrow> gives k Q \<Longrightarrow> gives (then_io m k) Q"
  unfolding then_io_def by (rule gives_bind)

lemma gives_on_exception:
  assumes "gives m Q" and "gives c (\<lambda>x. True)"
  shows "gives (on_exception m c) Q"
proof (rule givesI)
  fix s r t assume g: "G s" and run: "on_exception m c s = (r, t)"
  obtain r1 s1 where m: "m s = (r1, s1)" by (cases "m s")
  obtain r2 s2 where c: "c s1 = (r2, s2)" by (cases "c s1")
  note m1 = givesD [OF assms(1) g m]
  have "R s1 s2" using givesD [OF assms(2) guard_kept [OF g] c] m1 by blast
  then show "R s t \<and> (\<forall>x. r = Inr x \<longrightarrow> Q x)"
    using m1 m c run trans_R
    by (cases r1; cases r2) (auto simp: on_exception_def catch_io_def)
qed

lemma gives_finally:
  assumes "gives m Q" and "gives c (\<lambda>x. True)"
  shows "gives (try_finally m c) Q"
proof (rule givesI)
  fix s r t assume g: "G s" and run: "try_finally m c s = (r, t)"
  obtain r1 s1 where m: "m s = (r1, s1)" by (cases "m s")
  obtain r2 s2 where c: "c s1 = (r2, s2)" by (cases "c s1")
  note m1 = givesD [OF assms(1) g m]
  have "R s1 s2" using givesD [OF assms(2) guard_kept [OF g] c] m1 by blast
  then show "R s t \<and> (\<forall>x. r = Inr x \<longrightarrow> Q x)"
    using m1 m c run trans_R by (cases r2) (auto simp: try_finally_def)
qed

end

subsection \<open>The objects of the process\<close>

definition same_objects :: "nat \<Rightarrow> world \<Rightarrow> world \<Rightarrow> bool" where
  "same_objects fd w w' \<longleftrightarrow> w_socks w' fd = w_socks w fd \<and> w_disks w' fd = w_disks w fd"

definition beyond :: "nat \<Rightarrow> world \<Rightarrow> world \<Rightarrow> bool" where
  "beyond n w w' \<longleftrightarrow> (n \<le> w_next w \<longrightarrow> n \<le> w_next w' \<and> (\<forall>fd<n. same_objects fd w w'))"

interpretation bey: guarded "beyond n" "\<lambda>w. n \<le> w_next w" for n
  by unfold_locales (auto simp: beyond_def same_objects_def)

lemma gives_log: "bey.gives n (log_act a) (\<lambda>x. True)"
  and gives_check: "bey.gives n (check_open fd) (\<lambda>x. True)"
  and gives_cert: "bey.gives n (getpeercert fd) (\<lambda>x. True)"
  and gives_set_registered: "bey.gives n set_registered (\<lambda>x. True)"
  and gives_nodelay: "bey.gives n (enable_tcp_nodelay fd) (\<lambda>x. True)"
  by (rule bey.gives_keeps, auto simp: keeps_def beyond_def same_objects_def log_act_def check_open_def getpeercert_def
      set_registered_def enable_tcp_nodelay_def then_io_def bind_io_def)+

lemma gives_next_layer: "bey.gives n next_layer (\<lambda>fd. n \<le> fd)"
  by (rule bey.givesI)
    (auto simp: next_layer_def beyond_def same_objects_def split: list.splits net_event.splits)

lemma gives_on_sock: "n \<le> fd \<Longrightarrow> bey.gives n (on_sock fd m) (\<lambda>x. True)"
  and gives_on_disk: "n \<le> fd \<Longrightarrow> bey.gives n (on_disk fd m') (\<lambda>x. True)"
  and gives_new_disk: "n \<le> nd_sock d \<Longrightarrow> bey.gives n (new_disk d) (\<lambda>x. True)"
  by (rule bey.gives_keeps, auto simp: keeps_def beyond_def same_objects_def on_sock_def on_disk_def new_disk_def
      split: option.splits prod.splits)+

lemma gives_close_fd: "n \<le> fd \<Longrightarrow> bey.gives n (close_fd fd) (\<lambda>x. True)"
  and gives_detach: "n \<le> fd \<Longrightarrow> bey.gives n (detach fd) (\<lambda>x. True)"
  by (simp_all add: close_fd_def detach_def gives_on_sock)

lemma gives_create_connection: "bey.gives n (create_connection host port) (\<lambda>fd. n \<le> fd)"
  unfolding create_connection_def by (intro bey.gives_then [OF gives_log] gives_next_layer)

lemma gives_wrap_socket: "n \<le> fd \<Longrightarrow> bey.gives n (wrap_socket ctx fd h) (\<lambda>fd. n \<le> fd)"
  unfolding wrap_socket_def
  by (intro bey.gives_then [OF gives_check] bey.gives_then [OF gives_detach] bey.gives_then [OF gives_log] gives_next_layer)

lemma gives_takeover: "bey.gives n (takeover_authd_socket fd) (\<lambda>fd. n \<le> fd)"
  unfolding takeover_authd_socket_def dup_socket_def
  by (rule bey.gives_bind [OF bey.gives_then [OF gives_check gives_next_layer]])
    (rule bey.gives_then [OF gives_nodelay bey.gives_ret])

lemma gives_wrap_nfcssl: "bey.gives n (wrap_nfcssl_socket fd h) (\<lambda>fd. n \<le> fd)"
  unfolding wrap_nfcssl_socket_def
  by (rule bey.gives_bind [OF gives_takeover])
    (intro bey.gives_on_exception [OF gives_wrap_socket] gives_close_fd)

subsection \<open>Logging in and out, and the ticket\<close>

lemma gives_cert_thumbprint: "bey.gives n (get_ssl_cert_thumbprint dp host port alg ctx) (\<lambda>x. True)"
  unfolding get_ssl_cert_thumbprint_def Let_def
  by (rule bey.gives_bind [where P = "\<lambda>x. True"], rule bey.gives_bind [OF gives_create_connection])
    (auto intro!: bey.gives_finally [OF bey.gives_bind [OF gives_wrap_socket]] bey.gives_finally [OF gives_cert]
      gives_close_fd bey.gives_raise bey.gives_ret split: option.split)

lemma gives_smart_connect: "bey.gives n (smart_connect dp l) (\<lambda>x. True)"
  and gives_vim_disconnect: "bey.gives n (vim_disconnect dp si) (\<lambda>x. True)"
  by (rule bey.gives_keeps, auto simp: keeps_def beyond_def same_objects_def smart_connect_def vim_disconnect_def
      log_act_def then_io_def bind_io_def split: option.splits)+

lemma gives_connect_vim: "bey.gives n (connect_vim dp host user pwd port tp allow) (\<lambda>x. True)"
  unfolding connect_vim_def Let_def
  by (auto intro!: bey.gives_then [where P = "\<lambda>x. True"] bey.gives_bind [OF gives_cert_thumbprint]
      bey.gives_bind [OF bey.gives_lift] gives_smart_connect bey.gives_raise_if bey.gives_ret split: option.split)

lemma gives_ticket: "bey.gives n (get_nfc_ticket dp si vm key host ro path) (\<lambda>x. True)"
  unfolding get_nfc_ticket_def nfc_service_def virtual_disk_key_def register_nfc_types_def
  by (rule bey.gives_keeps, auto simp: keeps_def beyond_def same_objects_def log_act_def then_io_def bind_io_def
      set_registered_def split: option.splits sum.splits prod.splits)

subsection \<open>authd and opening\<close>

lemma gives_authd_connect: "bey.gives n (authd_connect t) (\<lambda>fd. n \<le> fd)"
  unfolding authd_connect_def
  by (rule bey.gives_bind [OF gives_create_connection])
    (intro bey.gives_on_exception [OF bey.gives_bind [OF gives_on_sock]] bey.gives_then [OF bey.gives_raise_if]
      gives_wrap_socket gives_close_fd)

lemma gives_check_thumbprint: "bey.gives n (check_thumbprint dp t allow fd) (\<lambda>x. True)"
  unfolding check_thumbprint_def Let_def
  by (auto intro!: bey.gives_bind [OF gives_cert] bey.gives_ret bey.gives_raise bey.gives_raise_if split: option.split)

lemma gives_connect_authd: "bey.gives n (connect_authd dp t allow ssl) (\<lambda>fd. n \<le> fd)"
  unfolding connect_authd_def
  by (rule bey.gives_bind [OF gives_authd_connect])
    (intro bey.gives_on_exception [OF bey.gives_then [OF gives_check_thumbprint]] bey.gives_then [OF gives_on_sock]
      bey.gives_ret gives_close_fd)

lemma gives_open_on: "n \<le> fd \<Longrightarrow> bey.gives n (open_on fd path name op v ro c b k) (\<lambda>fd. n \<le> fd)"
  unfolding open_on_def Let_def case_prod_beta
  by (intro bey.gives_then [OF gives_on_sock] bey.gives_then [OF gives_new_disk] bey.gives_then [OF gives_on_disk]
      bey.gives_bind [OF bey.gives_lift] bey.gives_bind [OF gives_on_disk] bey.gives_ret)
    (simp_all add: nfc_disk_init_def)

lemma gives_open_disk: "bey.gives n (open_disk s path name op v ro c b k) (\<lambda>fd. n \<le> fd)"
  unfolding open_disk_def
  by (intro bey.gives_then [OF bey.gives_raise_if], rule bey.gives_bind [where P = "\<lambda>fd. n \<le> fd"])
    (auto intro!: gives_wrap_nfcssl gives_takeover bey.gives_on_exception [OF gives_open_on] gives_close_fd)

subsection \<open>The handle\<close>

lemma gives_handle_connect: "bey.gives n (handle_connect dp srv tp user pwd spec snap ro modes port allow) (\<lambda>x. True)"
  unfolding handle_connect_def
  by (intro bey.gives_bind [OF bey.gives_lift] bey.gives_bind [OF gives_connect_vim] bey.gives_ret) simp

lemma gives_handle_open:
  "bey.gives n (handle_open dp conn path flags b k) (\<lambda>h. n \<le> dh_disk h \<and> n \<le> dh_authd_sock h)"
  unfolding handle_open_def Let_def
  by (intro bey.gives_bind [OF bey.gives_lift] bey.gives_then [OF bey.gives_raise_if] bey.gives_bind [OF gives_ticket]
      bey.gives_bind [OF gives_connect_authd] bey.gives_bind [OF bey.gives_on_exception [OF gives_open_disk]]
      gives_close_fd bey.gives_ret) auto

lemma gives_handle_disconnect: "bey.gives n (handle_disconnect dp conn) (\<lambda>x. True)"
  unfolding handle_disconnect_def by (rule gives_vim_disconnect)

end
