(* ===== verification/SectorStore.thy ===== *)
theory SectorStore
  imports NfcSession
begin

text \<open>
  What an opened disk promises: it is an array of bytes that is read and written in sectors.
  \<open>store_run\<close> is that specification. \<open>serves\<close> is a reference server of the NFC IO protocol: it decodes
  the bytes of one request, after the tables of \<open>docs/nfc_read.md\<close> and \<open>docs/nfc_write.md\<close>, and answers
  a read with any fragments of its image that tile the request and a write, once stored, with an
  acknowledgement. The theorem says that a sequence of \<open>read\<close> and \<open>write\<close> calls of \<open>NfcDisk\<close> with
  this server returns what the array returns and leaves the server with the final array.
\<close>

subsection \<open>The specification\<close>

datatype disk_op = ReadOp int int | WriteOp int int "byte list"

fun store_step :: "nat \<Rightarrow> disk_op \<Rightarrow> byte list \<Rightarrow> byte list \<times> byte list" where
  "store_step ss (ReadOp start num) img = (buf_slice img (nat start * ss) (nat num * ss), img)"
| "store_step ss (WriteOp start num data) img = ([], buf_assign img (nat start * ss) data)"

fun store_run :: "nat \<Rightarrow> disk_op list \<Rightarrow> byte list \<Rightarrow> byte list list \<times> byte list" where
  "store_run ss [] img = ([], img)"
| "store_run ss (x # xs) img =
     (case store_step ss x img of (r, img1) \<Rightarrow> (case store_run ss xs img1 of (rs, img2) \<Rightarrow> (r # rs, img2)))"

subsection \<open>The client\<close>

fun client_step :: "fastlz_lib \<Rightarrow> disk_op \<Rightarrow> dstate \<Rightarrow> ((exn + byte list) \<times> dstate) option" where
  "client_step lib (ReadOp start num) st = Some (disk_read lib start num st)"
| "client_step lib (WriteOp start num data) st =
     map_option (\<lambda>(r, st'). (map_sum id (\<lambda>_. []) r, st')) (disk_write lib start num data st)"

fun client_run :: "fastlz_lib \<Rightarrow> disk_op list \<Rightarrow> dstate \<Rightarrow> ((exn + byte list list) \<times> dstate) option" where
  "client_run lib [] st = Some (Inr [], st)"
| "client_run lib (x # xs) st =
     (case client_step lib x st of
        None \<Rightarrow> None
      | Some (Inl e, st') \<Rightarrow> Some (Inl e, st')
      | Some (Inr r, st') \<Rightarrow> map_option (\<lambda>(rs, st''). (map_sum id (\<lambda>rs. r # rs) rs, st'')) (client_run lib xs st'))"

text \<open>The bytes that one call sends.\<close>

fun request :: "fastlz_lib \<Rightarrow> nfc_disk \<Rightarrow> nat \<Rightarrow> disk_op \<Rightarrow> byte list" where
  "request lib d op (ReadOp start num) = aio_hdr NFC_AIO_MSG_IO 44 op @ read_request d start num"
| "request lib d op (WriteOp start num data) =
     write_wire lib d op (nat (sector_offset d start)) data 0"

fun requests :: "fastlz_lib \<Rightarrow> nfc_disk \<Rightarrow> nat \<Rightarrow> disk_op list \<Rightarrow> byte list list" where
  "requests lib d op [] = []"
| "requests lib d op (x # xs) = request lib d op x # requests lib d (op + 1) xs"

fun op_fits :: "nfc_disk \<Rightarrow> disk_op \<Rightarrow> bool" where
  "op_fits d (ReadOp start num) = (1 \<le> num \<and> read_in_range d start num)"
| "op_fits d (WriteOp start num data) =
     (1 \<le> num \<and> length data = write_length d num \<and> 0 \<le> start \<and> sector_offset d start < 2 ^ 64 \<and> u32 (length data))"

subsection \<open>The server\<close>

inductive serves :: "fastlz_lib \<Rightarrow> nat \<Rightarrow> nat \<Rightarrow> byte list \<Rightarrow> byte list \<Rightarrow> byte list \<Rightarrow> byte list \<Rightarrow> bool" where
  serve_read: "unpack_aio_hdr req = Inr (NFC_AIO_MSG_IO, 44, op) \<Longrightarrow> length req = 60 \<Longrightarrow> io_field req 16 8 = h \<Longrightarrow>
     io_field req 24 4 = 1 \<Longrightarrow> offset = io_field req 32 8 \<Longrightarrow> n = io_field req 40 8 \<Longrightarrow> offset + n \<le> length img \<Longrightarrow>
     reply_for lib (buf_slice img offset n) fs \<Longrightarrow>
     serves lib h op img req (concat (map (reply_frame op offset n) fs)) img"
| serve_write: "req \<noteq> [] \<Longrightarrow> serve_writes lib h op img req = Some img' \<Longrightarrow> u32 (length ack) \<Longrightarrow>
     serves lib h op img req (aio_msg NFC_AIO_MSG_IO op ack) img'"

inductive served :: "fastlz_lib \<Rightarrow> nat \<Rightarrow> nat \<Rightarrow> byte list \<Rightarrow> byte list list \<Rightarrow> byte list \<Rightarrow> byte list \<Rightarrow> bool" where
  served_done: "served lib h op img [] [] img"
| served_step: "serves lib h op img req reply img1 \<Longrightarrow> served lib h (op + 1) img1 reqs stream img2 \<Longrightarrow>
     served lib h op img (req # reqs) (reply @ stream) img2"

inductive_cases servesE: "serves lib h op img req reply img'"
inductive_cases served_NilE: "served lib h op img [] stream img'"
inductive_cases served_ConsE: "served lib h op img (req # reqs) stream img'"

subsection \<open>One request, decoded\<close>

lemma le_bytes_read_opcode:
  assumes "c = 0 \<or> c = 2"
  shows "le_bytes 8 (1 + c * 2 ^ 32) = le_bytes 4 1 @ le_bytes 4 c"
proof -
  have "le_bytes 8 (1 + 0 * 2 ^ 32) = le_bytes 4 1 @ le_bytes 4 0" "le_bytes 8 (1 + 2 * 2 ^ 32) = le_bytes 4 1 @ le_bytes 4 2"
    by code_simp+
  then show ?thesis using assms by auto
qed

lemma read_request_fields:
  fixes d start num op
  defines "req \<equiv> aio_hdr NFC_AIO_MSG_IO 44 op @ read_request d start num"
  assumes "disk_wf d" and "read_in_range d start num" and "u32 op"
  shows "unpack_aio_hdr req = Inr (NFC_AIO_MSG_IO, 44, op)" and "length req = 60"
    and "io_field req 16 8 = nd_handle d" and "io_field req 24 4 = 1"
    and "io_field req 32 8 = nat start * nd_sector_size d" and "io_field req 40 8 = read_length d num"
proof -
  have h: "nd_handle d < 256 ^ 8" using assms(2) by (simp add: disk_wf_def)
  have off: "nat (start * int (nd_sector_size d)) = nat start * nd_sector_size d"
    using assms(3) by (simp add: read_in_range_def nat_mult_distrib)
  have o: "nat start * nd_sector_size d < 256 ^ 8"
    using assms(3) unfolding off [symmetric] by (simp add: read_in_range_def nat_less_iff)
  have n: "read_length d num < 256 ^ 8" using assms(3) by (simp add: read_in_range_def u32_def)
  have "nd_compression d = 0 \<or> nd_compression d = 2" using assms(2) by (simp add: disk_wf_def)
  then have "le_bytes 8 (1 + nd_compression d * 2 ^ 32) = le_bytes 4 1 @ le_bytes 4 (nd_compression d)"
    by (rule le_bytes_read_opcode)
  then have opc: "le_bytes 8 (Suc (nd_compression d * 4294967296)) = le_bytes 4 1 @ le_bytes 4 (nd_compression d)" by simp
  show "unpack_aio_hdr req = Inr (NFC_AIO_MSG_IO, 44, op)"
    unfolding req_def using aio_hdr_codec.dec_enc [of "(7, 44, op)" "aio_hdr 7 44 op"] assms(4)
    by (simp add: pack_aio_hdr_ok u32_def)
  show "length req = 60" by (simp add: req_def)
  note facts = req_def io_field_def buf_slice_def read_request_def opc off le_val_le_bytes
  show "io_field req 16 8 = nd_handle d" "io_field req 32 8 = nat start * nd_sector_size d"
    "io_field req 40 8 = read_length d num"
    using h o n by (simp_all add: facts)
  show "io_field req 24 4 = 1" by (simp add: facts)
qed

lemma serve_writes_read:
  "stream \<noteq> [] \<Longrightarrow> io_field stream 24 4 = 1 \<Longrightarrow> serve_writes lib h op img stream = None"
  by (simp add: serve_writes.simps)

lemma serves_read:
  assumes "disk_wf d" and "read_in_range d start num" and "u32 op"
    and "serves lib (nd_handle d) op img (aio_hdr NFC_AIO_MSG_IO 44 op @ read_request d start num) reply img'"
  obtains fs where "reply_for lib (buf_slice img (nat start * nd_sector_size d) (read_length d num)) fs"
    "reply = concat (map (reply_frame op (nat start * nd_sector_size d) (read_length d num)) fs)"
    "nat start * nd_sector_size d + read_length d num \<le> length img" "img' = img"
proof -
  note f = read_request_fields [OF assms(1-3)]
  have "aio_hdr NFC_AIO_MSG_IO 44 op @ read_request d start num \<noteq> []" using f(2) by (metis list.size(3) zero_neq_numeral)
  then show thesis
    using assms(4) by (cases rule: servesE) (use that f serve_writes_read in auto)
qed

lemma serve_frame_room:
  assumes "frag_ok lib n f" and "u32 n" and "h < 2 ^ 64" and "offset < 2 ^ 64"
    and "serve_writes lib h op img (write_frame h op offset n f @ rest) \<noteq> None"
  shows "offset + n \<le> length img"
proof -
  have "write_frame h op offset n f @ rest \<noteq> []" by (simp add: write_frame_def flip: length_0_conv)
  then show ?thesis
    using assms(5) write_frame_fields [OF assms(1-4), of op rest]
    by (subst (asm) serve_writes.simps) (simp add: Let_def split: if_splits)
qed

lemma op_fits_write:
  assumes "disk_wf d" and "op_fits d (WriteOp start num data)" and "u32 op"
  shows "write_fits d op (sector_offset d start) (length data)"
proof -
  have "0 \<le> sector_offset d start" using assms(2) by (simp add: sector_offset_def)
  then show ?thesis using assms unfolding write_fits_def disk_wf_def op_fits.simps by blast
qed

lemma serves_write:
  assumes "disk_wf d" and "pyfastlz_ok lib" and "op_fits d (WriteOp start num data)" and "u32 op"
    and "serves lib (nd_handle d) op img (request lib d op (WriteOp start num data)) reply img'"
  obtains ack where "u32 (length ack)" "reply = aio_msg NFC_AIO_MSG_IO op ack"
    "img' = buf_assign img (nat start * nd_sector_size d) data"
proof -
  let ?o = "nat (sector_offset d start)" and ?b = "nd_aio_buffer_size d"
  let ?chunk = "buf_slice data 0 ?b"
  let ?f = "frag_of lib d (0, ?chunk)" and ?wire = "write_wire lib d op ?o data 0"
  have len: "0 < length data" and b: "0 < ?b" and h: "nd_handle d < 2 ^ 64" and n: "u32 (length data)"
    using assms(1,3) by (auto simp: disk_wf_def write_length_def)
  have o: "int ?o = sector_offset d start" "?o < 2 ^ 64" "?o = nat start * nd_sector_size d"
    using assms(3) by (simp add: sector_offset_def, simp add: nat_less_iff sector_offset_def,
      simp add: sector_offset_def nat_mult_distrib)
  have fits: "write_fits d op (int ?o) (length data)"
    unfolding o(1) by (rule op_fits_write [OF assms(1,3,4)])
  have c: "?chunk \<noteq> []" "0 + length ?chunk \<le> length data" "u32 (length ?chunk)"
    using len b n by (auto simp: buf_slice_def u32_def)
  have ok: "frag_ok lib (length data) ?f" using c by (intro frag_of_ok [OF assms(2)])
  obtain rest where w: "?wire = write_frame (nd_handle d) op ?o (length data) ?f @ rest"
    using write_frags_step [OF len b, of lib] by (simp add: write_wire_def Let_def)
  from assms(5) show thesis
  proof (cases rule: serves.cases)
    case (serve_read offset m fs)
    then show thesis using write_frame_fields(2) [OF ok n h o(2), of op rest] w by simp
  next
    case (serve_write ack)
    have "?o + length data \<le> length img"
      using serve_frame_room [OF ok n h o(2)] serve_write(3) w by auto
    then have "serve_writes lib (nd_handle d) op img ?wire = Some (buf_assign img ?o data)"
      using serve_write_frags [OF assms(2) b fits, of img 0] by (simp add: write_wire_def)
    then show thesis using that [of ack] serve_write o(3) by simp
  qed
qed

subsection \<open>One call\<close>

lemma disk_read_ok:
  assumes "disk_wf d" and "1 \<le> num" and "read_in_range d start num" and "u32 (nd_op_id d)"
    and "is_open s" and "room s = None" and "length D = read_length d num" and "reply_for lib D fs"
    and "avail (rx s) = concat (map (reply_frame (nd_op_id d) offset (length D)) fs) @ rest"
  shows "disk_read lib start num (d, s) = (Inr D, d\<lparr>nd_op_id := nd_op_id d + 1\<rparr>,
    s\<lparr>rx := consume (60 * length fs + extra_total fs) (rx s),
      tx := tx s @ aio_hdr NFC_AIO_MSG_IO 44 (nd_op_id d) @ read_request d start num\<rparr>)"
  using readinto_ok [OF assms(1-4) _ _ assms(5-9), of "\<lparr>pb_readonly = False, pb_bytes = replicate (length D) 0\<rparr>"]
    assms(2,7) by (simp add: disk_read_def)

lemma client_step_ok:
  assumes "disk_wf d" and "pyfastlz_ok lib" and "lz_compresses lib" and "op_fits d x" and "u32 (nd_op_id d)"
    and "is_open s" and "room s = None"
    and "serves lib (nd_handle d) (nd_op_id d) img (request lib d (nd_op_id d) x) reply img'"
    and "avail (rx s) = reply @ rest"
  shows "client_step lib x (d, s) = Some (Inr (fst (store_step (nd_sector_size d) x img)), bump d,
      s\<lparr>rx := consume (length reply) (rx s), tx := tx s @ request lib d (nd_op_id d) x\<rparr>) \<and>
    img' = snd (store_step (nd_sector_size d) x img)"
proof (cases x)
  case (ReadOp start num)
  let ?off = "nat start * nd_sector_size d" and ?n = "read_length d num"
  have fits: "1 \<le> num" "read_in_range d start num" using assms(4) ReadOp by simp_all
  obtain fs where fs: "reply_for lib (buf_slice img ?off ?n) fs"
      "reply = concat (map (reply_frame (nd_op_id d) ?off ?n) fs)" "?off + ?n \<le> length img" "img' = img"
    using serves_read [OF assms(1) fits(2) assms(5) assms(8) [unfolded ReadOp request.simps]] by blast
  have len: "length (buf_slice img ?off ?n) = ?n" using fs(3) by (simp add: buf_slice_def)
  then have "disk_read lib start num (d, s) = (Inr (buf_slice img ?off ?n), bump d,
      s\<lparr>rx := consume (length reply) (rx s), tx := tx s @ request lib d (nd_op_id d) x\<rparr>)"
    using disk_read_ok [OF assms(1) fits assms(5-7) len fs(1), of ?off rest] assms(9) fs(2)
    by (simp add: bump_def ReadOp length_reply_frames)
  then show ?thesis using ReadOp fs(4) by (simp add: read_length_def)
next
  case (WriteOp start num data)
  obtain ack where ack: "u32 (length ack)" "reply = aio_msg NFC_AIO_MSG_IO (nd_op_id d) ack"
      "img' = buf_assign img (nat start * nd_sector_size d) data"
    using serves_write [OF assms(1,2) _ assms(5)] assms(4,8) WriteOp by blast
  have "write_fits d (nd_op_id d) (sector_offset d start) (length data)"
    using op_fits_write [OF assms(1) assms(4) [unfolded WriteOp] assms(5)] .
  then have "disk_write lib start num data (d, s) = Some (Inr (), bump d,
      s\<lparr>rx := consume (length reply) (rx s), tx := tx s @ request lib d (nd_op_id d) x\<rparr>)"
    using disk_write_ok [OF assms(1,3) _ _ _ assms(6,7), of num data start ack rest] assms(4,9) WriteOp ack
    by (simp add: bump_def)
  then show ?thesis using WriteOp ack(3) by simp
qed

subsection \<open>A sequence of calls\<close>

lemma disk_wf_bump [simp]: "disk_wf (bump d) = disk_wf d"
  by (simp add: disk_wf_def bump_def)

lemma op_fits_bump [simp]: "op_fits (bump d) = op_fits d"
proof
  show "op_fits (bump d) x = op_fits d x" for x
    by (cases x) (simp_all add: read_in_range_def read_length_def write_length_def sector_offset_def)
qed

lemma request_bump [simp]: "request lib (bump d) op x = request lib d op x"
  by (cases x) (simp_all add: read_request_def read_length_def sector_offset_def)

lemma requests_bump [simp]: "requests lib (bump d) op xs = requests lib d op xs"
  by (induction xs arbitrary: op) simp_all

lemma client_run_ok:
  assumes "disk_wf d" and "pyfastlz_ok lib" and "lz_compresses lib" and "list_all (op_fits d) xs"
    and "u32 (nd_op_id d + length xs)" and "is_open s" and "room s = None"
    and "served lib (nd_handle d) (nd_op_id d) img (requests lib d (nd_op_id d) xs) stream img'"
    and "avail (rx s) = stream @ rest"
  shows "client_run lib xs (d, s) = Some (Inr (fst (store_run (nd_sector_size d) xs img)),
      d\<lparr>nd_op_id := nd_op_id d + length xs\<rparr>,
      s\<lparr>rx := consume (length stream) (rx s), tx := tx s @ concat (requests lib d (nd_op_id d) xs)\<rparr>) \<and>
    img' = snd (store_run (nd_sector_size d) xs img)"
  using assms(1,4-9)
proof (induction xs arbitrary: d s img stream)
  case Nil
  from Nil.prems(6) show ?case by (auto elim!: served_NilE)
next
  case (Cons x xs)
  from Cons.prems(6) obtain reply img1 stream' where
    first: "serves lib (nd_handle d) (nd_op_id d) img (request lib d (nd_op_id d) x) reply img1"
    and more: "served lib (nd_handle d) (nd_op_id d + 1) img1 (requests lib d (nd_op_id d + 1) xs) stream' img'"
    and stream: "stream = reply @ stream'"
    by (auto elim!: served_ConsE)
  let ?s1 = "s\<lparr>rx := consume (length reply) (rx s), tx := tx s @ request lib d (nd_op_id d) x\<rparr>"
  have "u32 (nd_op_id d)" using Cons.prems(3) by (simp add: u32_def)
  then have step: "client_step lib x (d, s) = Some (Inr (fst (store_step (nd_sector_size d) x img)), bump d, ?s1)"
    and img1: "img1 = snd (store_step (nd_sector_size d) x img)"
    using client_step_ok [OF Cons.prems(1) assms(2,3) _ _ Cons.prems(4,5) first, of "stream' @ rest"]
      Cons.prems(2,7) stream by simp_all
  have run: "client_run lib xs (bump d, ?s1) = Some (Inr (fst (store_run (nd_sector_size d) xs img1)),
      (bump d)\<lparr>nd_op_id := nd_op_id d + 1 + length xs\<rparr>,
      ?s1\<lparr>rx := consume (length stream') (rx ?s1), tx := tx ?s1 @ concat (requests lib d (nd_op_id d + 1) xs)\<rparr>) \<and>
    img' = snd (store_run (nd_sector_size d) xs img1)"
    using Cons.IH [of "bump d" ?s1 img1 stream'] Cons.prems more stream by simp
  show ?case
    using step run img1 stream Cons.prems(7)
    by (simp add: bump_def split: prod.splits)
qed

subsection \<open>The server can always answer\<close>

fun op_inside :: "nat \<Rightarrow> nat \<Rightarrow> disk_op \<Rightarrow> bool" where
  "op_inside ss len (ReadOp start num) = (nat start * ss + nat num * ss \<le> len)"
| "op_inside ss len (WriteOp start num data) = (nat start * ss + length data \<le> len)"

lemma reply_for_single: "D \<noteq> [] \<Longrightarrow> reply_for lib D [\<lparr>fr_dest = 0, fr_chunk = D, fr_packed = None\<rparr>]"
  by (simp add: reply_for_def frag_ok_def buf_slice_def)

lemma serves_total:
  assumes "disk_wf d" and "pyfastlz_ok lib" and "op_fits d x" and "u32 op"
    and "op_inside (nd_sector_size d) (length img) x"
  shows "\<exists>reply img'. serves lib (nd_handle d) op img (request lib d op x) reply img' \<and> length img' = length img"
proof (cases x)
  case (ReadOp start num)
  let ?off = "nat start * nd_sector_size d" and ?n = "read_length d num"
  have fits: "1 \<le> num" "read_in_range d start num" using assms(3) ReadOp by simp_all
  note f = read_request_fields [OF assms(1) fits(2) assms(4)]
  have room: "?off + ?n \<le> length img" using assms(5) ReadOp by (simp add: read_length_def)
  have "0 < ?n" using fits(1) assms(1) by (simp add: read_length_def disk_wf_def)
  then have "buf_slice img ?off ?n \<noteq> []" using room by (simp add: buf_slice_def)
  then show ?thesis
    using serve_read [OF f(1-4) f(5,6) [symmetric] room reply_for_single] ReadOp by auto
next
  case (WriteOp start num data)
  have fits: "write_fits d op (sector_offset d start) (length data)"
    using op_fits_write [OF assms(1) _ assms(4)] assms(3) WriteOp by blast
  have o: "nat (sector_offset d start) = nat start * nd_sector_size d"
    "int (nat (sector_offset d start)) = sector_offset d start"
    using assms(3) fits WriteOp by (simp_all add: sector_offset_def nat_mult_distrib write_fits_def)
  have b: "0 < nd_aio_buffer_size d" and len: "0 < length data"
    using assms(1,3) WriteOp by (auto simp: disk_wf_def write_length_def)
  have room: "nat (sector_offset d start) + length data \<le> length img" using assms(5) WriteOp o by simp
  have "serve_writes lib (nd_handle d) op img (request lib d op x) = Some (buf_assign img (nat (sector_offset d start)) data)"
    using serve_write_frags [OF assms(2) b _ room, of op 0] fits o(2) WriteOp by (simp add: write_wire_def)
  moreover have "request lib d op x \<noteq> []"
    using write_frags_step [OF len b, of lib] WriteOp
    by (simp add: write_wire_def Let_def write_frame_def flip: length_0_conv)
  moreover have "u32 0" by (simp add: u32_def)
  ultimately show ?thesis
    using serve_write [of "request lib d op x" lib "nd_handle d" op img _ "[]"]
    by (intro exI [of _ "aio_msg NFC_AIO_MSG_IO op []"] exI [of _ "buf_assign img (nat (sector_offset d start)) data"] conjI)
      (use room in \<open>simp_all add: buf_assign_def\<close>)
qed

lemma served_total:
  assumes "disk_wf d" and "pyfastlz_ok lib" and "list_all (op_fits d) xs" and "u32 (op + length xs)"
    and "list_all (op_inside (nd_sector_size d) (length img)) xs"
  shows "\<exists>stream img'. served lib (nd_handle d) op img (requests lib d op xs) stream img'"
  using assms(3-5)
proof (induction xs arbitrary: op img)
  case Nil
  show ?case using served_done by fastforce
next
  case (Cons x xs)
  have "u32 op" using Cons.prems(2) by (simp add: u32_def)
  then obtain reply img1 where first: "serves lib (nd_handle d) op img (request lib d op x) reply img1" "length img1 = length img"
    using serves_total [OF assms(1,2), of x op img] Cons.prems(1,3) by auto
  obtain stream img2 where "served lib (nd_handle d) (op + 1) img1 (requests lib d (op + 1) xs) stream img2"
    using Cons.IH [of "op + 1" img1] Cons.prems first(2) by auto
  then show ?case unfolding requests.simps by (blast intro: served_step first(1))
qed

subsection \<open>A disk object is an array of bytes\<close>

text \<open>
  C3. A disk object is an array of bytes. Take any sequence of reads and writes whose arguments fit the
  protocol, and any server that decodes each request it gets, stores what a write says and answers a read
  with any fragments of its image, in any order, raw or FastLZ, cut into any segments. Then every call
  returns normally with what the array of bytes returns, the server ends with the final array, each call has
  spent one \<open>opId\<close>, exactly the requests were sent, and exactly the replies were consumed.
\<close>

theorem session_refines_store:
  assumes "disk_wf d" and "pyfastlz_ok lib" and "lz_compresses lib" and "list_all (op_fits d) xs"
    and "u32 (nd_op_id d + length xs)" and "is_open s" and "room s = None"
    and "served lib (nd_handle d) (nd_op_id d) img (requests lib d (nd_op_id d) xs) stream img'"
    and "avail (rx s) = stream @ rest"
  shows "\<exists>s'. client_run lib xs (d, s) = Some (Inr (fst (store_run (nd_sector_size d) xs img)),
      d\<lparr>nd_op_id := nd_op_id d + length xs\<rparr>, s') \<and>
    img' = snd (store_run (nd_sector_size d) xs img) \<and>
    tx s' = tx s @ concat (requests lib d (nd_op_id d) xs) \<and> avail (rx s') = rest"
  using client_run_ok [OF assms] assms(9) by simp

definition demo_ops :: "disk_op list" where
  "demo_ops = [WriteOp 1 2 demo_data, ReadOp 1 2, ReadOp 0 1]"

definition demo_image :: "byte list" where
  "demo_image = replicate 16 1 @ demo_data @ [1]"

definition demo_sector_frags :: "frag list" where
  "demo_sector_frags = [\<lparr>fr_dest = 16, fr_chunk = replicate 16 7, fr_packed = None\<rparr>,
     \<lparr>fr_dest = 0, fr_chunk = replicate 16 0, fr_packed = Some [1]\<rparr>]"

definition demo_replies :: "byte list" where
  "demo_replies = aio_msg 7 5 [] @
     concat (map (reply_frame 6 16 32) demo_sector_frags) @
     concat (map (reply_frame 7 0 16) [\<lparr>fr_dest = 0, fr_chunk = replicate 16 1, fr_packed = None\<rparr>]) @ []"

lemma demo_served:
  "served zero_run_lz 77 5 (replicate 49 1) (requests zero_run_lz demo_wdisk 5 demo_ops) demo_replies demo_image"
proof -
  have w: "serve_writes zero_run_lz 77 5 (replicate 49 1) (request zero_run_lz demo_wdisk 5 (WriteOp 1 2 demo_data)) = Some demo_image"
    "request zero_run_lz demo_wdisk 5 (WriteOp 1 2 demo_data) \<noteq> []"
    by code_simp+
  let ?r1 = "request zero_run_lz demo_wdisk 6 (ReadOp 1 2)" and ?r2 = "request zero_run_lz demo_wdisk 7 (ReadOp 0 1)"
  have r: "unpack_aio_hdr ?r1 = Inr (NFC_AIO_MSG_IO, 44, 6)" "length ?r1 = 60" "io_field ?r1 16 8 = 77" "io_field ?r1 24 4 = 1"
    "16 = io_field ?r1 32 8" "32 = io_field ?r1 40 8" "16 + 32 \<le> length demo_image"
    "unpack_aio_hdr ?r2 = Inr (NFC_AIO_MSG_IO, 44, 7)" "length ?r2 = 60" "io_field ?r2 16 8 = 77" "io_field ?r2 24 4 = 1"
    "0 = io_field ?r2 32 8" "16 = io_field ?r2 40 8" "0 + 16 \<le> length demo_image"
    "reply_for zero_run_lz (buf_slice demo_image 16 32) demo_sector_frags"
    "reply_for zero_run_lz (buf_slice demo_image 0 16) [\<lparr>fr_dest = 0, fr_chunk = replicate 16 1, fr_packed = None\<rparr>]"
    by code_simp+
  have 1: "serves zero_run_lz 77 5 (replicate 49 1) (request zero_run_lz demo_wdisk 5 (WriteOp 1 2 demo_data)) (aio_msg 7 5 []) demo_image"
    using serve_write [OF w(2,1), of "[]"] by (simp add: u32_def)
  have 2: "serves zero_run_lz 77 6 demo_image ?r1 (concat (map (reply_frame 6 16 32) demo_sector_frags)) demo_image"
    by (rule serve_read) (rule r)+
  have 3: "serves zero_run_lz 77 7 demo_image ?r2 (concat (map (reply_frame 7 0 16)
      [\<lparr>fr_dest = 0, fr_chunk = replicate 16 1, fr_packed = None\<rparr>])) demo_image"
    by (rule serve_read) (rule r)+
  show ?thesis
    unfolding demo_ops_def demo_replies_def requests.simps
    using served_step [OF 1 served_step [OF _ served_step [OF _ served_done]]] 2 3 by simp
qed

theorem session_refines_store_witness:
  "\<exists>d' s'. client_run zero_run_lz demo_ops (demo_wdisk, demo_sock [Data (take 50 demo_replies), Data (drop 50 demo_replies), Data [9]]) =
      Some (Inr [[], demo_data, replicate 16 1], d', s') \<and> avail (rx s') = [9]"
proof -
  let ?s = "demo_sock [Data (take 50 demo_replies), Data (drop 50 demo_replies), Data [9]]"
  have "list_all (op_fits demo_wdisk) demo_ops" "nd_op_id demo_wdisk = 5" "nd_handle demo_wdisk = 77" "u32 8"
    "length demo_ops = 3" "fst (store_run (nd_sector_size demo_wdisk) demo_ops (replicate 49 1)) = [[], demo_data, replicate 16 1]"
    by code_simp+
  moreover have "is_open ?s" "room ?s = None" "avail (rx ?s) = demo_replies @ [9]" by (simp_all add: demo_sock_def)
  ultimately show ?thesis
    using session_refines_store [OF demo_wdisk_wf zero_run_lz_ok zero_run_compresses, of demo_ops ?s
        "replicate 49 1" demo_replies demo_image "[9]"] demo_served by auto
qed

end
