(* ===== verification/VixStore.thy ===== *)
theory VixStore
  imports SectorStore VixHandleSpec
begin

text \<open>
  Reading and writing through the VDDK-shaped handle. A caller reads into a fresh \<open>get_buffer\<close> of the
  size of the request and writes a buffer of the size of its sectors; on a disk with sectors of 512 bytes
  a sequence of such calls is the same sequence of calls of \<open>NfcDisk\<close>, on the disk object and the socket
  of the handle, and touches nothing else of the process.
\<close>

fun handle_step :: "fastlz_lib \<Rightarrow> DiskHandle \<Rightarrow> disk_op \<Rightarrow> world \<Rightarrow> ((exn + byte list) \<times> world) option" where
  "handle_step lib h (ReadOp start num) w =
     (case get_buffer (num * int VIXDISKLIB_SECTOR_SIZE) of
        Inl e \<Rightarrow> Some (Inl e, w)
  | Inr buf \<Rightarrow> (case handle_read lib h start num False (w, buf) of
          (r, w', buf') \<Rightarrow> Some (map_sum id (\<lambda>_. pb_bytes buf') r, w')))"
| "handle_step lib h (WriteOp start num data) w =
     map_option (\<lambda>(r, w'). (map_sum id (\<lambda>_. []) r, w')) (handle_write lib h start num data w)"

fun handle_run :: "fastlz_lib \<Rightarrow> DiskHandle \<Rightarrow> disk_op list \<Rightarrow> world \<Rightarrow> ((exn + byte list list) \<times> world) option" where
  "handle_run lib h [] w = Some (Inr [], w)"
| "handle_run lib h (x # xs) w =
     (case handle_step lib h x w of
        None \<Rightarrow> None
  | Some (Inl e, w') \<Rightarrow> Some (Inl e, w')
  | Some (Inr r, w') \<Rightarrow> map_option (\<lambda>(rs, w''). (map_sum id (\<lambda>rs. r # rs) rs, w'')) (handle_run lib h xs w'))"

definition put_disk :: "DiskHandle \<Rightarrow> world \<Rightarrow> dstate \<Rightarrow> world" where
  "put_disk h w st = w\<lparr>w_disks := (w_disks w)(dh_disk h \<mapsto> fst st), w_socks := (w_socks w)(dh_disk h \<mapsto> snd st)\<rparr>"

lemma put_disk_fields [simp]:
  "w_disks (put_disk h w (d, s)) (dh_disk h) = Some d" "w_socks (put_disk h w (d, s)) (dh_disk h) = Some s"
  "put_disk h (put_disk h w st) st' = put_disk h w st'"
  by (simp_all add: put_disk_def)

lemma put_disk_id: "w_disks w (dh_disk h) = Some d \<Longrightarrow> w_socks w (dh_disk h) = Some s \<Longrightarrow> put_disk h w (d, s) = w"
  by (simp add: put_disk_def fun_upd_idem)

lemma handle_step_client:
  assumes "nd_sector_size d = 512" and "op_fits d x"
  shows "handle_step lib h x (put_disk h w (d, s)) =
    map_option (\<lambda>(r, st). (r, put_disk h w st)) (client_step lib x (d, s))"
proof (cases x)
  case (ReadOp start num)
  let ?buf = "\<lparr>pb_readonly = False, pb_bytes = replicate (read_length d num) 0\<rparr>"
  have n: "1 \<le> num" "get_buffer (num * 512) = Inr ?buf"
    using assms ReadOp by (simp_all add: read_length_def nat_mult_distrib get_buffer_def)
  obtain r d' s' buf' where run: "readinto lib start num False ((d, s), ?buf) = (r, (d', s'), buf')"
    by (metis surj_pair)
  have "handle_read lib h start num False (put_disk h w (d, s), ?buf) = (r, put_disk h w (d', s'), buf')"
    using run by (simp add: handle_read_def Let_def) (simp add: put_disk_def)
  then show ?thesis
    using n run ReadOp by (simp add: disk_read_def split: sum.split)
next
  case (WriteOp start num data)
  have data: "py_take (num * 512) data = data"
    using assms WriteOp by (simp add: py_take_def write_length_def nat_mult_distrib)
  have "handle_write lib h start num data (put_disk h w (d, s)) =
      map_option (\<lambda>(r, st). (r, put_disk h w st)) (disk_write lib start num data (d, s))"
    using data by (cases "disk_write lib start num data (d, s)")
      (auto simp: handle_write_def Let_def, auto simp: put_disk_def)
  then show ?thesis
    using WriteOp by (cases "disk_write lib start num data (d, s)") auto
qed

lemma client_step_disk:
  assumes "disk_wf d" and "client_step lib x (d, s) = Some (r, d', s')"
  shows "d' = d \<or> d' = bump d"
proof (cases x)
  case (ReadOp start num)
  show ?thesis
  proof (cases "num < 1")
    case False
    obtain r1 d1 s1 buf1 where run: "readinto lib start num False ((d, s),
        \<lparr>pb_readonly = False, pb_bytes = replicate (read_length d num) 0\<rparr>) = (r1, (d1, s1), buf1)"
      by (metis surj_pair)
    then have "d1 = d \<or> d1 = bump d" by (cases rule: readinto_cases) (simp_all add: bump_def)
    moreover have "d' = d1" using assms(2) run ReadOp False by (auto simp: disk_read_def split: sum.splits)
    ultimately show ?thesis by simp
  qed (use assms(2) ReadOp in \<open>simp add: disk_read_def\<close>)
next
  case (WriteOp start num data)
  have "0 < nd_aio_buffer_size d" using assms(1) by (simp add: disk_wf_def)
  then show ?thesis
    by (cases rule: disk_write_cases [where lib = lib and start = start and num = num and data = data and s = s])
      (use assms(2) WriteOp in auto)
qed

text \<open>
  The handle adds nothing to the disk object. On a disk with 512-byte sectors a sequence of reads into
  fresh buffers and of writes through the VDDK-shaped handle returns and sends what the same sequence does on
  the \<open>NfcDisk\<close> object, stops at the same exception, and changes nothing of the process but that object and
  its socket; whatever the server does.
\<close>

lemma handle_run_client:
  assumes "disk_wf d" and "nd_sector_size d = 512" and "list_all (op_fits d) xs"
  shows "handle_run lib h xs (put_disk h w (d, s)) =
    map_option (\<lambda>(r, st). (r, put_disk h w st)) (client_run lib xs (d, s))"
  using assms
proof (induction xs arbitrary: d s)
  case (Cons x xs)
  have step: "handle_step lib h x (put_disk h w (d, s)) =
      map_option (\<lambda>(r, st). (r, put_disk h w st)) (client_step lib x (d, s))"
    using Cons.prems by (intro handle_step_client) simp_all
  show ?case
  proof (cases "client_step lib x (d, s)")
    case (Some p)
    obtain r d1 s1 where p: "p = (r, d1, s1)" by (cases p)
    have "d1 = d \<or> d1 = bump d" using client_step_disk Cons.prems(1) Some p by blast
    then have "handle_run lib h xs (put_disk h w (d1, s1)) =
        map_option (\<lambda>(r, st). (r, put_disk h w st)) (client_run lib xs (d1, s1))"
      using Cons.prems by (intro Cons.IH) auto
    then show ?thesis
      using step Some p by (cases r; cases "client_run lib xs (d1, s1)") auto
  qed (use step in simp)
qed simp

subsection \<open>The ends of the life of a disk\<close>

lemma handle_read_run:
  assumes "readinto lib start num skip ((d, s), buf) = (r, (d', s'), buf')"
  shows "handle_read lib h start num skip (put_disk h w (d, s), buf) = (r, put_disk h w (d', s'), buf')"
  using assms by (simp add: handle_read_def Let_def) (simp add: put_disk_def)

lemma life_open:
  assumes "nfc_layer session w = (Inr fd, w1)" and "w_socks w1 fd = Some s" and "is_open s" and "room s = None"
    and "args_fit name op version path c b n" and "replies_fit v b1 b2 b3 c1 c2 c3 reply"
    and "parse_open_reply reply = Inr (hn, ss)" and "dh_disk h = fd"
    and "avail (rx s) = open_replies v b1 b2 b3 c1 c2 c3 reply @ later"
  obtains s2 where "open_disk session path name op version ro c b n w =
      (Inr fd, put_disk h w1 (opened_disk fd path hn ss c b n, s2))"
    and "is_open s2" "room s2 = None" "close_fault s2 = close_fault s" "avail (rx s2) = later"
    and "tx s2 = tx s @ open_script name op version path ro (nat b) (nat n)"
    and "disk_wf (opened_disk fd path hn ss c b n)"
proof -
  have args: "open_args_ok c b n" using assms(5) by (simp add: args_fit_def)
  have wf: "disk_wf (opened_disk fd path hn ss c b n)"
    using opened_disk_wf [OF args] parse_open_reply_InrD [OF assms(7)] by simp
  obtain s2 where o: "open_on fd path name op version ro c b n w1 =
      (Inr fd, w1\<lparr>w_socks := (w_socks w1)(fd \<mapsto> s2),
         w_disks := (w_disks w1)(fd \<mapsto> opened_disk fd path hn ss c b n)\<rparr>)"
    and s2: "is_open s2" "room s2 = None" "tx s2 = tx s @ open_script name op version path ro (nat b) (nat n)"
      "avail (rx s2) = later" "close_fault s2 = close_fault s"
    using open_on_ok [OF assms(2-5,9,6,7), of ro] by auto
  have "open_disk session path name op version ro c b n w = (Inr fd, put_disk h w1 (opened_disk fd path hn ss c b n, s2))"
    using o assms(1,8) by (simp add: open_disk_alt [OF args] on_exception_def catch_io_def put_disk_def)
  then show thesis using that s2 wf by blast
qed

text \<open>What a disk sends does not depend on the number of its socket.\<close>

lemma opened_disk_same:
  "op_fits (opened_disk fd path hn ss c b n) = op_fits (opened_disk fd' path hn ss c b n)"
  "requests lib (opened_disk fd path hn ss c b n) op xs = requests lib (opened_disk fd' path hn ss c b n) op xs"
proof -
  let ?d = "opened_disk fd path hn ss c b n" and ?d' = "opened_disk fd' path hn ss c b n"
  note defs = opened_disk_def read_in_range_def read_length_def write_length_def sector_offset_def read_request_def
  show "op_fits ?d = op_fits ?d'"
  proof
    show "op_fits ?d x = op_fits ?d' x" for x by (cases x) (simp_all add: defs)
  qed
  have "frag_of lib ?d = frag_of lib ?d'" by (rule ext) (simp add: frag_of_def write_extra_def opened_disk_def)
  then have "request lib ?d op x = request lib ?d' op x" for op x
    by (cases x) (simp_all add: defs write_wire_def write_frags_def)
  then show "requests lib ?d op xs = requests lib ?d' op xs" by (induction xs arbitrary: op) simp_all
qed

text \<open>The layer for NFC: the bare TCP stream again, or a second TLS session over it.\<close>

definition nfc_script :: "bool \<Rightarrow> sock \<Rightarrow> byte list option \<Rightarrow> sock \<Rightarrow> byte list option \<Rightarrow> net_event list" where
  "nfc_script ssl raw rawcert s cert = (if ssl then [Accept raw rawcert, Accept s cert] else [Accept s cert])"

lemma nfc_layer_ok:
  assumes "fd_open w (as_authd_sock session)" and "as_authd_sock session < w_next w"
    and "w_script w = nfc_script (as_nfc_ssl session) raw rawcert s cert @ es"
  obtains fd w' where "nfc_layer session w = (Inr fd, w')" "w_socks w' fd = Some (s\<lparr>tx := [], is_open := True\<rparr>)"
    "w_next w \<le> fd" "w_socks w' (as_authd_sock session) = w_socks w (as_authd_sock session)"
proof (cases "as_nfc_ssl session")
  case True
  then show thesis
    using assms that
    by (simp add: nfc_layer_def nfc_script_def wrap_nfcssl_socket_def takeover_authd_socket_def dup_socket_def
        enable_tcp_nodelay_def wrap_socket_def layer_ops)
next
  case False
  then show thesis
    using assms that
    by (simp add: nfc_layer_def nfc_script_def takeover_authd_socket_def dup_socket_def enable_tcp_nodelay_def layer_ops)
qed

text \<open>\<open>open\<close> of the handle with a VIM server, an authd and an NFC server that answer.\<close>

lemma handle_open_ok:
  assumes "nfc_compression flags = Inr c" and "ro \<longleftrightarrow> flags AND 4 \<noteq> 0" and "ro \<or> \<not> cn_read_only conn"
    and "ssl \<longleftrightarrow> cn_transport_mode conn = ''nbdssl''"
    and "get_nfc_ticket dp (cn_si conn) (cn_vm_moref conn) None None ro (if ro then None else Some path) w = (Inr t, w0)"
    and "w_script w0 = Accept g gcert # Accept l lcert # nfc_script ssl raw rcert s scert @ es"
    and "avail (rx g) = l0 @ 10 # rest0" and "reply_line ''220'' l0"
    and "room l = None" and "avail (rx l) = l1 @ 10 # l2 @ 10 # l3 @ 10 # rest1"
    and "reply_line ''220'' l1" and "reply_line ''200'' l2" and "reply_line ''200'' l3"
    and "is_ascii (tk_session_id t)" and "is_ascii (ticket_service t ssl)"
    and "case tk_thumbprint t of None \<Rightarrow> True | Some tp \<Rightarrow> cn_allow_untrusted conn \<or> tp = [] \<or> cert_matches dp tp lcert"
    and "room s = None" and "args_fit ''vddk'' ''nbdmode'' NFC_PROTOCOL_VERSION path c b n"
    and "replies_fit v b1 b2 b3 c1 c2 c3 reply" and "parse_open_reply reply = Inr (hn, ss)"
    and "avail (rx s) = open_replies v b1 b2 b3 c1 c2 c3 reply @ later"
  obtains h w1 s2 sa where "handle_open dp conn path flags b n w =
      (Inr h, put_disk h w1 (opened_disk (dh_disk h) path hn ss c b n, s2))"
    and "is_open s2" "room s2 = None" "close_fault s2 = close_fault s" "avail (rx s2) = later"
    and "tx s2 = open_script ''vddk'' ''nbdmode'' NFC_PROTOCOL_VERSION path ro (nat b) (nat n)"
    and "disk_wf (opened_disk (dh_disk h) path hn ss c b n)"
    and "dh_authd_sock h \<noteq> dh_disk h" "w_socks w1 (dh_authd_sock h) = Some sa" "is_open sa"
    and "close_fault sa = close_fault l" "tx sa = map byte_of_char (authd_script t ssl)"
proof -
  let ?a = "w_next w0 + 1"
  let ?session = "\<lparr>as_si = cn_si conn, as_ticket = t, as_authd_sock = ?a, as_nfc_ssl = ssl\<rparr>"
  obtain wa sa where authd: "connect_authd dp t (cn_allow_untrusted conn) ssl w0 = (Inr ?a, wa)"
    and wa: "w_socks wa ?a = Some sa" "is_open sa" "close_fault sa = close_fault l" "tx sa = map byte_of_char (authd_script t ssl)"
      "w_next wa = w_next w0 + 2" "w_script wa = nfc_script ssl raw rcert s scert @ es"
    using connect_authd_ok [OF assms(6,9,7,8,10-16)] by simp
  obtain fd w1 where layer: "nfc_layer ?session wa = (Inr fd, w1)" "w_socks w1 fd = Some (s\<lparr>tx := [], is_open := True\<rparr>)"
    "w_next wa \<le> fd" "w_socks w1 ?a = w_socks wa ?a"
    using nfc_layer_ok [of wa ?session raw rcert s scert es] wa by (auto simp: fd_open_def)
  let ?h = "\<lparr>dh_disk = fd, dh_authd_sock = ?a, dh_transport_mode = cn_transport_mode conn\<rparr>"
  obtain s2 where s2: "open_disk ?session path ''vddk'' ''nbdmode'' NFC_PROTOCOL_VERSION ro c b n wa =
      (Inr fd, put_disk ?h w1 (opened_disk fd path hn ss c b n, s2))"
    "is_open s2" "room s2 = None" "close_fault s2 = close_fault s" "avail (rx s2) = later"
    "tx s2 = open_script ''vddk'' ''nbdmode'' NFC_PROTOCOL_VERSION path ro (nat b) (nat n)"
    "disk_wf (opened_disk fd path hn ss c b n)"
    using life_open [OF layer(1,2) _ _ assms(18-20), of ?h later ro] assms(17,21) by auto
  have "handle_open dp conn path flags b n w = (Inr ?h, put_disk ?h w1 (opened_disk fd path hn ss c b n, s2))"
    using assms(1-5) authd s2(1) by (simp add: handle_open_def Let_def on_exception_def catch_io_def)
  then show thesis using that [of ?h w1 s2 sa] s2 layer(3,4) wa by simp
qed

lemma life_close:
  assumes "disk_wf d" and "\<not> nd_closed d" and "is_open s" and "room s = None" and "close_fault s = None"
    and "u32 (nd_op_id d + 1)"
    and "avail (rx s) = aio_msg NFC_AIO_MSG_CLOSE_FILE (nd_op_id d) e1 @
           aio_msg NFC_AIO_MSG_CLOSE_SESSION (nd_op_id d + 1) e2 @ rest"
    and "u32 (length e1)" and "u32 (length e2)" and "dh_authd_sock h \<noteq> dh_disk h"
    and "w_socks w (dh_authd_sock h) = Some sa" and "is_open sa" and "close_fault sa = None"
  obtains w' s' where "handle_close h (put_disk h w (d, s)) = (Inr (), w')"
    "\<not> fd_open w' (dh_disk h)" "\<not> fd_open w' (dh_authd_sock h)" "w_socks w' (dh_disk h) = Some s'" "avail (rx s') = rest"
    "tx s' = tx s @ aio_msg NFC_AIO_MSG_CLOSE_FILE (nd_op_id d) (le_bytes 8 (nd_handle d)) @
      aio_msg NFC_AIO_MSG_CLOSE_SESSION (nd_op_id d + 1) (le_bytes 4 0) @ nfc_frame NFC_MSG_SESSION_COMPLETE []"
proof -
  have fault: "close_fault s = None \<or> (\<exists>e. close_fault s = Some (OSError e))" using assms(5) by simp
  let ?d' = "d\<lparr>nd_closed := True, nd_op_id := nd_op_id d + 2\<rparr>"
  let ?s' = "s\<lparr>rx := consume (32 + (length e1 + length e2)) (rx s),
      tx := tx s @ aio_msg NFC_AIO_MSG_CLOSE_FILE (nd_op_id d) (le_bytes 8 (nd_handle d)) @
        aio_msg NFC_AIO_MSG_CLOSE_SESSION (nd_op_id d + 1) (le_bytes 4 0) @ nfc_frame NFC_MSG_SESSION_COMPLETE [],
      is_open := False\<rparr>"
  let ?w' = "(put_disk h w (?d', ?s'))\<lparr>w_socks := (w_socks w)(dh_disk h \<mapsto> ?s', dh_authd_sock h \<mapsto> sa\<lparr>is_open := False\<rparr>)\<rparr>"
  have run: "disk_close (d, s) = (Inr (), ?d', ?s')"
    using disk_close_ok [OF assms(1-4) fault assms(6-9)] .
  have "handle_close h (put_disk h w (d, s)) = (Inr (), ?w')"
    using run assms(10-13)
    by (simp add: put_disk_def handle_close_def on_disk_def try_finally_def ignore_OSError_def catch_io_def
        close_fd_def on_sock_def sock_close_def)
  moreover have "\<not> fd_open ?w' (dh_disk h)" "\<not> fd_open ?w' (dh_authd_sock h)" "w_socks ?w' (dh_disk h) = Some ?s'"
    using assms(10) by (simp_all add: fd_open_def)
  moreover have "avail (rx ?s') = rest" using assms(7) by simp
  ultimately show thesis using that [of ?w' ?s'] by simp
qed

end
