(* ===== verification/VixProcess.thy ===== *)
theory VixProcess
  imports FreshFds VixStore
begin

text \<open>
  A process that uses the library with any number of connections and disk handles at once. \<open>process_step\<close>
  has a rule per public operation of \<open>VixDiskLibHandle\<close>, with any arguments, on any live connection or
  handle, and one for the network, which may deliver anything at any time. \<open>process_inv\<close> is its invariant;
  \<open>other_objects\<close> is the frame of a step; \<open>shared_run\<close> is a caller that uses its handle while others work.
\<close>

subsection \<open>The step relation\<close>

record process =
  pr_world :: world
  pr_conns :: "Connection list"
  pr_handles :: "DiskHandle list"

datatype action = Connecting | Disconnecting Connection | Opening Connection
  | Reading DiskHandle | Writing DiskHandle | Closing DiskHandle | Network

inductive process_step :: "deps \<Rightarrow> fastlz_lib \<Rightarrow> action \<Rightarrow> process \<Rightarrow> process \<Rightarrow> bool" for dp lib where
  step_connect: "handle_connect dp srv tp user pwd spec snap ro modes port allow w = (r, w') \<Longrightarrow>
     process_step dp lib Connecting \<lparr>pr_world = w, pr_conns = cs, pr_handles = hs\<rparr>
       \<lparr>pr_world = w', pr_conns = (case r of Inl e \<Rightarrow> cs | Inr c \<Rightarrow> c # cs), pr_handles = hs\<rparr>"
| step_disconnect: "handle_disconnect dp c w = (r, w') \<Longrightarrow>
     process_step dp lib (Disconnecting c) \<lparr>pr_world = w, pr_conns = cs @ c # cs', pr_handles = hs\<rparr>
       \<lparr>pr_world = w', pr_conns = cs @ cs', pr_handles = hs\<rparr>"
| step_open: "c \<in> set cs \<Longrightarrow> handle_open dp c path flags b n w = (r, w') \<Longrightarrow>
     process_step dp lib (Opening c) \<lparr>pr_world = w, pr_conns = cs, pr_handles = hs\<rparr>
       \<lparr>pr_world = w', pr_conns = cs, pr_handles = (case r of Inl e \<Rightarrow> hs | Inr h \<Rightarrow> h # hs)\<rparr>"
| step_read: "h \<in> set hs \<Longrightarrow> handle_read lib h start num skip (w, buf) = (r, w', buf') \<Longrightarrow>
     process_step dp lib (Reading h) \<lparr>pr_world = w, pr_conns = cs, pr_handles = hs\<rparr>
       \<lparr>pr_world = w', pr_conns = cs, pr_handles = hs\<rparr>"
| step_write: "h \<in> set hs \<Longrightarrow> handle_write lib h start num data w = Some (r, w') \<Longrightarrow>
     process_step dp lib (Writing h) \<lparr>pr_world = w, pr_conns = cs, pr_handles = hs\<rparr>
       \<lparr>pr_world = w', pr_conns = cs, pr_handles = hs\<rparr>"
| step_close: "handle_close h w = (r, w') \<Longrightarrow>
     process_step dp lib (Closing h) \<lparr>pr_world = w, pr_conns = cs, pr_handles = hs @ h # hs'\<rparr>
       \<lparr>pr_world = w', pr_conns = cs, pr_handles = hs @ hs'\<rparr>"
| step_network: "process_step dp lib Network \<lparr>pr_world = w, pr_conns = cs, pr_handles = hs\<rparr>
     \<lparr>pr_world = w\<lparr>w_script := es, w_socks := (\<lambda>fd. map_option (\<lambda>s. s\<lparr>rx := evs fd, room := k fd\<rparr>) (w_socks w fd))\<rparr>,
      pr_conns = cs, pr_handles = hs\<rparr>"

inductive_cases process_stepE: "process_step dp lib a p p'"

subsection \<open>The invariant\<close>

definition owned :: "Connection list \<Rightarrow> DiskHandle list \<Rightarrow> resource set list" where
  "owned cs hs = map (\<lambda>c. {Login (cn_si c)}) cs @ map handle_own hs"

definition process_inv :: "process \<Rightarrow> bool" where
  "process_inv p \<longleftrightarrow> world_wf (pr_world p) \<and>
     proc_held (pr_world p) = \<Union> (set (owned (pr_conns p) (pr_handles p))) \<and>
     sorted_wrt disjnt (owned (pr_conns p) (pr_handles p)) \<and>
     (\<forall>h\<in>set (pr_handles p). handle_valid h (pr_world p))"

text \<open>Owners come and go.\<close>

lemma disjnt_sets: "(\<forall>x\<in>set xs. disjnt A x) \<longleftrightarrow> A \<inter> \<Union> (set xs) = {}"
  by (auto simp: disjnt_def)

lemma sorted_disjnt_remove:
  "sorted_wrt disjnt (xs @ P # ys) \<Longrightarrow> sorted_wrt disjnt (xs @ ys) \<and> P \<inter> \<Union> (set (xs @ ys)) = {}"
  by (auto simp: sorted_wrt_append disjnt_def)

lemma sorted_disjnt_insert:
  "sorted_wrt disjnt (xs @ ys) \<Longrightarrow> P \<inter> \<Union> (set (xs @ ys)) = {} \<Longrightarrow> sorted_wrt disjnt (xs @ P # ys)"
  by (auto simp: sorted_wrt_append disjnt_def)

lemma owned_simps:
  "owned (c # cs) hs = {Login (cn_si c)} # owned cs hs"
  "owned cs (h # hs) = owned cs [] @ handle_own h # map handle_own hs"
  "owned cs hs = owned cs [] @ map handle_own hs"
  "owned (cs @ c # cs') hs = map (\<lambda>c. {Login (cn_si c)}) cs @ {Login (cn_si c)} # owned cs' hs"
  "owned (cs @ cs') hs = map (\<lambda>c. {Login (cn_si c)}) cs @ owned cs' hs"
  "owned cs (hs @ h # hs') = owned cs hs @ handle_own h # map handle_own hs'"
  "owned cs (hs @ hs') = owned cs hs @ map handle_own hs'"
  by (simp_all add: owned_def)

lemma inv_same:
  assumes "process_inv \<lparr>pr_world = w, pr_conns = cs, pr_handles = hs\<rparr>"
    and "world_wf w \<Longrightarrow> world_wf w' \<and> proc_held w' = proc_held w" and "dom (w_disks w) \<subseteq> dom (w_disks w')"
  shows "process_inv \<lparr>pr_world = w', pr_conns = cs, pr_handles = hs\<rparr>"
proof -
  have "handle_valid h w'" if "handle_valid h w" for h
    using that assms(3) by (auto simp: handle_valid_def domIff)
  then show ?thesis using assms(1,2) by (simp add: process_inv_def)
qed

lemma handle_write_same:
  assumes "world_wf w" and "handle_write lib h start num data w = Some (r, w')"
  shows "world_wf w' \<and> proc_held w' = proc_held w \<and> dom (w_disks w) \<subseteq> dom (w_disks w') \<and>
    (\<forall>fd. fd \<noteq> dh_disk h \<longrightarrow> same_objects fd w w')"
proof (cases "w_disks w (dh_disk h) = None \<or> w_socks w (dh_disk h) = None")
  case True
  then show ?thesis using assms by (auto simp: handle_write_def Let_def same_objects_def split: option.splits)
next
  case False
  then obtain d s where ds: "w_disks w (dh_disk h) = Some d" "w_socks w (dh_disk h) = Some s" by auto
  let ?data = "py_take (num * 512) data"
  obtain d' s' where run: "disk_write lib start num ?data (d, s) = Some (r, d', s')"
    and w': "w' = w\<lparr>w_disks := (w_disks w)(dh_disk h \<mapsto> d'), w_socks := (w_socks w)(dh_disk h \<mapsto> s')\<rparr>"
    using assms(2) ds by (auto simp: handle_write_def Let_def split: option.splits)
  have b: "0 < nd_aio_buffer_size d" "0 < nd_aio_buffer_size (bump d)"
    using assms(1) ds(1) by (auto simp: world_wf_def disk_wf_def)
  have "disk_alive (d, s) (d', s')" using b(1)
  proof (cases rule: disk_write_cases [where lib = lib and start = start and num = num and data = ?data and s = s])
    case (refused e)
    then show ?thesis using run by (simp add: disk_alive_def)
  next
    case (broken e s1)
    then have "sock_alive s s1" using alive_pre.write_loop_frame [OF b(2)] by blast
    then show ?thesis using run broken(4) by (auto simp: disk_alive_def sock_alive_def)
  next
    case (sent s1 r1 s2)
    have "sock_alive s s1" using alive_pre.write_loop_frame [OF b(2) sent(3)] .
    moreover have "sock_alive s1 s2" using keepsD [OF alive_pre.frame_write_reply sent(4)] .
    ultimately show ?thesis using run sent(5) by (auto simp: disk_alive_def sock_alive_def)
  qed
  then show ?thesis
    using world_upd_disk [OF assms(1) ds] unfolding w' by (auto simp: same_objects_def)
qed

lemma handle_read_same:
  assumes "handle_read lib h start num skip (w, buf) = (r, w', buf')"
  shows "world_wf w \<longrightarrow> world_wf w' \<and> proc_held w' = proc_held w" and "dom (w_disks w) \<subseteq> dom (w_disks w')"
    and "\<forall>fd. fd \<noteq> dh_disk h \<longrightarrow> same_objects fd w w'"
proof -
  have "read_body lib start num skip buf h w = (r, w')" using assms by (simp add: read_body_def)
  then show "world_wf w \<longrightarrow> world_wf w' \<and> proc_held w' = proc_held w" "dom (w_disks w) \<subseteq> dom (w_disks w')"
    using neutral_read_body [of lib start num skip buf h] unfolding neutral_body_def by (metis snd_conv)+
  show "\<forall>fd. fd \<noteq> dh_disk h \<longrightarrow> same_objects fd w w'"
    using assms by (auto simp: handle_read_def Let_def same_objects_def split: option.splits prod.splits)
qed

lemma fresh_frame:
  assumes "bey.gives (w_next w) m Q" and "m w = (r, w')"
  shows "\<forall>fd<w_next w. same_objects fd w w'" and "world_wf w \<Longrightarrow> dom (w_disks w) \<subseteq> dom (w_disks w')"
    and "r = Inr x \<Longrightarrow> Q x"
proof -
  have b: "beyond (w_next w) w w' \<and> (\<forall>x. r = Inr x \<longrightarrow> Q x)"
    using bey.givesD [OF assms(1) _ assms(2)] by simp
  then show all: "\<forall>fd<w_next w. same_objects fd w w'" by (simp add: beyond_def)
  show "r = Inr x \<Longrightarrow> Q x" using b by blast
  assume wf: "world_wf w"
  have "w_disks w' fd = Some d" if "w_disks w fd = Some d" for fd d
  proof -
    have "fd < w_next w" using wf that by (metis not_le option.distinct(1) world_wf_def)
    then show ?thesis using all that by (simp add: same_objects_def)
  qed
  then show "dom (w_disks w) \<subseteq> dom (w_disks w')" by (auto simp: dom_def)
qed

lemma close_frame:
  assumes "handle_close h w = (r, w')"
  shows "\<forall>fd. fd \<noteq> dh_disk h \<and> fd \<noteq> dh_authd_sock h \<longrightarrow> same_objects fd w w'"
    and "dom (w_disks w) \<subseteq> dom (w_disks w')"
proof -
  have w': "w' = snd (close_fd (dh_authd_sock h) (snd (on_disk (dh_disk h) disk_close w)))"
    using assms by (metis handle_close_def snd_conv snd_ignore_OSError snd_try_finally)
  show "\<forall>fd. fd \<noteq> dh_disk h \<and> fd \<noteq> dh_authd_sock h \<longrightarrow> same_objects fd w w'"
    and "dom (w_disks w) \<subseteq> dom (w_disks w')"
    unfolding w' by (auto simp: close_fd_def on_sock_def on_disk_def same_objects_def split: option.splits prod.splits)
qed

lemma disconnect_frame:
  assumes "handle_disconnect dp c w = (r, w')"
  shows "w_disks w' = w_disks w" and "w_socks w' = w_socks w"
  using assms
  by (auto simp: handle_disconnect_def vim_disconnect_def log_act_def then_io_def bind_io_def split: option.splits)

lemma inv_enter:
  assumes inv: "process_inv \<lparr>pr_world = w, pr_conns = cs, pr_handles = hs\<rparr>"
    and wf: "world_wf w'" and held: "proc_held w' = proc_held w \<union> P" "P \<inter> proc_held w = {}"
    and dom: "dom (w_disks w) \<subseteq> dom (w_disks w')"
  shows "{Login (cn_si c)} = P \<Longrightarrow> process_inv \<lparr>pr_world = w', pr_conns = c # cs, pr_handles = hs\<rparr>"
    and "handle_own h = P \<Longrightarrow> handle_valid h w' \<Longrightarrow> process_inv \<lparr>pr_world = w', pr_conns = cs, pr_handles = h # hs\<rparr>"
proof -
  have v: "handle_valid h w'" if "handle_valid h w" for h
    using that dom by (auto simp: handle_valid_def domIff)
  have o: "proc_held w = \<Union> (set (owned cs hs))" "sorted_wrt disjnt (owned cs hs)" "\<forall>h\<in>set hs. handle_valid h w'"
    using inv v by (auto simp: process_inv_def)
  show "process_inv \<lparr>pr_world = w', pr_conns = c # cs, pr_handles = hs\<rparr>" if "{Login (cn_si c)} = P"
    using sorted_disjnt_insert [of "[]" "owned cs hs" P] wf held o that by (auto simp: process_inv_def owned_simps(1))
  show "process_inv \<lparr>pr_world = w', pr_conns = cs, pr_handles = h # hs\<rparr>" if "handle_own h = P" "handle_valid h w'"
  proof -
    have o': "owned cs hs = owned cs [] @ map handle_own hs" "owned cs (h # hs) = owned cs [] @ P # map handle_own hs"
      using that(1) by (simp_all add: owned_def)
    have "sorted_wrt disjnt (owned cs (h # hs))"
      unfolding o'(2) using held(2) o(1,2) unfolding o'(1) by (intro sorted_disjnt_insert) auto
    moreover have "\<Union> (set (owned cs (h # hs))) = \<Union> (set (owned cs hs)) \<union> P" unfolding o' by auto
    ultimately show ?thesis using wf held(1) o that(2) by (simp add: process_inv_def)
  qed
qed

lemma inv_leave:
  assumes inv: "process_inv \<lparr>pr_world = w, pr_conns = cs, pr_handles = hs\<rparr>"
    and wf: "world_wf w'" and held: "proc_held w' = proc_held w - P"
    and dom: "dom (w_disks w) \<subseteq> dom (w_disks w')"
    and split: "owned cs hs = xs @ P # ys" "owned cs' hs' = xs @ ys" "set hs' \<subseteq> set hs"
  shows "process_inv \<lparr>pr_world = w', pr_conns = cs', pr_handles = hs'\<rparr>"
proof -
  have v: "handle_valid h w'" if "handle_valid h w" for h
    using that dom by (auto simp: handle_valid_def domIff)
  have s: "sorted_wrt disjnt (xs @ ys)" "P \<inter> \<Union> (set (xs @ ys)) = {}"
    using sorted_disjnt_remove [of xs P ys] inv by (simp_all add: process_inv_def split(1))
  have "proc_held w = P \<union> \<Union> (set (xs @ ys))" using inv by (auto simp: process_inv_def split(1))
  then have "proc_held w' = \<Union> (set (xs @ ys))" using held s(2) by auto
  then show ?thesis using inv wf s(1) v split(2,3) by (auto simp: process_inv_def)
qed

lemma step_inv:
  "process_step dp lib a p p' \<Longrightarrow> process_inv p \<Longrightarrow> process_inv p'"
proof (induction rule: process_step.induct)
  case (step_connect srv tp user pwd spec snap ro modes port allow w r w' cs hs)
  have wf: "world_wf w" using step_connect.prems by (simp add: process_inv_def)
  have dom: "dom (w_disks w) \<subseteq> dom (w_disks w')" using fresh_frame(2) [OF gives_handle_connect step_connect.hyps wf] .
  show ?case
  proof (cases r)
    case (Inl e)
    then have "world_wf w' \<and> proc_held w' = proc_held w"
      using proc.moves_Inl [OF moves_handle_connect wf _ step_connect.hyps [unfolded Inl]] by simp
    then show ?thesis using inv_same [OF step_connect.prems _ dom] Inl by simp
  next
    case (Inr c)
    then have "world_wf w' \<and> proc_held w' = proc_held w \<union> {Login (cn_si c)} \<and> {Login (cn_si c)} \<inter> proc_held w = {}"
      using proc.moves_Inr [OF moves_handle_connect wf _ step_connect.hyps [unfolded Inr]] by simp
    then show ?thesis using inv_enter(1) [OF step_connect.prems _ _ _ dom refl] Inr by simp
  qed
next
  case (step_open c cs path flags b n w r w' hs)
  have wf: "world_wf w" using step_open.prems by (simp add: process_inv_def)
  have dom: "dom (w_disks w) \<subseteq> dom (w_disks w')" using fresh_frame(2) [OF gives_handle_open step_open.hyps(2) wf] .
  show ?case
  proof (cases r)
    case (Inl e)
    then have "world_wf w' \<and> proc_held w' = proc_held w"
      using proc.moves_Inl [OF moves_handle_open wf _ step_open.hyps(2) [unfolded Inl]] by simp
    then show ?thesis using inv_same [OF step_open.prems _ dom] Inl by simp
  next
    case (Inr h)
    then have "world_wf w' \<and> proc_held w' = proc_held w \<union> handle_own h \<and> handle_own h \<inter> proc_held w = {}"
      using proc.moves_Inr [OF moves_handle_open wf _ step_open.hyps(2) [unfolded Inr]] by simp
    moreover have "handle_valid h w'" using handle_open_valid step_open.hyps(2) Inr by blast
    ultimately show ?thesis using inv_enter(2) [OF step_open.prems _ _ _ dom refl] Inr by simp
  qed
next
  case (step_disconnect c w r w' cs cs' hs)
  have wf: "world_wf w" using step_disconnect.prems by (simp add: process_inv_def)
  then have w': "world_wf w'" "proc_held w' = proc_held w - {Login (cn_si c)}"
    using releases_disconnect [of dp "cn_si c"] step_disconnect.hyps
    unfolding proc.releases_def handle_disconnect_def by (metis snd_conv)+
  show ?case
    by (rule inv_leave [OF step_disconnect.prems w' _ owned_simps(4,5)])
      (simp_all add: disconnect_frame(1) [OF step_disconnect.hyps])
next
  case (step_read h hs start num skip w buf r w' buf' cs)
  note same = handle_read_same(1,2) [OF step_read.hyps(2)]
  show ?case using inv_same [OF step_read.prems _ same(2)] same(1) by simp
next
  case (step_write h hs start num data w r w' cs)
  have "world_wf w" using step_write.prems by (simp add: process_inv_def)
  note same = handle_write_same [OF this step_write.hyps(2)]
  show ?case using inv_same [OF step_write.prems, of w'] same by simp
next
  case (step_close h w r w' cs hs hs')
  have wf: "world_wf w" and v: "handle_valid h w" using step_close.prems by (simp_all add: process_inv_def)
  then have w': "world_wf w'" "proc_held w' = proc_held w - handle_own h"
    using handle_close_frees [OF wf v] step_close.hyps by simp_all
  show ?case
    by (rule inv_leave [OF step_close.prems w' close_frame(2) [OF step_close.hyps] owned_simps(6,7)]) auto
next
  case (step_network w cs hs k evs es)
  have "fd_open (w\<lparr>w_script := es, w_socks := (\<lambda>fd. map_option (\<lambda>s. s\<lparr>rx := evs fd, room := k fd\<rparr>) (w_socks w fd))\<rparr>) fd = fd_open w fd" for fd
    by (simp add: fd_open_def split: option.split)
  then show ?case
    by (intro inv_same [OF step_network]) (auto simp: world_wf_def proc_held_def)
qed

subsection \<open>Other handles\<close>

lemma handle_fds:
  assumes "process_inv p" and "h \<in> set (pr_handles p)"
  shows "fd_open (pr_world p) (dh_disk h)" and "fd_open (pr_world p) (dh_authd_sock h)"
    and "dh_disk h < w_next (pr_world p)" and "dh_authd_sock h < w_next (pr_world p)"
proof -
  have "handle_own h \<subseteq> proc_held (pr_world p)" using assms by (auto simp: process_inv_def owned_def)
  then show o: "fd_open (pr_world p) (dh_disk h)" "fd_open (pr_world p) (dh_authd_sock h)"
    by (auto simp: handle_own_def proc_held_def)
  show "dh_disk h < w_next (pr_world p)" "dh_authd_sock h < w_next (pr_world p)"
    using o world_wf_fdD assms(1) unfolding process_inv_def by blast+
qed

lemma sorted_wrt_pair: "sorted_wrt R xs \<Longrightarrow> symp R \<Longrightarrow> x \<in> set xs \<Longrightarrow> y \<in> set xs \<Longrightarrow> x \<noteq> y \<Longrightarrow> R x y"
  by (induction xs) (auto dest: sympD)

lemma handles_apart:
  assumes "process_inv p" and "h \<in> set (pr_handles p)" and "h' \<in> set (pr_handles p)" and "h \<noteq> h'"
  shows "handle_own h \<inter> handle_own h' = {}"
proof -
  have "sorted_wrt (\<lambda>a b. disjnt (handle_own a) (handle_own b)) (pr_handles p)"
    using assms(1) by (simp add: process_inv_def owned_def sorted_wrt_append sorted_wrt_map)
  moreover have "symp (\<lambda>a b. disjnt (handle_own a) (handle_own b))" by (auto simp: symp_def disjnt_sym)
  ultimately show ?thesis using sorted_wrt_pair assms(2-4) by (fastforce simp: disjnt_def)
qed

fun acts_on :: "action \<Rightarrow> DiskHandle \<Rightarrow> bool" where
  "acts_on (Reading h') h = (h' = h)"
| "acts_on (Writing h') h = (h' = h)"
| "acts_on (Closing h') h = (h' = h)"
| "acts_on Network h = True"
| "acts_on a h = False"

lemma step_frame:
  assumes "process_step dp lib a p p'" and "process_inv p" and "h \<in> set (pr_handles p)" and "\<not> acts_on a h"
  shows "h \<in> set (pr_handles p') \<and> same_objects (dh_disk h) (pr_world p) (pr_world p') \<and>
    same_objects (dh_authd_sock h) (pr_world p) (pr_world p')"
proof -
  note old = handle_fds(3,4) [OF assms(2,3)]
  have apart: "dh_disk h \<noteq> dh_disk h' \<and> dh_disk h \<noteq> dh_authd_sock h' \<and> dh_authd_sock h \<noteq> dh_disk h' \<and>
      dh_authd_sock h \<noteq> dh_authd_sock h'" if "h' \<in> set (pr_handles p)" "h' \<noteq> h" for h'
    using handles_apart [OF assms(2,3) that(1)] that(2) by (auto simp: handle_own_def)
  show ?thesis
    using assms(1)
  proof (cases rule: process_step.cases)
    case (step_connect srv tp user pwd spec snap ro modes port allow w r w' cs hs)
    then show ?thesis using fresh_frame(1) [OF gives_handle_connect step_connect(4)] old assms(3) by simp
  next
    case (step_open c cs path flags b n w r w' hs)
    then show ?thesis using fresh_frame(1) [OF gives_handle_open step_open(5)] old assms(3) by (auto split: sum.split)
  next
    case (step_disconnect c w r w' cs cs' hs)
    then show ?thesis using disconnect_frame [OF step_disconnect(4)] assms(3) by (simp add: same_objects_def)
  next
    case (step_read h' hs start num skip w buf r w' buf' cs)
    then show ?thesis using handle_read_same(3) [OF step_read(5)] apart [of h'] assms(3,4) by auto
  next
    case (step_write h' hs start num data w r w' cs)
    then have "world_wf w" using assms(2) by (simp add: process_inv_def)
    then show ?thesis using handle_write_same [OF _ step_write(5)] apart [of h'] step_write assms(3,4) by auto
  next
    case (step_close h' w r w' cs hs hs')
    then show ?thesis using close_frame(1) [OF step_close(4)] apart [of h'] assms(3,4) by auto
  next
    case step_network
    then show ?thesis using assms(4) by simp
  qed
qed

subsection \<open>A caller among others\<close>

inductive shared_run ::
  "deps \<Rightarrow> fastlz_lib \<Rightarrow> DiskHandle \<Rightarrow> disk_op list \<Rightarrow> byte list list \<Rightarrow> process \<Rightarrow> process \<Rightarrow> bool" for dp lib h where
  shared_done: "shared_run dp lib h [] [] p p"
| shared_other: "process_step dp lib a p p1 \<Longrightarrow> \<not> acts_on a h \<Longrightarrow> shared_run dp lib h xs rs p1 p2 \<Longrightarrow>
     shared_run dp lib h xs rs p p2"
| shared_own: "handle_step lib h x (pr_world p) = Some (Inr r, w) \<Longrightarrow>
     shared_run dp lib h xs rs (p\<lparr>pr_world := w\<rparr>) p2 \<Longrightarrow> shared_run dp lib h (x # xs) (r # rs) p p2"

lemma own_step:
  assumes "h \<in> set (pr_handles p)" and "handle_step lib h x (pr_world p) = Some (Inr r, w)"
  shows "\<exists>a. process_step dp lib a p (p\<lparr>pr_world := w\<rparr>)"
proof -
  obtain w0 cs hs where p: "p = \<lparr>pr_world = w0, pr_conns = cs, pr_handles = hs\<rparr>" by (cases p)
  have h: "h \<in> set hs" using assms(1) p by simp
  show ?thesis
  proof (cases x)
    case (ReadOp start num)
    from assms(2) ReadOp p obtain buf v buf' where "handle_read lib h start num False (w0, buf) = (v, w, buf')"
      by (auto split: sum.splits prod.splits)
    from step_read [OF h this] p show ?thesis by auto
  next
    case (WriteOp start num data)
    from assms(2) WriteOp p obtain v where "handle_write lib h start num data w0 = Some (v, w)" by auto
    from step_write [OF h this] p show ?thesis by auto
  qed
qed

text \<open>A step of a handle depends on nothing but its disk object and its socket.\<close>

lemma handle_step_local:
  assumes "same_objects (dh_disk h) w1 w2" and "handle_step lib h x w1 = Some (r, w1')"
  shows "\<exists>w2'. handle_step lib h x w2 = Some (r, w2') \<and> same_objects (dh_disk h) w1' w2'"
  using assms
  by (cases x)
    (auto simp: handle_read_def handle_write_def Let_def same_objects_def split: sum.splits prod.splits option.splits)

lemma handle_run_local:
  assumes "same_objects (dh_disk h) w1 w2" and "handle_run lib h xs w1 = Some (r, w1')"
  shows "\<exists>w2'. handle_run lib h xs w2 = Some (r, w2') \<and> same_objects (dh_disk h) w1' w2'"
  using assms
proof (induction xs arbitrary: w1 w2 r)
  case (Cons x xs)
  from Cons.prems(2) obtain r1 u1 where step: "handle_step lib h x w1 = Some (r1, u1)" by (auto split: option.splits)
  from handle_step_local [OF Cons.prems(1) step] obtain u2 where
    u2: "handle_step lib h x w2 = Some (r1, u2)" "same_objects (dh_disk h) u1 u2" by blast
  show ?case
  proof (cases r1)
    case (Inl e)
    then show ?thesis using Cons.prems(2) step u2 by auto
  next
    case (Inr y)
    then obtain rs where "handle_run lib h xs u1 = Some (rs, w1')" "r = map_sum id (\<lambda>rs. y # rs) rs"
      using Cons.prems(2) step by auto
    then show ?thesis using Cons.IH [OF u2(2)] u2(1) Inr by fastforce
  qed
qed simp

text \<open>
  C8. Callers do not disturb each other. However the calls of other callers interleave with those of one
  caller on its handle, opening and closing disks and logging in and out included: its reads and writes
  return what they return when nothing comes between them, with any server, and leave its disk object
  and socket in the same state.
\<close>

theorem shared_use_serial:
  assumes "shared_run dp lib h xs rs p p'" and "process_inv p" and "h \<in> set (pr_handles p)"
  shows "\<exists>w'. handle_run lib h xs (pr_world p) = Some (Inr rs, w') \<and> same_objects (dh_disk h) w' (pr_world p') \<and>
    process_inv p' \<and> h \<in> set (pr_handles p')"
  using assms
proof (induction rule: shared_run.induct)
  case (shared_done p)
  then show ?case by (simp add: same_objects_def)
next
  case (shared_other a p p1 xs rs p2)
  have inv: "process_inv p1" using step_inv [OF shared_other.hyps(1) shared_other.prems(1)] .
  have fr: "h \<in> set (pr_handles p1)" "same_objects (dh_disk h) (pr_world p) (pr_world p1)"
    using step_frame [OF shared_other.hyps(1) shared_other.prems shared_other.hyps(2)] by simp_all
  obtain w1 where run: "handle_run lib h xs (pr_world p1) = Some (Inr rs, w1)"
    "same_objects (dh_disk h) w1 (pr_world p2)" "process_inv p2" "h \<in> set (pr_handles p2)"
    using shared_other.IH [OF inv fr(1)] by blast
  have "same_objects (dh_disk h) (pr_world p1) (pr_world p)" using fr(2) by (simp add: same_objects_def)
  from handle_run_local [OF this run(1)] obtain w2 where
    "handle_run lib h xs (pr_world p) = Some (Inr rs, w2)" "same_objects (dh_disk h) w1 w2" by blast
  then show ?case using run(2-4) by (auto simp: same_objects_def)
next
  case (shared_own x p r w xs rs p2)
  obtain a where "process_step dp lib a p (p\<lparr>pr_world := w\<rparr>)" using own_step [OF shared_own.prems(2) shared_own.hyps(1)] by blast
  then have "process_inv (p\<lparr>pr_world := w\<rparr>)" using step_inv shared_own.prems(1) by blast
  then show ?case using shared_own by auto
qed

definition demo_pair :: process where
  "demo_pair = \<lparr>pr_world = (demo_world [])\<lparr>w_next := 7, w_disks := [4 \<mapsto> demo_disk, 6 \<mapsto> demo_disk],
       w_socks := [3 \<mapsto> demo_sock [], 4 \<mapsto> demo_read_sock, 5 \<mapsto> demo_sock [], 6 \<mapsto> demo_sock []]\<rparr>,
     pr_conns = [], pr_handles = [\<lparr>dh_disk = 6, dh_authd_sock = 5, dh_transport_mode = ''nbd''\<rparr>, demo_handle]\<rparr>"

lemma demo_pair_inv: "process_inv demo_pair"
proof -
  have o: "fd_open (pr_world demo_pair) fd \<longleftrightarrow> fd \<in> {3, 4, 5, 6}" for fd
    by (simp add: demo_pair_def fd_open_def demo_sock_def demo_read_sock_def)
  have "\<not> nd_closed demo_disk" by (simp add: demo_disk_def)
  then have "world_wf (pr_world demo_pair)"
    using demo_disk_wf o by (auto simp: world_wf_def demo_pair_def demo_world_def split: if_splits)
  moreover have "proc_held (pr_world demo_pair) = {Fd 3, Fd 4, Fd 5, Fd 6}"
    by (auto simp: proc_held_def o) (simp_all add: demo_pair_def demo_world_def)
  moreover have "owned (pr_conns demo_pair) (pr_handles demo_pair) = [{Fd 6, Fd 5}, {Fd 4, Fd 3}]"
    by (simp add: demo_pair_def owned_def handle_own_def demo_handle_def)
  moreover have "\<forall>h\<in>set (pr_handles demo_pair). handle_valid h (pr_world demo_pair)"
    by (simp add: demo_pair_def handle_valid_def demo_handle_def)
  ultimately show ?thesis by (simp add: process_inv_def disjnt_def insert_commute)
qed

lemma demo_pair_step:
  obtains r w p' where "process_step dp lib (Closing \<lparr>dh_disk = 6, dh_authd_sock = 5, dh_transport_mode = ''nbd''\<rparr>) demo_pair p'"
    "pr_handles p' = [demo_handle]" "handle_close \<lparr>dh_disk = 6, dh_authd_sock = 5, dh_transport_mode = ''nbd''\<rparr> (pr_world demo_pair) = (r, w)"
    "pr_world p' = w"
proof -
  let ?h = "\<lparr>dh_disk = 6, dh_authd_sock = 5, dh_transport_mode = ''nbd''\<rparr>"
  obtain r w where run: "handle_close ?h (pr_world demo_pair) = (r, w)" by (cases "handle_close ?h (pr_world demo_pair)")
  have "process_step dp lib (Closing ?h) demo_pair \<lparr>pr_world = w, pr_conns = [], pr_handles = [demo_handle]\<rparr>"
    using step_close [OF run, of dp lib "[]" "[]" "[demo_handle]"] by (simp add: demo_pair_def)
  then show thesis using that run by simp
qed

theorem shared_use_serial_witness:
  "\<exists>p' w'. shared_run demo_deps zero_run_lz demo_handle [ReadOp 3 2] [[0, 0, 3, 4] @ replicate 1020 0] demo_pair p' \<and>
    handle_run zero_run_lz demo_handle [ReadOp 3 2] (pr_world demo_pair) = Some (Inr [[0, 0, 3, 4] @ replicate 1020 0], w') \<and>
    same_objects 4 w' (pr_world p')"
proof -
  let ?w = "pr_world demo_pair" and ?h = "\<lparr>dh_disk = 6, dh_authd_sock = 5, dh_transport_mode = ''nbd''\<rparr>"
  let ?buf = "\<lparr>pb_readonly = False, pb_bytes = replicate 1024 (0 :: byte)\<rparr>"
  have d: "read_in_range demo_disk 3 2" "read_length demo_disk 2 = 4" "u32 (nd_op_id demo_disk)" "nd_op_id demo_disk = 5"
    "is_open demo_read_sock" "room demo_read_sock = None"
    "avail (rx demo_read_sock) = concat (map (reply_frame 5 6 (length [0, 0, 3, 4 :: byte])) demo_frags) @ [9]"
    by code_simp+
  obtain s' where "readinto zero_run_lz 3 2 False ((demo_disk, demo_read_sock), ?buf) =
      (Inr \<lparr>rr_uncompressed_length = 4, rr_compressed_length = extra_total demo_frags, rr_fragments = []\<rparr>,
       (demo_disk\<lparr>nd_op_id := 6\<rparr>, s'), \<lparr>pb_readonly = False, pb_bytes = [0, 0, 3, 4] @ replicate 1020 0\<rparr>)"
    using readinto_ok [OF demo_disk_wf _ d(1,3) _ _ d(5,6) _ demo_reply d(7) [folded d(4)], of ?buf] d(2,4) by simp
  moreover have "w_disks ?w 4 = Some demo_disk" "w_socks ?w 4 = Some demo_read_sock" by (simp_all add: demo_pair_def)
  ultimately obtain w1 where step: "handle_step zero_run_lz demo_handle (ReadOp 3 2) ?w =
      Some (Inr ([0, 0, 3, 4] @ replicate 1020 0), w1)"
    by (simp add: get_buffer_def handle_read_def demo_handle_def)
  obtain r w p' where p': "process_step demo_deps zero_run_lz (Closing ?h) demo_pair p'" "pr_handles p' = [demo_handle]"
    "handle_close ?h ?w = (r, w)" "pr_world p' = w"
    by (rule demo_pair_step)
  have other: "\<not> acts_on (Closing ?h) demo_handle" "demo_handle \<in> set (pr_handles demo_pair)"
    by (simp_all add: demo_handle_def demo_pair_def)
  have "same_objects (dh_disk demo_handle) ?w w"
    using step_frame [OF p'(1) demo_pair_inv other(2,1)] p'(4) by simp
  from handle_step_local [OF this step] obtain w2 where
    "handle_step zero_run_lz demo_handle (ReadOp 3 2) w = Some (Inr ([0, 0, 3, 4] @ replicate 1020 0), w2)" by blast
  then have run: "shared_run demo_deps zero_run_lz demo_handle [ReadOp 3 2] [[0, 0, 3, 4] @ replicate 1020 0] demo_pair
      (p'\<lparr>pr_world := w2\<rparr>)"
    using p'(4) by (intro shared_other [OF p'(1) other(1)] shared_own [OF _ shared_done]) simp
  have "dh_disk demo_handle = 4" by (simp add: demo_handle_def)
  then show ?thesis using shared_use_serial [OF run demo_pair_inv other(2)] run by metis
qed

text \<open>
  C18. Nobody touches a disk but through its handle. Connecting, logging out, opening (half way or to the end) and
  using or closing another handle leave a live handle live, with the state of its disk object and of its two
  sockets as it was, whatever the network and the server do.
\<close>

theorem others_untouched:
  assumes "process_step dp lib a p p'" and "process_inv p" and "h \<in> set (pr_handles p)" and "\<not> acts_on a h"
  shows "process_inv p' \<and> h \<in> set (pr_handles p') \<and> same_objects (dh_disk h) (pr_world p) (pr_world p') \<and>
    same_objects (dh_authd_sock h) (pr_world p) (pr_world p')"
  using step_inv [OF assms(1,2)] step_frame [OF assms] by blast

theorem others_untouched_witness:
  "\<exists>p'. process_step demo_deps zero_run_lz (Closing \<lparr>dh_disk = 6, dh_authd_sock = 5, dh_transport_mode = ''nbd''\<rparr>) demo_pair p' \<and>
    w_socks (pr_world p') 4 = Some demo_read_sock \<and> w_disks (pr_world p') 4 = Some demo_disk"
proof -
  let ?h = "\<lparr>dh_disk = 6, dh_authd_sock = 5, dh_transport_mode = ''nbd''\<rparr>"
  obtain r w p' where p': "process_step demo_deps zero_run_lz (Closing ?h) demo_pair p'" by (rule demo_pair_step)
  have "\<not> acts_on (Closing ?h) demo_handle" "demo_handle \<in> set (pr_handles demo_pair)" "dh_disk demo_handle = 4"
    "w_disks (pr_world demo_pair) 4 = Some demo_disk" "w_socks (pr_world demo_pair) 4 = Some demo_read_sock"
    by (simp_all add: demo_handle_def demo_pair_def)
  then show ?thesis
    using others_untouched [OF p' demo_pair_inv, of demo_handle] p' by (auto simp: same_objects_def)
qed

subsection \<open>Everything is accounted for\<close>

lemma reaches_inv:
  "(\<lambda>p p'. \<exists>a. process_step dp lib a p p')\<^sup>*\<^sup>* p p' \<Longrightarrow> process_inv p \<Longrightarrow> process_inv p'"
  by (induction rule: rtranclp_induct) (auto intro: step_inv)

lemma fresh_process_inv:
  "world_wf w \<Longrightarrow> proc_held w = {} \<Longrightarrow> process_inv \<lparr>pr_world = w, pr_conns = [], pr_handles = []\<rparr>"
  by (simp add: process_inv_def owned_def)

lemma sorted_wrt_distinct: "sorted_wrt (\<lambda>x y. f y \<noteq> f x) xs \<Longrightarrow> distinct (map f xs)"
  by (induction xs) auto

text \<open>
  C7. Every socket and session has one owner. In every process that starts with none and uses the library in any
  order, with any arguments, any failures and any network: the VIM sessions it holds are those of the
  live connections, one each; its open sockets are the two of each live handle, and no two handles
  share one; and the disk object of a live handle is well formed and not closed.
\<close>

theorem process_accounting:
  assumes "(\<lambda>p p'. \<exists>a. process_step dp lib a p p')\<^sup>*\<^sup>* \<lparr>pr_world = w, pr_conns = [], pr_handles = []\<rparr> p"
    and "world_wf w" and "proc_held w = {}"
  shows "set (w_sessions (pr_world p)) = cn_si ` set (pr_conns p) \<and> distinct (map cn_si (pr_conns p)) \<and>
    {fd. fd_open (pr_world p) fd} = dh_disk ` set (pr_handles p) \<union> dh_authd_sock ` set (pr_handles p) \<and>
    sorted_wrt (\<lambda>h h'. {dh_disk h, dh_authd_sock h} \<inter> {dh_disk h', dh_authd_sock h'} = {}) (pr_handles p) \<and>
    (\<forall>h\<in>set (pr_handles p). \<exists>d. w_disks (pr_world p) (dh_disk h) = Some d \<and> disk_wf d \<and> \<not> nd_closed d)"
proof (intro conjI ballI)
  have inv: "process_inv p" using reaches_inv [OF assms(1) fresh_process_inv [OF assms(2,3)]] .
  then have held: "proc_held (pr_world p) = Login ` cn_si ` set (pr_conns p) \<union> \<Union> (handle_own ` set (pr_handles p))"
    and apart: "sorted_wrt disjnt (owned (pr_conns p) (pr_handles p))"
    by (auto simp: process_inv_def owned_def)
  show "set (w_sessions (pr_world p)) = cn_si ` set (pr_conns p)"
  proof (intro set_eqI)
    show "x \<in> set (w_sessions (pr_world p)) \<longleftrightarrow> x \<in> cn_si ` set (pr_conns p)" for x
      using arg_cong [OF held, of "\<lambda>X. Login x \<in> X"] by (auto simp: proc_held_def handle_own_def)
  qed
  show "{fd. fd_open (pr_world p) fd} = dh_disk ` set (pr_handles p) \<union> dh_authd_sock ` set (pr_handles p)"
  proof (intro set_eqI)
    show "x \<in> {fd. fd_open (pr_world p) fd} \<longleftrightarrow> x \<in> dh_disk ` set (pr_handles p) \<union> dh_authd_sock ` set (pr_handles p)" for x
      using arg_cong [OF held, of "\<lambda>X. Fd x \<in> X"] by (auto simp: proc_held_def handle_own_def)
  qed
  show "distinct (map cn_si (pr_conns p))"
    using apart by (intro sorted_wrt_distinct) (simp add: owned_def sorted_wrt_append sorted_wrt_map disjnt_def)
  have "sorted_wrt (\<lambda>h h'. disjnt (handle_own h) (handle_own h')) (pr_handles p)"
    using apart by (simp add: owned_def sorted_wrt_append sorted_wrt_map)
  then show "sorted_wrt (\<lambda>h h'. {dh_disk h, dh_authd_sock h} \<inter> {dh_disk h', dh_authd_sock h'} = {}) (pr_handles p)"
    by (rule sorted_wrt_mono_rel [rotated]) (auto simp: disjnt_def handle_own_def)
  fix h assume h: "h \<in> set (pr_handles p)"
  then obtain d where "w_disks (pr_world p) (dh_disk h) = Some d"
    using inv by (auto simp: process_inv_def handle_valid_def)
  then show "\<exists>d. w_disks (pr_world p) (dh_disk h) = Some d \<and> disk_wf d \<and> \<not> nd_closed d"
    using inv handle_fds(1) [OF inv h] by (auto simp: process_inv_def world_wf_def)
qed

definition demo_shared_conn :: Connection where
  "demo_shared_conn = \<lparr>cn_si = 0, cn_vm_moref = ''vm-1'', cn_snapshot_ref = None, cn_thumbprint = Some ''0a:ff'',
     cn_allow_untrusted = False, cn_read_only = True, cn_transport_mode = ''nbdssl''\<rparr>"

text \<open>The login succeeds and the open fails at the second TLS handshake.\<close>

theorem process_accounting_witness:
  "\<exists>p. (\<lambda>p p'. \<exists>a. process_step demo_deps zero_run_lz a p p')\<^sup>*\<^sup>* \<lparr>pr_world = demo_world demo_full, pr_conns = [], pr_handles = []\<rparr> p \<and>
     pr_conns p = [demo_shared_conn] \<and> set (w_sessions (pr_world p)) = {0} \<and> {fd. fd_open (pr_world p) fd} = {}"
proof -
  let ?step = "\<lambda>p p'. \<exists>a. process_step demo_deps zero_run_lz a p p'" and ?w0 = "demo_world demo_full"
  let ?connect = "handle_connect demo_deps ''vc'' (Some ''0a:ff'') ''u'' ''p'' (Some ''moref=vm-1'') None True None 443 False ?w0"
  have "fst ?connect = Inr demo_shared_conn" by code_simp
  then obtain w1 where c: "?connect = (Inr demo_shared_conn, w1)" by (metis prod.collapse)
  have "fst (handle_open demo_deps demo_shared_conn ''[ds] a.vmdk'' 4 65536 1 (snd ?connect)) = Inl SSLError" by code_simp
  then obtain w2 where o: "handle_open demo_deps demo_shared_conn ''[ds] a.vmdk'' 4 65536 1 w1 = (Inl SSLError, w2)"
    by (metis c prod.collapse snd_conv)
  have 1: "?step \<lparr>pr_world = ?w0, pr_conns = [], pr_handles = []\<rparr> \<lparr>pr_world = w1, pr_conns = [demo_shared_conn], pr_handles = []\<rparr>"
    using step_connect [OF c, of zero_run_lz "[]" "[]"] by auto
  have 2: "?step \<lparr>pr_world = w1, pr_conns = [demo_shared_conn], pr_handles = []\<rparr>
      \<lparr>pr_world = w2, pr_conns = [demo_shared_conn], pr_handles = []\<rparr>"
    using step_open [OF _ o, of "[demo_shared_conn]" zero_run_lz "[]"] by auto
  have run: "?step\<^sup>*\<^sup>* \<lparr>pr_world = ?w0, pr_conns = [], pr_handles = []\<rparr>
      \<lparr>pr_world = w2, pr_conns = [demo_shared_conn], pr_handles = []\<rparr>"
    by (rule converse_rtranclp_into_rtranclp [where r = ?step, OF 1 r_into_rtranclp [where r = ?step, OF 2]])
  have "world_wf ?w0" "proc_held ?w0 = {}" by (simp_all add: world_wf_def proc_held_def fd_open_def demo_world_def)
  then show ?thesis using process_accounting [OF run] run by (auto simp: demo_shared_conn_def)
qed

end
