(* ===== verification/Probes.thy ===== *)
theory Probes
  imports NfcOpenSpec
begin

text \<open>
  The scripts under \<open>docs/probing_samples\<close> that work on the NFC protocol: what
  \<open>vddk_aio_bufsize_probe.py\<close> makes of a trace of VDDK's system calls, and the writing probe
  \<open>nfc_write_probe.py\<close>. What they call of \<open>nfc_open.py\<close> is the model of the other theories; the running of
  VDDK under \<open>strace\<close> and the VM of the lab are not modelled.

  The theorems say when the reader of the trace finds exactly the fragments that the server sent, and
  that the request of the probe with opcode 0 is the frame that \<open>NfcDisk.write\<close> came to send.
\<close>

subsection \<open>The configuration file\<close>

fun show_nat :: "nat \<Rightarrow> string" where
  "show_nat n = (if n < 10 then [char_of (48 + n)] else show_nat (n div 10) @ [char_of (48 + n mod 10)])"

declare show_nat.simps [simp del]

definition show_int :: "int \<Rightarrow> string" where
  "show_int i = (if i < 0 then CHR ''-'' # show_nat (nat (- i)) else show_nat (nat i))"

definition path_join :: "string \<Rightarrow> string \<Rightarrow> string" where
  "path_join directory name =
     (if directory = [] \<or> last directory = CHR ''/'' then directory @ name else directory @ ''/'' @ name)"

definition newline :: string where
  "newline = [CHR 0x0A]"

text \<open>The path that \<open>_vddk_config\<close> returns and the text that it writes there.\<close>

definition vddk_config :: "string \<Rightarrow> int \<Rightarrow> int \<Rightarrow> string \<times> string" where
  "vddk_config directory buf_size_in_64kb buf_count =
     (let path = path_join directory ''vddk.config''; log = path_join directory ''vddk.log'' in
      (path,
       ''tmpDirectory='' @ directory @ newline @
       ''log.fileName='' @ log @ newline @
       ''log.fileLevel=verbose'' @ newline @
       ''vixDiskLib.nfc.LogLevel=4'' @ newline @
       ''vixDiskLib.transport.LogLevel=4'' @ newline @
       ''vixDiskLib.nfcAio.Session.BufSizeIn64KB='' @ show_int buf_size_in_64kb @ newline @
       ''vixDiskLib.nfcAio.Session.BufCount='' @ show_int buf_count @ newline))"

subsection \<open>Lines of the trace\<close>

definition is_digit :: "char \<Rightarrow> bool" where
  "is_digit c = (let n = (of_char c :: nat) in 48 \<le> n \<and> n \<le> 57)"

definition hex_value :: "char \<Rightarrow> nat option" where
  "hex_value c = (let n = (of_char c :: nat) in
     if 48 \<le> n \<and> n \<le> 57 then Some (n - 48)
     else if 97 \<le> n \<and> n \<le> 102 then Some (n - 87)
     else if 65 \<le> n \<and> n \<le> 70 then Some (n - 55) else None)"

text \<open>\<open>re.findall(r"\\x([0-9a-fA-F]{2})", quoted)\<close>, with the matches as bytes.\<close>

function decode_strace_hex :: "string \<Rightarrow> byte list" where
  "decode_strace_hex cs =
     (case cs of
        [] \<Rightarrow> []
      | c # rest \<Rightarrow>
          (case rest of
             x # a # b # rest' \<Rightarrow>
               (case (hex_value a, hex_value b) of
                  (Some m, Some n) \<Rightarrow>
                    if c = CHR 0x5C \<and> x = CHR ''x'' then word_of_nat (16 * m + n) # decode_strace_hex rest'
                    else decode_strace_hex rest
                | _ \<Rightarrow> decode_strace_hex rest)
           | _ \<Rightarrow> decode_strace_hex rest))"
  by pat_completeness auto
termination by (relation "measure length") auto

declare decode_strace_hex.simps [simp del]

fun dec_value :: "nat \<Rightarrow> string \<Rightarrow> nat" where
  "dec_value acc [] = acc"
| "dec_value acc (c # cs) = dec_value (10 * acc + (of_char c - 48)) cs"

text \<open>\<open>\((\d+),\s*"(.*?)"\<close> after the name of the call; a dot does not match a newline.\<close>

definition match_args :: "string \<Rightarrow> (nat \<times> string) option" where
  "match_args cs =
     (let (digits, cs1) = (takeWhile is_digit cs, dropWhile is_digit cs) in
      if digits = [] \<or> \<not> starts_with cs1 '','' then None
      else let cs2 = dropWhile is_space (tl cs1) in
        if cs2 = [] \<or> hd cs2 \<noteq> CHR 0x22 then None
        else let quoted = takeWhile (\<lambda>c. c \<noteq> CHR 0x22 \<and> c \<noteq> CHR 0x0A) (tl cs2);
                 cs3 = drop (length quoted) (tl cs2) in
          if cs3 = [] \<or> hd cs3 \<noteq> CHR 0x22 then None else Some (dec_value 0 digits, quoted))"

fun match_call :: "string list \<Rightarrow> string \<Rightarrow> (string \<times> nat \<times> string) option" where
  "match_call [] cs = None"
| "match_call (op # ops) cs =
     (if starts_with cs (op @ ''('')
      then (case match_args (drop (length op + 1) cs) of
              Some (fd, quoted) \<Rightarrow> Some (op, fd, quoted) | None \<Rightarrow> match_call ops cs)
      else match_call ops cs)"

text \<open>\<open>syscall_re.search(line)\<close>: the leftmost match.\<close>

fun syscall_search :: "string \<Rightarrow> (string \<times> nat \<times> string) option" where
  "syscall_search [] = None"
| "syscall_search (c # cs) =
     (case match_call [''read'', ''write'', ''recv'', ''send''] (c # cs) of
        Some m \<Rightarrow> Some m | None \<Rightarrow> syscall_search cs)"

text \<open>A dict from descriptors to bytes, in the order of insertion.\<close>

fun bucket_extend :: "nat \<Rightarrow> byte list \<Rightarrow> (nat \<times> byte list) list \<Rightarrow> (nat \<times> byte list) list" where
  "bucket_extend fd bs [] = [(fd, bs)]"
| "bucket_extend fd bs ((k, v) # kvs) = (if k = fd then (k, v @ bs) # kvs else (k, v) # bucket_extend fd bs kvs)"

definition trace_line ::
  "string \<Rightarrow> (nat \<times> byte list) list \<times> (nat \<times> byte list) list \<Rightarrow>
     (nat \<times> byte list) list \<times> (nat \<times> byte list) list" where
  "trace_line line = (\<lambda>(writes, reads).
     case syscall_search line of
       None \<Rightarrow> (writes, reads)
     | Some (op, fd, quoted) \<Rightarrow>
         (let buf = decode_strace_hex quoted in
          if buf = [] then (writes, reads)
          else if op = ''write'' \<or> op = ''send'' then (bucket_extend fd buf writes, reads)
          else (writes, bucket_extend fd buf reads)))"

subsection \<open>Messages of the trace\<close>

text \<open>
  \<open>walk\<close>. It collects the first 16 bytes of the body of an open session, or the place, the length and the
  extra size of a read fragment; the fields are in range where they are read.
\<close>

function walk_open :: "byte list \<Rightarrow> nat \<Rightarrow> byte list list" where
  "walk_open buf offset =
     (if offset + NFC_AIO_HDR_SIZE \<le> length buf
      then let magic = le_val (buf_slice buf offset 4); msg_type = le_val (buf_slice buf (offset + 4) 4);
               size = le_val (buf_slice buf (offset + 8) 4) in
        (if magic \<noteq> NFC_AIO_MAGIC then walk_open buf (offset + 1)
         else let payload = buf_slice buf (offset + NFC_AIO_HDR_SIZE) size;
                  more = walk_open buf (offset + (NFC_AIO_HDR_SIZE + size)) in
           if msg_type = NFC_AIO_MSG_OPEN_SESSION \<and> 16 \<le> length payload then take 16 payload # more else more)
      else [])"
  by pat_completeness auto
termination by (relation "measure (\<lambda>(buf, offset). length buf - offset)") auto

function walk_io :: "byte list \<Rightarrow> nat \<Rightarrow> (nat \<times> nat \<times> nat) list" where
  "walk_io buf offset =
     (if offset + NFC_AIO_HDR_SIZE \<le> length buf
      then let magic = le_val (buf_slice buf offset 4); msg_type = le_val (buf_slice buf (offset + 4) 4);
               size = le_val (buf_slice buf (offset + 8) 4) in
        (if magic \<noteq> NFC_AIO_MAGIC then walk_io buf (offset + 1)
         else let payload = buf_slice buf (offset + NFC_AIO_HDR_SIZE) size;
                  more = walk_io buf (offset + (NFC_AIO_HDR_SIZE + size)) in
           if msg_type = NFC_AIO_MSG_IO \<and> 40 \<le> length payload \<and>
              take_bit 32 (le_val (buf_slice payload 8 8)) = nat NFC_AIO_IO_READ
           then (le_val (buf_slice payload 28 4), le_val (buf_slice payload 32 4), le_val (buf_slice payload 36 4)) # more
           else more)
      else [])"
  by pat_completeness auto
termination by (relation "measure (\<lambda>(buf, offset). length buf - offset)") auto

declare walk_open.simps [simp del] walk_io.simps [simp del]

definition parse_strace :: "string list \<Rightarrow> byte list list \<times> (nat \<times> nat \<times> nat) list" where
  "parse_strace trace =
     (case fold trace_line trace ([], []) of
        (writes, reads) \<Rightarrow> (concat (map (\<lambda>(fd, buf). walk_open buf 0) writes),
                            concat (map (\<lambda>(fd, buf). walk_io buf 0) reads)))"

text \<open>\<open>_interesting_log_lines\<close>; the argument is \<open>None\<close> when there is no such file.\<close>

fun contains :: "string \<Rightarrow> string \<Rightarrow> bool" where
  "contains key [] = (key = [])"
| "contains key (c # cs) = (starts_with (c # cs) key \<or> contains key cs)"

definition interesting_log_lines :: "string list option \<Rightarrow> string list" where
  "interesting_log_lines log =
     (case log of
        None \<Rightarrow> []
      | Some trace \<Rightarrow>
          map (\<lambda>line. rev (dropWhile is_space (rev line)))
            (filter (\<lambda>line. list_ex (\<lambda>key. contains key line)
               [''Buffer Size'', ''BufCount'', ''BufSize'', ''AIO session'', ''Aio Session'',
                ''maximum session'', ''Req. buffer'']) trace))"

subsection \<open>The writing probe\<close>

function probe_recvn_loop :: "nat \<Rightarrow> byte list \<Rightarrow> sock \<Rightarrow> (exn + byte list) \<times> sock" where
  "probe_recvn_loop n buf s =
     (if length buf < n
      then (case sock_recv (n - length buf) s of
              (Inl e, s') \<Rightarrow> (Inl e, s')
            | (Inr chunk, s') \<Rightarrow>
                if chunk = [] then (Inl (RuntimeError (ConnectionClosed n (length buf))), s')
                else probe_recvn_loop n (buf @ chunk) s')
      else (Inr buf, s))"
  by pat_completeness auto
termination
  by (relation "measure (\<lambda>(n, buf, s). n - length buf)") (auto intro!: diff_less_mono2)

declare probe_recvn_loop.simps [simp del]

definition probe_recvn :: "nat \<Rightarrow> (sock, byte list) io" where
  "probe_recvn n = probe_recvn_loop n []"

definition open_rw :: "NfcAuthSession \<Rightarrow> string \<Rightarrow> int \<Rightarrow> (world, nat) io" where
  "open_rw session disk_path oflag =
     bind_io (takeover_authd_socket (as_authd_sock session)) (\<lambda>sock.
     then_io (on_sock sock (handshake ''vddk'' ''nbdmode'' NFC_PROTOCOL_VERSION))
     (then_io (new_disk (nfc_disk_init sock disk_path 0 NFC_SECTOR_SIZE NFC_COMPRESSION_NONE
                           (nat NFC_AIO_BUFFER_SIZE) (nat NFC_AIO_BUFFER_COUNT)))
     (then_io (on_disk sock aio_prepare)
     (let path_b = encode_utf8 disk_path in
      bind_io (lift (struct_pack [FI, FI, FI, FI, FI, FI] [int (length path_b), 0, 0, 0, int NFC_DISK, oflag])) (\<lambda>open_body.
      bind_io (on_disk sock (aio_roundtrip NFC_AIO_MSG_OPEN_FILE (ljust0 60 open_body) path_b 0)) (\<lambda>reply.
      bind_io (lift (parse_open_reply reply)) (\<lambda>(handle, sector_size).
      then_io (on_disk sock (set_opened handle sector_size))
      (bind_io (lift (unpack_I reply 20)) (\<lambda>echoed. ret sock)))))))))"

text \<open>The second half of \<open>try_io\<close>, on the socket of the disk.\<close>

definition probe_reply :: "(sock, nat \<times> nat \<times> byte list \<times> byte list) io" where
  "probe_reply =
     bind_io (probe_recvn 16) (\<lambda>rhdr.
     bind_io (lift (unpack_IIII rhdr 0)) (\<lambda>(magic, rtype, rsize, rop).
     bind_io (if rsize \<noteq> 0 then probe_recvn rsize else ret []) (\<lambda>body.
     bind_io
       (if rtype = NFC_AIO_MSG_IO \<and> 36 \<le> rsize
        then bind_io (lift (unpack_I body 32)) (\<lambda>chunk_len.
             if 0 < chunk_len \<and> chunk_len \<le> 65536 then probe_recvn chunk_len else ret [])
        else ret []) (\<lambda>extra.
     ret (rtype, rsize, body, extra)))))"

definition try_io :: "int \<Rightarrow> int \<Rightarrow> byte list \<Rightarrow> bool \<Rightarrow> (dstate, nat \<times> nat \<times> byte list \<times> byte list) io" where
  "try_io opcode flags_field data send_extra = (\<lambda>(d, s).
     let n = int (length data) in
     bind_io (lift (struct_pack [FQ, FQ, FQ, FQ, FI, FI, FI] [int (nd_handle d), opcode, 0, n, n, n, flags_field])) (\<lambda>payload.
     bind_io next_op_id (\<lambda>op_id.
     bind_io (lift (pack_aio_hdr NFC_AIO_MSG_IO (length payload) op_id)) (\<lambda>hdr.
     then_io (on_snd (sock_sendall (hdr @ payload)))
     (then_io (if send_extra then on_snd (sock_sendall data) else ret ())
     (on_snd probe_reply))))) (d, s))"

subsection \<open>The reader of the trace\<close>

lemma walk_io_shift: "walk_io (pre @ buf) (length pre + off) = walk_io buf off"
proof (induction buf off rule: walk_io.induct)
  case (1 buf off)
  show ?case
  proof (cases "off + NFC_AIO_HDR_SIZE \<le> length buf")
    case True
    let ?size = "le_val (buf_slice buf (off + 8) 4)"
    have sl: "buf_slice (pre @ buf) (length pre + i) k = buf_slice buf i k" for i k by (simp add: buf_slice_def)
    have "walk_io (pre @ buf) (length pre + (off + 1)) = walk_io buf (off + 1)" if "le_val (buf_slice buf off 4) \<noteq> NFC_AIO_MAGIC"
      using 1(1) [OF True refl refl refl that] .
    moreover have "walk_io (pre @ buf) (length pre + (off + (NFC_AIO_HDR_SIZE + ?size))) = walk_io buf (off + (NFC_AIO_HDR_SIZE + ?size))"
      if "\<not> le_val (buf_slice buf off 4) \<noteq> NFC_AIO_MAGIC"
      using 1(2) [OF True refl refl refl that refl] .
    ultimately show ?thesis
      using True sl [of off] sl [of "off + 4"] sl [of "off + 8"] sl [of "off + 16"]
      by (subst (1 2) walk_io.simps) (simp add: Let_def add.assoc)
  qed (simp add: walk_io.simps)
qed

lemma walk_io_drop: "walk_io (pre @ buf) (length pre) = walk_io buf 0"
  using walk_io_shift [of pre buf 0] by simp

definition at_magic :: "byte list \<Rightarrow> bool" where
  "at_magic bs \<longleftrightarrow> le_val (take 4 bs) = NFC_AIO_MAGIC"

lemma walk_io_skip: "\<not> at_magic (b # bs) \<Longrightarrow> walk_io (b # bs) 0 = walk_io bs 0"
  using walk_io_drop [of "[b]" bs] walk_io.simps [of bs 0]
  by (subst walk_io.simps) (auto simp: at_magic_def buf_slice_def Let_def)

text \<open>A run of bytes in which the magic does not occur.\<close>

fun magic_free :: "byte list \<Rightarrow> bool" where
  "magic_free [] = True"
| "magic_free (b # bs) = (\<not> at_magic (b # bs) \<and> magic_free bs)"

lemma at_magic_iff: "at_magic bs \<longleftrightarrow> take 4 bs = [0x7A, 0xDA, 0, 0xA1]"
proof
  have m: "le_bytes 4 NFC_AIO_MAGIC = [0x7A, 0xDA, 0, 0xA1]" by code_simp
  assume a: "at_magic bs"
  have "\<not> length (take 4 bs) \<le> 3"
  proof
    assume "length (take 4 bs) \<le> 3"
    then have "(256 :: nat) ^ length (take 4 bs) \<le> 256 ^ 3" by (intro power_increasing) simp_all
    then show False using le_val_bound [of "take 4 bs"] a by (simp add: at_magic_def)
  qed
  then have "length (take 4 bs) = 4" by simp
  then show "take 4 bs = [0x7A, 0xDA, 0, 0xA1]"
    using le_bytes_le_val [of "take 4 bs"] a m by (simp add: at_magic_def)
next
  assume "take 4 bs = [0x7A, 0xDA, 0, 0xA1]"
  then show "at_magic bs" by (simp add: at_magic_def)
qed

text \<open>No occurrence of the magic can begin in the run and end in the message after it.\<close>

lemma walk_io_run:
  assumes "magic_free xs" and "rest = [] \<or> (\<exists>ys. rest = 0x7A # ys)"
  shows "walk_io (xs @ rest) 0 = walk_io rest 0"
  using assms(1)
proof (induction xs)
  case (Cons x xs)
  have "\<not> at_magic ((x # xs) @ rest)"
  proof
    assume "at_magic ((x # xs) @ rest)"
    then have a: "take 4 ((x # xs) @ rest) = [0x7A, 0xDA, 0, 0xA1]" by (simp add: at_magic_iff)
    consider "4 \<le> length (x # xs)" | "xs = []" | y where "xs = [y]" | y z where "xs = [y, z]"
      by (cases xs; cases "tl xs"; cases "tl (tl xs)") auto
    then show False
    proof cases
      case 1
      then have "at_magic (x # xs)" using a by (simp add: at_magic_iff)
      then show False using Cons.prems by simp
    qed (use a assms(2) in auto)
  qed
  then show ?case using walk_io_skip [of x "xs @ rest"] Cons by simp
qed simp

text \<open>What reaches the reader of a fragment: the message, and those bytes of its extra that are printed in hex.\<close>

definition shown_frame :: "nat \<Rightarrow> nat \<Rightarrow> nat \<Rightarrow> frag \<times> byte list \<Rightarrow> byte list" where
  "shown_frame op offset n = (\<lambda>(f, xs). aio_hdr NFC_AIO_MSG_IO 44 op @ reply_payload offset n f @ xs)"

lemma aio_hdr_head: "\<exists>ys. aio_hdr t n op = 0x7A # ys"
proof -
  have "le_bytes 4 NFC_AIO_MAGIC = [0x7A, 0xDA, 0, 0xA1]" by code_simp
  then show ?thesis by (simp add: aio_hdr_def)
qed

lemma walk_io_message:
  assumes "frag_ok lib n f" and "u32 n" and "u32 op"
  shows "walk_io (aio_hdr NFC_AIO_MSG_IO 44 op @ reply_payload offset n f @ rest) 0 =
    (fr_dest f, length (fr_chunk f), length (frag_extra f)) # walk_io rest 0"
proof -
  let ?h = "aio_hdr 7 44 op" and ?p = "reply_payload offset n f"
  have u: "u32 (fr_dest f)" "u32 (length (fr_chunk f))" "u32 (length (frag_extra f))"
    using assms frag_extra_u32 [OF assms(1,2)] by (auto simp: frag_ok_def u32_def)
  have h: "le_val (buf_slice (?h @ ?p @ rest) 0 4) = NFC_AIO_MAGIC" "le_val (buf_slice (?h @ ?p @ rest) 4 4) = 7"
    "le_val (buf_slice (?h @ ?p @ rest) 8 4) = 44" "buf_slice (?h @ ?p @ rest) 16 44 = ?p"
    using assms(3) by (simp_all add: aio_hdr_def buf_slice_def le_val_le_bytes)
  have f: "le_val (buf_slice ?p 28 4) = fr_dest f" "le_val (buf_slice ?p 32 4) = length (fr_chunk f)"
    "le_val (buf_slice ?p 36 4) = length (frag_extra f)" "le_val (buf_slice ?p 8 8) = 1 + frag_ctype f * 2 ^ 32"
    using u frag_ctype_lt [of f] by (simp_all add: reply_payload_def buf_slice_def le_val_le_bytes u32_def)
  have "take_bit 32 (1 + frag_ctype f * 2 ^ 32) = 1" using frag_ctype_cases [of f] by (auto simp: take_bit_eq_mod)
  moreover have "walk_io (?h @ ?p @ rest) 60 = walk_io rest 0" using walk_io_drop [of "?h @ ?p" rest] by simp
  ultimately show ?thesis
    by (subst walk_io.simps) (simp add: Let_def h [simplified] f [simplified])
qed

definition frag_fields :: "frag \<Rightarrow> nat \<times> nat \<times> nat" where
  "frag_fields f = (fr_dest f, length (fr_chunk f), length (frag_extra f))"

lemma walk_io_frames:
  assumes "list_all (\<lambda>(f, xs). frag_ok lib n f \<and> magic_free xs) fxs" and "u32 n" and "u32 op"
  shows "walk_io (concat (map (shown_frame op offset n) fxs)) 0 = map (frag_fields \<circ> fst) fxs"
  using assms(1)
proof (induction fxs)
  case Nil
  show ?case by (simp add: walk_io.simps)
next
  case (Cons p fxs)
  let ?rest = "concat (map (shown_frame op offset n) fxs)"
  obtain f xs where p: "p = (f, xs)" by (cases p)
  have "?rest = [] \<or> (\<exists>ys. ?rest = 0x7A # ys)"
    using aio_hdr_head [of 7 44 op] by (cases fxs) (auto simp: shown_frame_def)
  then have "walk_io (xs @ ?rest) 0 = walk_io ?rest 0"
    using Cons.prems p by (intro walk_io_run) auto
  then show ?case
    using walk_io_message [of lib n f op offset "xs @ ?rest"] Cons assms(2,3)
    by (simp add: p shown_frame_def [of op offset n] frag_fields_def)
qed

subsection \<open>The trace as \<open>strace -x\<close> prints it\<close>

definition lower_hex :: "nat \<Rightarrow> char" where
  "lower_hex n = (if n < 10 then char_of (48 + n) else char_of (87 + n))"

definition show_hex :: "byte list \<Rightarrow> string" where
  "show_hex bs = concat (map (\<lambda>b. [lower_hex (unat b div 16), lower_hex (unat b mod 16)]) bs)"

definition hex_escape :: "byte \<Rightarrow> string" where
  "hex_escape b = [CHR 0x5C, CHR ''x'', lower_hex (unat b div 16), lower_hex (unat b mod 16)]"

text \<open>
  With \<open>-x\<close> a string is printed in hex, every byte of it, when one of its bytes is neither printable ASCII nor white
  space; every other string is printed as text, with the escapes of C.
\<close>

definition shows_hex :: "byte list \<Rightarrow> bool" where
  "shows_hex bs = list_ex (\<lambda>b. 0x7E < unat b \<or> unat b < 9 \<or> 13 < unat b \<and> unat b < 0x20) bs"

definition text_escape :: "byte \<Rightarrow> string" where
  "text_escape b =
     (if b = 0x22 \<or> b = 0x5C then [CHR 0x5C, char_of (unat b)]
      else if b = 9 then [CHR 0x5C, CHR ''t''] else if b = 10 then [CHR 0x5C, CHR ''n'']
      else if b = 11 then [CHR 0x5C, CHR ''v''] else if b = 12 then [CHR 0x5C, CHR ''f'']
      else if b = 13 then [CHR 0x5C, CHR ''r''] else [char_of (unat b)])"

definition strace_quote :: "byte list \<Rightarrow> string" where
  "strace_quote bs = concat (map (if shows_hex bs then hex_escape else text_escape) bs)"

definition read_line :: "nat \<Rightarrow> string \<Rightarrow> nat \<times> byte list \<Rightarrow> string" where
  "read_line pid tail = (\<lambda>(fd, bs).
     show_nat pid @ '' read('' @ show_nat fd @ '', '' @ [CHR 0x22] @ strace_quote bs @ [CHR 0x22] @ tail)"

lemma hex_value_lower: "n < 16 \<Longrightarrow> hex_value (lower_hex n) = Some n"
  by (auto simp: hex_value_def lower_hex_def)

lemma decode_hex_escape: "decode_strace_hex (concat (map hex_escape bs)) = bs"
proof (induction bs)
  case Nil
  show ?case by (simp add: decode_strace_hex.simps)
next
  case (Cons b bs)
  have b: "unat b < 256" using unsigned_less [of b] by simp
  have "hex_value (lower_hex (unat b div 16)) = Some (unat b div 16)"
    "hex_value (lower_hex (unat b mod 16)) = Some (unat b mod 16)"
    using b by (auto intro!: hex_value_lower)
  then show ?case using Cons by (simp add: hex_escape_def decode_strace_hex.simps)
qed

lemma show_nat_digits: "list_all is_digit (show_nat n) \<and> show_nat n \<noteq> []"
proof (induction n rule: show_nat.induct)
  case (1 n)
  have "is_digit (char_of (48 + m))" if "m < 10" for m :: nat using that by (simp add: is_digit_def Let_def)
  then show ?case using 1 by (subst (1 2) show_nat.simps) simp
qed

lemma dec_value_append: "dec_value acc (xs @ [c]) = 10 * dec_value acc xs + (of_char c - 48)"
  by (induction acc xs rule: dec_value.induct) simp_all

lemma dec_value_show: "dec_value 0 (show_nat n) = n"
proof (induction n rule: show_nat.induct)
  case (1 n)
  show ?case using 1 by (subst show_nat.simps) (auto simp: dec_value_append)
qed

lemma lower_hex_plain: "lower_hex n \<noteq> CHR 0x22 \<and> lower_hex n \<noteq> CHR 0x0A" if "n < 16"
  using that by (auto simp: lower_hex_def dest: arg_cong [where f = "of_char :: char \<Rightarrow> nat"])

lemma escape_plain: "list_all (\<lambda>c. c \<noteq> CHR 0x22 \<and> c \<noteq> CHR 0x0A) (concat (map hex_escape bs))"
proof (induction bs)
  case (Cons b bs)
  have b: "unat b < 256" using unsigned_less [of b] by simp
  have "unat b div 16 < 16" "unat b mod 16 < 16" using b by auto
  then show ?case using Cons lower_hex_plain by (simp add: hex_escape_def)
qed simp

lemma text_plain: "\<not> shows_hex bs \<Longrightarrow> list_all (\<lambda>c. c \<noteq> CHR 0x0A) (concat (map text_escape bs))"
proof (induction bs)
  case (Cons b bs)
  have "unat b < 256" using unsigned_less [of b] by simp
  moreover have "unat b \<noteq> 10" if "b \<noteq> 10" using that by (simp add: word_unat_eq_iff)
  ultimately have "list_all (\<lambda>c. c \<noteq> CHR 0x0A) (text_escape b)"
    by (auto simp: text_escape_def char_of_eq_iff take_bit_eq_mod)
  then show ?case using Cons by (simp add: shows_hex_def)
qed simp

lemma quote_plain: "list_all (\<lambda>c. c \<noteq> CHR 0x0A) (strace_quote bs)"
  using text_plain [of bs] escape_plain [of bs] by (auto simp: strace_quote_def list_all_iff)

text \<open>The regular expression takes a printed string up to its first quotation mark.\<close>

definition quoted_part :: "byte list \<Rightarrow> string" where
  "quoted_part bs = takeWhile (\<lambda>c. c \<noteq> CHR 0x22) (strace_quote bs)"

lemma takeWhile_quoted:
  "takeWhile (\<lambda>c. c \<noteq> CHR 0x22 \<and> c \<noteq> CHR 0x0A) (strace_quote bs @ CHR 0x22 # tail) = quoted_part bs"
  and drop_quoted: "\<exists>cs. drop (length (quoted_part bs)) (strace_quote bs @ CHR 0x22 # tail) = CHR 0x22 # cs"
proof -
  have "takeWhile (\<lambda>c. c \<noteq> CHR 0x22 \<and> c \<noteq> CHR 0x0A) (q @ CHR 0x22 # tail) = takeWhile (\<lambda>c. c \<noteq> CHR 0x22) q \<and>
      (\<exists>cs. drop (length (takeWhile (\<lambda>c. c \<noteq> CHR 0x22) q)) (q @ CHR 0x22 # tail) = CHR 0x22 # cs)"
    if "list_all (\<lambda>c. c \<noteq> CHR 0x0A) q" for q
    using that by (induction q) auto
  from this [OF quote_plain]
  show "takeWhile (\<lambda>c. c \<noteq> CHR 0x22 \<and> c \<noteq> CHR 0x0A) (strace_quote bs @ CHR 0x22 # tail) = quoted_part bs"
    and "\<exists>cs. drop (length (quoted_part bs)) (strace_quote bs @ CHR 0x22 # tail) = CHR 0x22 # cs"
    by (auto simp: quoted_part_def)
qed

lemma match_args_line:
  "match_args (show_nat fd @ '', '' @ [CHR 0x22] @ strace_quote bs @ [CHR 0x22] @ tail) = Some (fd, quoted_part bs)"
proof -
  let ?q = "strace_quote bs"
  let ?cs = "show_nat fd @ '', '' @ [CHR 0x22] @ ?q @ [CHR 0x22] @ tail"
  have d: "\<forall>c\<in>set (show_nat fd). is_digit c" "\<not> is_digit CHR '',''"
    using show_nat_digits [of fd] by (simp_all add: list_all_iff is_digit_def)
  have "takeWhile is_digit ?cs = show_nat fd" "dropWhile is_digit ?cs = '', '' @ [CHR 0x22] @ ?q @ [CHR 0x22] @ tail"
    using d by (simp_all add: takeWhile_append2 dropWhile_append2)
  moreover have "is_space CHR '' ''" "\<not> is_space CHR 0x22" by (simp_all add: is_space_def)
  moreover obtain cs where "drop (length (quoted_part bs)) (?q @ CHR 0x22 # tail) = CHR 0x22 # cs" using drop_quoted by blast
  ultimately show ?thesis
    using show_nat_digits [of fd] by (simp add: match_args_def Let_def starts_with_def dec_value_show takeWhile_quoted del: drop_append drop_eq_Nil drop_eq_Nil2)
qed

text \<open>A string in hex is read back; one in text without a backslash reads as nothing.\<close>

fun no_hex :: "string \<Rightarrow> bool" where
  "no_hex [] = True"
| "no_hex (c # cs) = (\<not> (c = CHR 0x5C \<and> starts_with cs ''x'') \<and> no_hex cs)"

lemma decode_skip:
  assumes "\<not> (c = CHR 0x5C \<and> starts_with cs ''x'')"
  shows "decode_strace_hex (c # cs) = decode_strace_hex cs"
proof (cases "\<exists>x a b rest. cs = x # a # b # rest")
  case True
  then obtain x a b rest where cs: "cs = x # a # b # rest" by blast
  then have "\<not> (c = CHR 0x5C \<and> x = CHR ''x'')" using assms by (simp add: starts_with_def)
  then show ?thesis
    unfolding cs by (subst decode_strace_hex.simps) (auto split: option.split)
next
  case False
  then show ?thesis by (subst decode_strace_hex.simps) (simp split: list.split)
qed

lemma decode_no_hex: "no_hex cs \<Longrightarrow> decode_strace_hex cs = []"
  by (induction cs) (simp_all add: decode_skip decode_strace_hex.simps [of "[]"])

lemma no_hex_takeWhile: "no_hex cs \<Longrightarrow> no_hex (takeWhile P cs)"
proof (induction cs)
  case (Cons c cs)
  then show ?case by (cases cs) (auto simp: starts_with_def)
qed simp

lemma no_hex_text: "0x5C \<notin> set bs \<Longrightarrow> no_hex (concat (map text_escape bs))"
proof (induction bs)
  case (Cons b bs)
  have "unat b < 256" using unsigned_less [of b] by simp
  moreover have "unat b \<noteq> 0x5C" using Cons.prems by (auto simp: word_unat_eq_iff)
  ultimately have "char_of (unat b) \<noteq> CHR 0x5C" by (auto simp: char_of_eq_iff take_bit_eq_mod)
  moreover have "char_of (34 :: nat) \<noteq> CHR ''x''" by (simp add: char_of_eq_iff)
  ultimately show ?case using Cons by (auto simp: text_escape_def starts_with_def)
qed simp

lemma decode_quoted:
  "shows_hex bs \<Longrightarrow> decode_strace_hex (quoted_part bs) = bs"
  "\<not> shows_hex bs \<Longrightarrow> 0x5C \<notin> set bs \<Longrightarrow> decode_strace_hex (quoted_part bs) = []"
proof -
  show "decode_strace_hex (quoted_part bs) = bs" if "shows_hex bs"
  proof -
    have "quoted_part bs = concat (map hex_escape bs)"
      using that escape_plain [of bs] by (simp add: quoted_part_def strace_quote_def list_all_iff)
    then show ?thesis by (simp add: decode_hex_escape)
  qed
  show "decode_strace_hex (quoted_part bs) = []" if "\<not> shows_hex bs" "0x5C \<notin> set bs"
    using that no_hex_takeWhile [OF no_hex_text [of bs]] by (simp add: quoted_part_def strace_quote_def decode_no_hex)
qed

lemma syscall_skip: "c \<notin> set ''rws'' \<Longrightarrow> syscall_search (c # cs) = syscall_search cs"
  by (auto simp: starts_with_def)

lemma syscall_skip_digits: "list_all is_digit xs \<Longrightarrow> syscall_search (xs @ cs) = syscall_search cs"
proof (induction xs)
  case (Cons x xs)
  have "x \<notin> set ''rws''" using Cons.prems by (auto simp: is_digit_def)
  then show ?case using Cons syscall_skip [of x "xs @ cs"] by simp
qed simp

lemma syscall_search_line: "syscall_search (read_line pid tail (fd, bs)) = Some (''read'', fd, quoted_part bs)"
proof -
  let ?cs = "show_nat fd @ '', '' @ [CHR 0x22] @ strace_quote bs @ [CHR 0x22] @ tail"
  have "syscall_search (read_line pid tail (fd, bs)) = syscall_search ('' read('' @ ?cs)"
    using syscall_skip_digits [of "show_nat pid"] show_nat_digits [of pid] by (simp add: read_line_def)
  also have "\<dots> = syscall_search (''read('' @ ?cs)" using syscall_skip [of "CHR '' ''"] by simp
  also have "\<dots> = Some (''read'', fd, quoted_part bs)"
    using match_args_line [of fd bs tail] by (simp add: starts_with_def)
  finally show ?thesis .
qed

text \<open>What a read adds to the bytes of its descriptor.\<close>

definition readable :: "byte list \<Rightarrow> bool" where
  "readable bs \<longleftrightarrow> shows_hex bs \<or> 0x5C \<notin> set bs"

lemma trace_line_read:
  "readable bs \<Longrightarrow> trace_line (read_line pid tail (fd, bs)) (writes, reads) =
    (writes, if shows_hex bs then bucket_extend fd bs reads else reads)"
proof -
  have "bs \<noteq> []" if "shows_hex bs" using that by (auto simp: shows_hex_def)
  then show "readable bs \<Longrightarrow> ?thesis"
    by (auto simp: trace_line_def syscall_search_line readable_def decode_quoted)
qed

lemma fold_trace_reads:
  "list_all readable segs \<Longrightarrow>
    fold trace_line (map (\<lambda>bs. read_line pid tail (fd, bs)) segs) (writes, [(fd, got)]) =
      (writes, [(fd, got @ concat (filter shows_hex segs))])"
  by (induction segs arbitrary: got) (simp_all add: trace_line_read)

lemma fold_trace_first:
  "list_all readable segs \<Longrightarrow>
    fold trace_line (map (\<lambda>bs. read_line pid tail (fd, bs)) segs) (writes, []) =
      (writes, if filter shows_hex segs = [] then [] else [(fd, concat (filter shows_hex segs))])"
  by (induction segs) (simp_all add: trace_line_read fold_trace_reads)

text \<open>
  C39. The reader of the trace finds the fragments. \<open>strace -x\<close> prints what each \<open>read\<close> call of VDDK returned, or its
  first 96 bytes: in hex when a byte of it is not text, as text otherwise, which the reader drops. When what is
  printed in hex, however it is cut into calls, is the messages of the fragments, each followed by some bytes of
  its extra in which the magic does not occur (the whole extra, its beginning, or nothing), and what is printed as
  text has no backslash, \<open>parse_strace\<close> returns the place, the length and the extra size of exactly those
  fragments, in order.
\<close>

theorem parse_strace_fragments:
  assumes "list_all (\<lambda>(f, xs). frag_ok lib n f \<and> magic_free xs) fxs" and "u32 n" and "u32 op"
    and "list_all (\<lambda>bs. shows_hex bs \<or> 0x5C \<notin> set bs) segs"
    and "concat (filter shows_hex segs) = concat (map (shown_frame op offset n) fxs)"
  shows "parse_strace (map (\<lambda>bs. read_line pid tail (fd, bs)) segs) =
    ([], map (\<lambda>(f, xs). (fr_dest f, length (fr_chunk f), length (frag_extra f))) fxs)"
proof -
  let ?got = "concat (filter shows_hex segs)"
  have "list_all readable segs" using assms(4) by (simp add: readable_def list_all_iff)
  then have "fold trace_line (map (\<lambda>bs. read_line pid tail (fd, bs)) segs) ([], []) =
      ([], if filter shows_hex segs = [] then [] else [(fd, ?got)])" by (rule fold_trace_first)
  moreover have "walk_io ?got 0 = map (frag_fields \<circ> fst) fxs" using walk_io_frames [OF assms(1-3)] assms(5) by simp
  moreover have "walk_io ?got 0 = []" if "filter shows_hex segs = []" using that by (simp add: walk_io.simps)
  ultimately show ?thesis by (auto simp: parse_strace_def frag_fields_def comp_def case_prod_beta)
qed

text \<open>
  VDDK reads a header and a message body in a call each, and these are always printed in hex; so only the calls that
  receive an extra can be lost to the reader, which needs none of them.
\<close>

definition vddk_reads :: "nat \<Rightarrow> nat \<Rightarrow> nat \<Rightarrow> frag \<times> byte list list \<Rightarrow> byte list list" where
  "vddk_reads op offset n = (\<lambda>(f, pieces). [aio_hdr NFC_AIO_MSG_IO 44 op, reply_payload offset n f] @ pieces)"

lemma shows_hex_member: "0 \<in> set bs \<Longrightarrow> shows_hex bs"
  unfolding shows_hex_def list_ex_iff by (rule bexI [of _ 0]) simp_all

lemma vddk_reads_shown:
  "concat (filter shows_hex (vddk_reads op offset n (f, pieces))) =
    shown_frame op offset n (f, concat (filter shows_hex pieces))"
proof -
  have "0 \<in> set (le_bytes 4 NFC_AIO_MAGIC)" "0 \<in> set (le_bytes 8 0)" by code_simp+
  then have "shows_hex (aio_hdr NFC_AIO_MSG_IO 44 op)" "shows_hex (reply_payload offset n f)"
    unfolding aio_hdr_def reply_payload_def by (auto intro!: shows_hex_member simp del: le_bytes.simps)
  then show ?thesis by (simp add: vddk_reads_def shown_frame_def)
qed

lemma vddk_trace_shown:
  "concat (filter shows_hex (concat (map (vddk_reads op offset n) fps))) =
    concat (map (shown_frame op offset n) (map (\<lambda>(f, pieces). (f, concat (filter shows_hex pieces))) fps))"
  by (induction fps) (auto simp: vddk_reads_shown)

text \<open>A raw fragment with a text, whose extra the reader does not see, and a compressed one.\<close>

definition text_frag :: frag where
  "text_frag = \<lparr>fr_dest = 2, fr_chunk = [0x68, 0x69], fr_packed = None\<rparr>"

definition zero_frag :: frag where
  "zero_frag = \<lparr>fr_dest = 0, fr_chunk = [0, 0], fr_packed = Some [1]\<rparr>"

definition demo_reads :: "byte list list" where
  "demo_reads = concat (map (vddk_reads 5 6 4) [(text_frag, [[0x68], [0x69]]), (zero_frag, [[1]])])"

theorem parse_strace_fragments_witness:
  "map shows_hex demo_reads = [True, True, False, False, True, True, True] \<and>
   parse_strace (map (\<lambda>bs. read_line 77 '', 96) = 60'' (5, bs)) demo_reads) = ([], [(2, 2, 2), (0, 2, 1)])"
proof -
  let ?fxs = "[(text_frag, []), (zero_frag, [1])]"
  have ok: "list_all (\<lambda>(f, xs). frag_ok zero_run_lz 4 f \<and> magic_free xs) ?fxs" "u32 4" "u32 5"
    "list_all (\<lambda>bs. shows_hex bs \<or> 0x5C \<notin> set bs) demo_reads"
    "map shows_hex demo_reads = [True, True, False, False, True, True, True]"
    by code_simp+
  have pieces: "\<not> shows_hex [0x68]" "\<not> shows_hex [0x69]" "shows_hex [1]" by code_simp+
  then have "concat (filter shows_hex demo_reads) = concat (map (shown_frame 5 6 4) ?fxs)"
    unfolding demo_reads_def vddk_trace_shown by simp
  from parse_strace_fragments [OF ok(1-4) this, of 77 "'', 96) = 60''" 5] ok(5) show ?thesis
    by (simp add: text_frag_def zero_frag_def frag_extra_def)
qed

text \<open>
  Where the reader of the trace goes wrong: an extra that has the bytes of a message in it is counted as one
  fragment more; the names that \<open>strace\<close> prints for \<open>send\<close> and \<open>recv\<close> on Linux are not recognised; and a call that
  returns a piece of a message that is text, such as the first byte of the magic alone, is printed as text under
  \<open>-x\<close> (it is \<open>-xx\<close> that prints everything in hex), so that the message is lost.
\<close>

definition nested_frag :: frag where
  "nested_frag = \<lparr>fr_dest = 0, fr_chunk = aio_hdr 7 44 9 @ reply_payload 0 99 \<lparr>fr_dest = 8, fr_chunk = [1, 2], fr_packed = None\<rparr>,
     fr_packed = None\<rparr>"

theorem trace_reader_gaps:
  "frag_ok zero_run_lz 60 nested_frag \<and>
   walk_io (shown_frame 5 0 60 (nested_frag, frag_extra nested_frag)) 0 = [(0, 60, 60), (8, 2, 2)] \<and>
   syscall_search (''77 sendto(5, '' @ [CHR 0x22] @ hex_escape 122 @ [CHR 0x22] @ '', 1, 0, NULL, 0) = 1'') = None \<and>
   syscall_search (''77 recvfrom(5, '' @ [CHR 0x22] @ hex_escape 122 @ [CHR 0x22] @ '', 1, 0, NULL, NULL) = 1'') = None \<and>
   parse_strace (map (\<lambda>bs. read_line 77 '', 96) = 1'' (5, bs))
     [take 1 (shown_frame 5 6 4 (zero_frag, [1])), drop 1 (shown_frame 5 6 4 (zero_frag, [1]))]) = ([], [])"
proof -
  let ?w = "shown_frame 5 6 4 (zero_frag, [1])"
  have h: "\<not> shows_hex (take 1 ?w)" "shows_hex (drop 1 ?w)" "0x5C \<notin> set (take 1 ?w)" "walk_io (drop 1 ?w) 0 = []"
    by code_simp+
  have "list_all readable [take 1 ?w, drop 1 ?w]" using h by (simp add: readable_def)
  from fold_trace_first [OF this, of 77 "'', 96) = 1''" 5 "[]"]
  have "parse_strace (map (\<lambda>bs. read_line 77 '', 96) = 1'' (5, bs)) [take 1 ?w, drop 1 ?w]) = ([], [])"
    using h by (simp add: parse_strace_def)
  moreover have "frag_ok zero_run_lz 60 nested_frag"
    "walk_io (shown_frame 5 0 60 (nested_frag, frag_extra nested_frag)) 0 = [(0, 60, 60), (8, 2, 2)]"
    "syscall_search (''77 sendto(5, '' @ [CHR 0x22] @ hex_escape 122 @ [CHR 0x22] @ '', 1, 0, NULL, 0) = 1'') = None"
    "syscall_search (''77 recvfrom(5, '' @ [CHR 0x22] @ hex_escape 122 @ [CHR 0x22] @ '', 1, 0, NULL, NULL) = 1'') = None"
    by code_simp+
  ultimately show ?thesis by blast
qed

subsection \<open>The writing probe\<close>

context rx_frame
begin

lemma probe_recvn_loop_frame: "probe_recvn_loop n buf s = (r, s') \<Longrightarrow> R s s'"
proof (induction n buf s rule: probe_recvn_loop.induct)
  case (1 n buf s)
  obtain r1 s1 where rc: "sock_recv (n - length buf) s = (r1, s1)" by (cases "sock_recv (n - length buf) s")
  have e: "R s s1" by (rule keepsD [OF frame_recv rc])
  show ?case
  proof (cases "\<exists>got. length buf < n \<and> r1 = Inr got \<and> got \<noteq> []")
    case False
    then show ?thesis
      using "1.prems" rc e refl_R by (subst (asm) probe_recvn_loop.simps) (auto split: if_splits sum.splits)
  next
    case True
    then obtain got where g: "length buf < n" "r1 = Inr got" "got \<noteq> []" by blast
    then have "probe_recvn_loop n (buf @ got) s1 = (r, s')"
      using "1.prems" rc by (subst (asm) probe_recvn_loop.simps) simp
    then have "R s1 s'" using "1.IH" [OF g(1) rc [symmetric] g(2,3)] by blast
    then show ?thesis by (rule trans_R [OF e])
  qed
qed

lemma frame_probe_recvn: "keeps R (probe_recvn n)"
  unfolding keeps_def probe_recvn_def using probe_recvn_loop_frame by (metis prod.collapse)

lemma frame_probe_reply: "keeps R probe_reply"
  unfolding probe_reply_def case_prod_beta
  by (auto intro!: keeps_intros frame_probe_recvn)

end

text \<open>
  The probe with opcode 0 sends a write. What \<open>try_io\<close> sends with opcode 0, no flags and the data as extra is
  byte for byte what \<open>NfcDisk.write\<close> sends for the same data at the start of an uncompressed disk, when
  they fit in one AIO buffer; whatever the server answers.
\<close>

theorem probe_sends_write:
  assumes "disk_wf d" and "nd_compression d = NFC_COMPRESSION_NONE" and "0 < length data"
    and "length data \<le> nd_aio_buffer_size d" and "u32 (length data)" and "u32 (nd_op_id d)"
    and "is_open s" and "room s = None" and "try_io 0 0 data True (d, s) = (r, d', s')"
  shows "tx s' = tx s @ write_wire lib d (nd_op_id d) 0 data 0 \<and> d' = d\<lparr>nd_op_id := nd_op_id d + 1\<rparr>"
proof -
  let ?n = "length data"
  let ?f = "\<lparr>fr_dest = 0, fr_chunk = data, fr_packed = None\<rparr>"
  have b: "0 < nd_aio_buffer_size d" and h: "nd_handle d < 2 ^ 64" using assms(1) by (simp_all add: disk_wf_def)
  have "buf_slice data 0 (nd_aio_buffer_size d) = data" using assms(4) by (simp add: buf_slice_def)
  then have wire: "write_wire lib d (nd_op_id d) 0 data 0 = write_frame (nd_handle d) (nd_op_id d) 0 ?n ?f"
    using write_frags_step [of 0 data d lib] assms(2,3) b
    by (simp add: write_wire_def Let_def frag_of_def write_extra_def)
  have q: "le_bytes 8 ?n = le_bytes 4 ?n @ le_bytes 4 0"
    using le_bytes_add [of 4 4 ?n] assms(5) by (simp add: u32_def)
  let ?p = "le_bytes 8 (nd_handle d) @ le_bytes 8 0 @ le_bytes 8 0 @ le_bytes 8 ?n @ le_bytes 4 ?n @ le_bytes 4 ?n @ le_bytes 4 0"
  have pack: "struct_pack [FQ, FQ, FQ, FQ, FI, FI, FI] [int (nd_handle d), 0, 0, int ?n, int ?n, int ?n, 0] = Inr ?p"
    using h assms(5) by (simp add: pack1_def u32_def)
  have hdr: "pack_aio_hdr NFC_AIO_MSG_IO 44 (nd_op_id d) = Inr (aio_hdr NFC_AIO_MSG_IO 44 (nd_op_id d))"
    using assms(6) by (simp add: pack_aio_hdr_ok u32_def)
  let ?s1 = "s\<lparr>tx := tx s @ aio_hdr NFC_AIO_MSG_IO 44 (nd_op_id d) @ ?p @ data\<rparr>"
  have run: "try_io 0 0 data True (d, s) = on_snd probe_reply (d\<lparr>nd_op_id := nd_op_id d + 1\<rparr>, ?s1)"
    using pack hdr assms(7,8) by (simp add: try_io_def next_op_id_def on_snd_def [of "sock_sendall x" for x] del: struct_pack.simps)
  have "aio_hdr NFC_AIO_MSG_IO 44 (nd_op_id d) @ ?p @ data = write_wire lib d (nd_op_id d) 0 data 0"
    unfolding wire by (simp add: write_frame_def write_payload_def frag_ctype_def frag_extra_def q)
  moreover obtain r1 s2 where rep: "probe_reply ?s1 = (r1, s2)" by (cases "probe_reply ?s1")
  moreover have "tx s2 = tx ?s1" using keepsD [OF rx_pre.frame_probe_reply rep] by (simp add: rx_only_iff)
  ultimately show ?thesis using run assms(9) by (simp add: on_snd_def)
qed

theorem probe_sends_write_witness:
  "\<exists>r s'. try_io 0 0 [1, 2] True (demo_disk\<lparr>nd_compression := 0\<rparr>, demo_sock [Eof]) =
      (r, demo_disk\<lparr>nd_compression := 0, nd_op_id := 6\<rparr>, s') \<and>
    tx s' = write_wire zero_run_lz (demo_disk\<lparr>nd_compression := 0\<rparr>) 5 0 [1, 2] 0"
proof -
  let ?d = "demo_disk\<lparr>nd_compression := 0\<rparr>"
  obtain r d' s' where run: "try_io 0 0 [1, 2] True (?d, demo_sock [Eof]) = (r, d', s')" by (metis surj_pair)
  have "disk_wf ?d" "nd_compression ?d = NFC_COMPRESSION_NONE" "nd_aio_buffer_size ?d = 2" "nd_op_id ?d = 5" "u32 5" "u32 2"
    "is_open (demo_sock [Eof])" "room (demo_sock [Eof]) = None" "tx (demo_sock [Eof]) = []"
    by code_simp+
  then show ?thesis
    using probe_sends_write [of ?d "[1, 2]" "demo_sock [Eof]" r d' s' zero_run_lz] run
    by (simp flip: numeral_2_eq_2)
qed

lemma echoed_in_range:
  "bind_io (lift (parse_open_reply reply)) (\<lambda>(handle, ss). then_io (m handle ss) (bind_io (lift (unpack_I reply 20)) (\<lambda>e. ret x))) =
   bind_io (lift (parse_open_reply reply)) (\<lambda>(handle, ss). then_io (m handle ss) (ret x))"
proof (cases "parse_open_reply reply")
  case (Inr y)
  then have "40 \<le> length reply" by (auto simp: parse_open_reply_def split: if_splits)
  then have "\<exists>v. unpack_I reply 20 = Inr v" by (simp add: unpack_I_def unpack_from_def)
  then show ?thesis using Inr by (auto simp: ret_def)
qed simp

text \<open>With the flags of a writable open, \<open>open_rw\<close> does what \<open>open_disk\<close> does inside its \<open>try\<close>, and nothing else.\<close>

lemma open_rw_is_open_on:
  "open_rw session path NFC_OPEN_FLAGS_READ_WRITE =
    bind_io (takeover_authd_socket (as_authd_sock session)) (\<lambda>sock.
      open_on sock path ''vddk'' ''nbdmode'' NFC_PROTOCOL_VERSION False (int NFC_COMPRESSION_NONE)
        NFC_AIO_BUFFER_SIZE NFC_AIO_BUFFER_COUNT)"
  unfolding open_rw_def open_on_def echoed_in_range by simp

text \<open>So that a server that hangs up in the handshake leaves the probe with an open socket, and \<open>open_disk\<close> with none.\<close>

theorem open_rw_keeps_socket:
  "(case open_rw (demo_session False) ''a'' 28 (demo_authed [Accept (demo_sock [Eof]) None]) of
      (r, w) \<Rightarrow> isl r \<and> fd_open w 4) \<and>
   (case open_disk (demo_session False) ''a'' ''vddk'' ''nbdmode'' 11 False 0 65536 1 (demo_authed [Accept (demo_sock [Eof]) None]) of
      (r, w) \<Rightarrow> isl r \<and> \<not> fd_open w 4)"
  by code_simp

end
