(* ===== verification/Lab.thy ===== *)
theory Lab
  imports VixHandle
begin

text \<open>
  What the probes and the tests use of \<open>tests/integration/base.py\<close>: the settings of the lab, its \<open>authenticate\<close> and
  \<open>connect\<close>, and the patterns of bytes that are written and read back. The making of the VM is not modelled.
\<close>

record LabEnv =
  lab_host :: string
  lab_port :: nat
  lab_username :: string
  lab_password :: string
  lab_allow_untrusted :: bool
  lab_datacenter :: string
  lab_datastore :: string
  lab_thumbprint :: string
  lab_vm_moref :: string
  lab_vmx_spec :: string
  lab_disk_path :: string

definition lab_authenticate :: "deps \<Rightarrow> LabEnv \<Rightarrow> bool \<Rightarrow> bool \<Rightarrow> (world, NfcAuthSession) io" where
  "lab_authenticate dp lab read_only nfc_ssl =
     authenticate dp (lab_host lab) (lab_username lab) (lab_password lab) (lab_vm_moref lab) 443
       (Some (lab_thumbprint lab)) (lab_allow_untrusted lab) None
       (if read_only then None else Some (lab_disk_path lab)) read_only nfc_ssl"

text \<open>\<open>connect\<close> with the arguments of \<open>vixdisklib_connect_kwargs\<close>, where the extras replace the common ones.\<close>

definition lab_connect :: "deps \<Rightarrow> LabEnv \<Rightarrow> bool \<Rightarrow> string \<Rightarrow> bool \<Rightarrow> (world, Connection) io" where
  "lab_connect dp lab allow_untrusted transport_modes read_only =
     handle_connect dp (lab_host lab) (Some (lab_thumbprint lab)) (lab_username lab) (lab_password lab)
       (Some (lab_vmx_spec lab)) None read_only (Some transport_modes) (lab_port lab) allow_untrusted"

definition pattern_bytes :: "nat \<Rightarrow> byte list \<Rightarrow> exn + byte list" where
  "pattern_bytes n seed =
     (if seed = [] then Inl (ValueError (Text ''seed must be non-empty''))
      else Inr (take n (concat (replicate (n div length seed + 1) seed))))"

text \<open>A pattern has the length that was asked for, and repeats its seed.\<close>

lemma pattern_bytes_ok:
  assumes "seed \<noteq> []"
  shows "\<exists>bs. pattern_bytes n seed = Inr bs \<and> length bs = n \<and> (\<forall>i<n. bs ! i = seed ! (i mod length seed))"
proof -
  let ?m = "length seed"
  obtain k where k: "k = n div length seed + 1" by simp
  have len: "length (concat (replicate k seed)) = k * ?m" for k by (induction k) simp_all
  have "n < k * ?m" using assms dividend_less_div_times [of ?m n] k by simp
  moreover have "concat (replicate k seed) ! i = seed ! (i mod ?m)" if "i < k * ?m" for i k
    using that
  proof (induction k arbitrary: i)
    case (Suc k)
    then show ?case
      by (cases "i < ?m") (auto simp: nth_append le_mod_geq less_diff_conv2)
  qed simp
  ultimately show ?thesis using assms len unfolding pattern_bytes_def k [symmetric] by simp
qed

definition demo_lab :: LabEnv where
  "demo_lab = \<lparr>lab_host = ''vc'', lab_port = 443, lab_username = ''u'', lab_password = ''p'', lab_allow_untrusted = True,
     lab_datacenter = ''dc'', lab_datastore = ''ds'', lab_thumbprint = ''0a:ff'',
     lab_vm_moref = ''vm-1'', lab_vmx_spec = ''moref=vm-1'', lab_disk_path = ''[ds] vm/vm.vmdk''\<rparr>"

end
