(* ===== verification/StressTest.thy ===== *)
theory StressTest
  imports VixProcess Probes Lab
begin

text \<open>
  The stress test \<open>tests/stress/test_connect_open_close.py\<close> as a client of the library: it connects, opens, writes,
  reads back and closes again and again in one process, and asserts that the data comes back and that the number of open
  descriptors does not grow.

  The theorem is that the assertion on descriptors holds for every network, server and number of rounds, and that
  the test ends. Descriptors are the open socket objects of the process.
\<close>

subsection \<open>A context manager around a body that may not end\<close>

definition with_opt :: "('w, 'h) io \<Rightarrow> ('h \<Rightarrow> ('w, unit) io) \<Rightarrow> ('h \<Rightarrow> 'w \<Rightarrow> ((exn + 'a) \<times> 'w) option) \<Rightarrow>
    'w \<Rightarrow> ((exn + 'a) \<times> 'w) option" where
  "with_opt enter leave body = (\<lambda>w. case enter w of
     (Inl e, w1) \<Rightarrow> Some (Inl e, w1)
   | (Inr h, w1) \<Rightarrow> map_option (\<lambda>p. try_finally (\<lambda>_. p) (leave h) w1) (body h w1))"

lemma with_opt_total:
  assumes "\<And>h w1. enter w = (Inr h, w1) \<Longrightarrow> body h w1 = Some (m h w1)"
  shows "with_opt enter leave body w = Some (with_io enter leave m w)"
  using assms by (auto simp: with_opt_def with_io_def bind_io_def try_finally_def split: prod.split sum.split)

subsection \<open>The test\<close>

definition stress_use :: "fastlz_lib \<Rightarrow> byte list \<Rightarrow> DiskHandle \<Rightarrow> world \<Rightarrow> ((exn + byte list) \<times> world) option" where
  "stress_use lib write_buf disk = (\<lambda>w.
     case handle_write lib disk 0 1 write_buf w of
       None \<Rightarrow> None
     | Some (Inl e, w1) \<Rightarrow> Some (Inl e, w1)
     | Some (Inr _, w1) \<Rightarrow>
         (case handle_read lib disk 0 1 False (w1, \<lparr>pb_readonly = False, pb_bytes = replicate 512 0xA5\<rparr>) of
            (r, w2, read_buf) \<Rightarrow> Some (map_sum id (\<lambda>_. take 512 (pb_bytes read_buf)) r, w2)))"

definition stress_cycle :: "deps \<Rightarrow> fastlz_lib \<Rightarrow> LabEnv \<Rightarrow> byte list \<Rightarrow> world \<Rightarrow> ((exn + byte list) \<times> world) option" where
  "stress_cycle dp lib lab write_buf =
     with_opt (lab_connect dp lab (lab_allow_untrusted lab) ''nbdssl'' False) (handle_disconnect dp)
       (\<lambda>conn. with_opt (handle_open dp conn (lab_disk_path lab) 0 NFC_AIO_BUFFER_SIZE NFC_AIO_BUFFER_COUNT) handle_close
          (stress_use lib write_buf))"

fun stress_loop :: "deps \<Rightarrow> fastlz_lib \<Rightarrow> LabEnv \<Rightarrow> nat list \<Rightarrow> world \<Rightarrow> ((exn + unit) \<times> world) option" where
  "stress_loop dp lib lab [] w = Some (Inr (), w)"
| "stress_loop dp lib lab (i # rounds) w =
     (case pattern_bytes 512 (map byte_of_char (''STRESS-'' @ show_nat i @ ''-'')) of
        Inl e \<Rightarrow> Some (Inl e, w)
      | Inr expected \<Rightarrow>
          (case stress_cycle dp lib lab expected w of
             None \<Rightarrow> None
           | Some (Inl e, w') \<Rightarrow> Some (Inl e, w')
           | Some (Inr got, w') \<Rightarrow>
               if got = expected then stress_loop dp lib lab rounds w'
               else Some (Inl (OtherError (Text ''AssertionError'')), w')))"

definition fd_count :: "world \<Rightarrow> nat" where
  "fd_count w = length (filter (fd_open w) [0..<w_next w])"

definition FD_SLACK :: nat where
  "FD_SLACK = 8"

definition fds_grew :: exn where
  "fds_grew = OtherError (Text ''AssertionError: open fds grew'')"

definition stress_test :: "deps \<Rightarrow> fastlz_lib \<Rightarrow> LabEnv \<Rightarrow> nat \<Rightarrow> world \<Rightarrow> ((exn + unit) \<times> world) option" where
  "stress_test dp lib lab iterations w =
     (case handle_init (Some ''8.0'') of
        Inl e \<Rightarrow> Some (Inl e, w)
      | Inr _ \<Rightarrow>
          let fds_before = fd_count w in
          (case stress_loop dp lib lab [0..<iterations] w of
             None \<Rightarrow> None
           | Some (Inl e, w') \<Rightarrow> Some (Inl e, w')
           | Some (Inr _, w') \<Rightarrow>
               let fds_after = fd_count w' in
               Some (if fds_after \<le> fds_before + FD_SLACK then Inr () else Inl fds_grew, w')))"

subsection \<open>Nothing is lost\<close>

lemma stress_use_total:
  assumes "world_wf w"
  shows "\<exists>r w'. stress_use lib data h w = Some (r, w')"
proof -
  have "\<exists>p. handle_write lib h 0 1 data w = Some p"
  proof (cases "w_disks w (dh_disk h) = None \<or> w_socks w (dh_disk h) = None")
    case True
    then show ?thesis by (auto simp: handle_write_def Let_def split: option.split)
  next
    case False
    then obtain d s where ds: "w_disks w (dh_disk h) = Some d" "w_socks w (dh_disk h) = Some s" by auto
    then have "0 < nd_aio_buffer_size d" using assms by (auto simp: world_wf_def disk_wf_def)
    then show ?thesis
      by (cases rule: disk_write_cases [where lib = lib and start = 0 and num = 1 and data = "py_take (1 * 512) data" and s = s])
        (simp_all add: handle_write_def Let_def ds)
  qed
  then obtain r1 w1 where "handle_write lib h 0 1 data w = Some (r1, w1)" by auto
  then show ?thesis by (cases r1) (auto simp: stress_use_def split: prod.split)
qed

text \<open>The body as an effect; where it does not end, which the theorem excludes, it does nothing.\<close>

definition stress_body :: "fastlz_lib \<Rightarrow> byte list \<Rightarrow> DiskHandle \<Rightarrow> (world, byte list) io" where
  "stress_body lib data h = (\<lambda>w. case stress_use lib data h w of Some p \<Rightarrow> p | None \<Rightarrow> (Inl EBADF, w))"

lemma stress_use_same:
  assumes "world_wf w" and "stress_use lib data h w = Some (r, w')"
  shows "world_wf w' \<and> proc_held w' = proc_held w"
proof -
  obtain r1 w1 where wr: "handle_write lib h 0 1 data w = Some (r1, w1)" using assms(2) by (auto simp: stress_use_def split: option.splits)
  note w1 = handle_write_same [OF assms(1) wr]
  show ?thesis
  proof (cases r1)
    case (Inl e)
    then show ?thesis using assms(2) wr w1 by (simp add: stress_use_def)
  next
    case (Inr u)
    obtain r2 w2 b2 where rd: "handle_read lib h 0 1 False (w1, \<lparr>pb_readonly = False, pb_bytes = replicate 512 0xA5\<rparr>) = (r2, w2, b2)"
      by (metis surj_pair)
    then show ?thesis
      using assms(2) wr w1 Inr handle_read_same(1) [OF rd] by (simp add: stress_use_def)
  qed
qed

lemma stress_body_dom: "dom (w_disks w) \<subseteq> dom (w_disks (snd (stress_body lib data h w)))"
proof -
  have wr: "dom (w_disks w) \<subseteq> dom (w_disks w')" if "handle_write lib h 0 1 data w = Some (r, w')" for r and w' :: world
    using that by (auto simp: handle_write_def Let_def split: option.splits)
  show ?thesis
  proof (cases "stress_use lib data h w")
    case (Some p)
    then obtain r1 w1 where w1: "handle_write lib h 0 1 data w = Some (r1, w1)" by (auto simp: stress_use_def split: option.splits)
    obtain r2 w2 b2 where rd: "handle_read lib h 0 1 False (w1, \<lparr>pb_readonly = False, pb_bytes = replicate 512 0xA5\<rparr>) = (r2, w2, b2)"
      by (metis surj_pair)
    then show ?thesis
      using wr [OF w1] handle_read_same(2) [OF rd] w1 by (cases r1) (auto simp: stress_body_def stress_use_def)
  qed (simp add: stress_body_def)
qed

lemma neutral_stress_body: "neutral_body (stress_body lib data h)"
proof -
  have "world_wf (snd (stress_body lib data h w)) \<and> proc_held (snd (stress_body lib data h w)) = proc_held w"
    if wf: "world_wf w" for w
  proof -
    obtain r w' where "stress_use lib data h w = Some (r, w')" using stress_use_total [OF wf] by blast
    then show ?thesis using stress_use_same [OF wf] by (simp add: stress_body_def)
  qed
  then show ?thesis using stress_body_dom by (auto simp: neutral_body_def)
qed

text \<open>One round ends, and is the two context managers around the body.\<close>

lemma stress_cycle_eq:
  assumes wf: "world_wf w"
  shows "stress_cycle dp lib lab data w = Some (with_io
    (lab_connect dp lab (lab_allow_untrusted lab) ''nbdssl'' False) (handle_disconnect dp)
    (\<lambda>conn. with_io (handle_open dp conn (lab_disk_path lab) 0 NFC_AIO_BUFFER_SIZE NFC_AIO_BUFFER_COUNT) handle_close
       (stress_body lib data)) w)"
  unfolding stress_cycle_def
proof (rule with_opt_total, rule with_opt_total)
  fix conn w1 h w2
  assume connect: "lab_connect dp lab (lab_allow_untrusted lab) ''nbdssl'' False w = (Inr conn, w1)"
    and open_run: "handle_open dp conn (lab_disk_path lab) 0 NFC_AIO_BUFFER_SIZE NFC_AIO_BUFFER_COUNT w1 = (Inr h, w2)"
  have "world_wf w1" using proc.moves_Inr [OF moves_handle_connect wf _ connect [unfolded lab_connect_def]] by simp
  then have "world_wf w2" using proc.moves_Inr [OF moves_handle_open _ _ open_run] by simp
  then show "stress_use lib data h w2 = Some (stress_body lib data h w2)"
    using stress_use_total [of w2 lib data h] by (auto simp: stress_body_def)
qed

lemma stress_cycle_same:
  assumes wf: "world_wf w"
  shows "\<exists>r w'. stress_cycle dp lib lab data w = Some (r, w') \<and> world_wf w' \<and> proc_held w' = proc_held w"
proof -
  let ?inner = "\<lambda>conn. with_io (handle_open dp conn (lab_disk_path lab) 0 NFC_AIO_BUFFER_SIZE NFC_AIO_BUFFER_COUNT) handle_close
      (stress_body lib data)"
  have "keeps proc.same_held (?inner conn)" for conn
    by (intro open_ctx.with_same_held neutral_bodyD neutral_stress_body)
  then have "keeps proc.same_held (with_io (lab_connect dp lab (lab_allow_untrusted lab) ''nbdssl'' False) (handle_disconnect dp) ?inner)"
    unfolding lab_connect_def by (intro connect_ctx.with_same_held) (auto simp: keeps_def)
  note kept = this
  let ?run = "with_io (lab_connect dp lab (lab_allow_untrusted lab) ''nbdssl'' False) (handle_disconnect dp) ?inner w"
  obtain r w' where run: "?run = (r, w')" by (cases ?run)
  then have "world_wf w' \<and> proc_held w' = proc_held w" using keepsD [OF kept run] wf by (simp add: proc.same_held_def)
  then show ?thesis using stress_cycle_eq [OF wf, of dp lib lab data] run by simp
qed

lemma stress_loop_same:
  "world_wf w \<Longrightarrow> \<exists>r w'. stress_loop dp lib lab rounds w = Some (r, w') \<and> world_wf w' \<and> proc_held w' = proc_held w"
proof (induction rounds arbitrary: w)
  case (Cons i rounds)
  let ?seed = "map byte_of_char (''STRESS-'' @ show_nat i @ ''-'')"
  obtain expected where e: "pattern_bytes 512 ?seed = Inr expected" by (simp add: pattern_bytes_def)
  obtain r w1 where cycle: "stress_cycle dp lib lab expected w = Some (r, w1)" "world_wf w1" "proc_held w1 = proc_held w"
    using stress_cycle_same [OF Cons.prems] by blast
  show ?case
  proof (cases "r = Inr expected")
    case True
    then show ?thesis using e cycle Cons.IH [OF cycle(2)] by simp
  next
    case False
    then show ?thesis using e cycle by (cases r) auto
  qed
qed simp

text \<open>The count of descriptors is that of the sockets held.\<close>

lemma fd_count_held:
  assumes "world_wf w" and "world_wf w'" and "proc_held w' = proc_held w"
  shows "fd_count w' = fd_count w"
proof -
  have c: "fd_count w = card {fd. fd_open w fd}" if "world_wf w" for w
  proof -
    have "set (filter (fd_open w) [0..<w_next w]) = {fd. fd_open w fd}" using world_wf_fdD [OF that] by auto
    then show ?thesis using distinct_card [of "filter (fd_open w) [0..<w_next w]"] by (simp add: fd_count_def)
  qed
  have "fd_open v fd \<longleftrightarrow> Fd fd \<in> proc_held v" for v fd by (auto simp: proc_held_def)
  then have "fd_open w' fd \<longleftrightarrow> fd_open w fd" for fd using assms(3) by simp
  then show ?thesis using c assms(1,2) by simp
qed

text \<open>
  C10. The stress test finds no leak. Whatever the network and the servers do, after any number of rounds the test
  ends, the process holds exactly the sockets and the VIM sessions that it held before, and the count of
  descriptors has not grown at all, so that the final assertion decides nothing: the test ends as its loop does.
\<close>

theorem stress_leaks_nothing:
  assumes "world_wf w"
  shows "\<exists>r w'. stress_loop dp lib lab [0..<iterations] w = Some (r, w') \<and> stress_test dp lib lab iterations w = Some (r, w') \<and>
    proc_held w' = proc_held w \<and> fd_count w' = fd_count w"
proof -
  obtain r w' where run: "stress_loop dp lib lab [0..<iterations] w = Some (r, w')" "world_wf w'" "proc_held w' = proc_held w"
    using stress_loop_same [OF assms] by blast
  have fds: "fd_count w' = fd_count w" using fd_count_held [OF assms run(2,3)] .
  have "handle_init (Some ''8.0'') = Inr ''8.0''" by code_simp
  then have "stress_test dp lib lab iterations w = Some (r, w')"
    using run(1) fds by (cases r) (simp_all add: stress_test_def Let_def)
  then show ?thesis using run fds by blast
qed

text \<open>The ESXi host refuses the TLS handshake of the first round.\<close>

theorem stress_leaks_nothing_witness:
  "\<exists>w'. stress_test demo_deps zero_run_lz demo_lab 200 (demo_world (demo_authd (Some [7]) @ [Accept (demo_sock []) None, Refuse SSLError])) =
      Some (Inl SSLError, w') \<and> proc_held w' = {} \<and> fd_count w' = 0 \<and> w_next_si w' = 1"
proof -
  let ?w = "demo_world (demo_authd (Some [7]) @ [Accept (demo_sock []) None, Refuse SSLError])"
  have wf: "world_wf ?w" "proc_held ?w = {}" "fd_count ?w = 0"
    by (simp_all add: world_wf_def proc_held_def fd_open_def demo_world_def fd_count_def)
  obtain r w' where run: "stress_loop demo_deps zero_run_lz demo_lab [0..<200] ?w = Some (r, w')"
    "stress_test demo_deps zero_run_lz demo_lab 200 ?w = Some (r, w')" "proc_held w' = {}" "fd_count w' = 0"
    using stress_leaks_nothing [OF wf(1), of demo_deps zero_run_lz demo_lab 200] wf(2,3) by auto
  have "case lab_connect demo_deps demo_lab True ''nbdssl'' False ?w of
      (Inl e, w1) \<Rightarrow> False
    | (Inr c, w1) \<Rightarrow>
        (case handle_open demo_deps c ''[ds] vm/vm.vmdk'' 0 NFC_AIO_BUFFER_SIZE NFC_AIO_BUFFER_COUNT w1 of (r, w2) \<Rightarrow>
           r = Inl SSLError \<and> (case handle_disconnect demo_deps c w2 of (r, w3) \<Rightarrow> r = Inr () \<and> w_next_si w3 = 1))"
    by code_simp
  then obtain c w1 where connect: "lab_connect demo_deps demo_lab True ''nbdssl'' False ?w = (Inr c, w1)"
    and rest: "case handle_open demo_deps c ''[ds] vm/vm.vmdk'' 0 NFC_AIO_BUFFER_SIZE NFC_AIO_BUFFER_COUNT w1 of (r, w2) \<Rightarrow>
           r = Inl SSLError \<and> (case handle_disconnect demo_deps c w2 of (r, w3) \<Rightarrow> r = Inr () \<and> w_next_si w3 = 1)"
    by (cases "fst (lab_connect demo_deps demo_lab True ''nbdssl'' False ?w)") (auto simp only: case_prod_beta sum.case prod_eq_iff fst_conv snd_conv)
  then obtain w2 w3 where "handle_open demo_deps c ''[ds] vm/vm.vmdk'' 0 NFC_AIO_BUFFER_SIZE NFC_AIO_BUFFER_COUNT w1 = (Inl SSLError, w2)"
    "handle_disconnect demo_deps c w2 = (Inr (), w3)" "w_next_si w3 = 1"
    unfolding case_prod_beta by (metis prod.collapse)
  note fails = connect this
  from fails(1-3) have "stress_cycle demo_deps zero_run_lz demo_lab data ?w = Some (Inl SSLError, w3)" for data
    by (simp add: stress_cycle_def with_opt_def try_finally_def demo_lab_def)
  moreover have "[0..<200] = 0 # [1..<200]" by (simp add: upt_conv_Cons)
  ultimately have "r = Inl SSLError \<and> w' = w3" using run(1) by (simp add: pattern_bytes_def)
  then show ?thesis using run(2-4) fails(4) by auto
qed

end
