(* ===== verification/ProbeRuns.thy ===== *)
theory ProbeRuns
  imports Probes VixHandleSpec
begin

text \<open>
  The runs of the two probes under \<open>docs/probing_samples\<close>: \<open>_run_traced\<close> of \<open>vddk_aio_bufsize_probe.py\<close>, which
  starts VDDK under \<open>strace\<close> and reports what it read, and \<open>test_probe\<close> of \<open>nfc_write_probe.py\<close>, which tries
  open flags and opcodes on a disk of the lab.

  The traced process is a parameter. \<open>test_probe\<close> gets its sessions, its disk and its pattern from a class
  \<open>TestBase\<close> that is not in the repository; they are parameters too,
  and the theorem is about sessions of \<open>authenticate\<close>. What it prints are the lines of its state.
\<close>

subsection \<open>A traced run of VDDK\<close>

text \<open>What the traced process leaves: its output, its exit code, its log and the trace, if there are such files.\<close>

record traced_run =
  tr_stdout :: string
  tr_stderr :: string
  tr_returncode :: int
  tr_log :: "string list option"
  tr_trace :: "string list option"

definition strace_cmd :: "string \<Rightarrow> string \<Rightarrow> string \<Rightarrow> string \<Rightarrow> int \<Rightarrow> int \<Rightarrow> string list" where
  "strace_cmd python file work_dir lab_pkl buf_size_in_64kb buf_count =
     [''strace'', ''-f'', ''-x'', ''-s'', ''96'', ''-e'',
      ''trace=read,write,readv,writev,send,recv,sendto,recvfrom'', ''-o'', path_join work_dir ''nfc.strace'',
      python, file, ''--worker'', lab_pkl, work_dir, show_int buf_size_in_64kb, show_int buf_count]"

text \<open>The environment, with the last binding of a name first.\<close>

definition traced_env :: "string \<Rightarrow> (string \<times> string) list \<Rightarrow> (string \<times> string) list" where
  "traced_env vddk env =
     (let env = filter (\<lambda>(k, _). k \<noteq> ''LD_PRELOAD'') env;
          lib_path = (case map_of env ''LD_LIBRARY_PATH'' of None \<Rightarrow> [] | Some p \<Rightarrow> p) in
      (''LD_LIBRARY_PATH'', if lib_path = [] then vddk else vddk @ '':'' @ lib_path) # env)"

text \<open>\<open>print\<close> of an open session: its 16 bytes, and the tuple of its four numbers.\<close>

definition session_line :: "byte list \<Rightarrow> string" where
  "session_line payload = (let u32_at = (\<lambda>i. show_nat (le_val (buf_slice payload i 4))) in
     ''OPEN_SESSION hex '' @ show_hex payload @ '' u32 ('' @ u32_at 0 @ '', '' @ u32_at 4 @ '', '' @ u32_at 8 @
     '', '' @ u32_at 12 @ '')'')"

definition fragment_line :: "nat \<times> nat \<times> nat \<Rightarrow> string" where
  "fragment_line = (\<lambda>(dest, chunk_len, extra_len).
     ''  dest='' @ show_nat dest @ '' chunk_len='' @ show_nat chunk_len @ '' extra_len='' @ show_nat extra_len)"

definition trace_report :: "byte list list \<times> (nat \<times> nat \<times> nat) list \<Rightarrow> string list" where
  "trace_report = (\<lambda>(open_sessions, io_reads).
     map session_line open_sessions @ [''read fragments (dest, chunk_len, extra_len):''] @
     map fragment_line io_reads @
     (if io_reads = [] then []
      else [''max chunk_len '' @ show_nat (Max (set (map (\<lambda>(_, chunk_len, _). chunk_len) io_reads)))]))"

text \<open>
  The state is what went to standard output, a line or a block at a time, and to standard error.
  \<open>run\<close> gets the command and the environment; \<open>work_dir\<close> is the fresh directory.
\<close>

definition run_traced ::
  "(string list \<Rightarrow> (string \<times> string) list \<Rightarrow> traced_run) \<Rightarrow> string \<Rightarrow> string \<Rightarrow> string \<Rightarrow> (string \<times> string) list \<Rightarrow>
     string \<Rightarrow> string \<Rightarrow> int \<Rightarrow> int \<Rightarrow> (string list \<times> string list, unit) io" where
  "run_traced run python file vddk env work_dir lab_pkl buf_size_in_64kb buf_count = (\<lambda>(out, err).
     let proc = run (strace_cmd python file work_dir lab_pkl buf_size_in_64kb buf_count) (traced_env vddk env);
         out = out @ [newline @ ''=== BufSizeIn64KB='' @ show_int buf_size_in_64kb @ '' BufCount='' @ show_int buf_count @ '' ==='',
                      ''work_dir '' @ work_dir, tr_stdout proc, ''worker exit '' @ show_int (tr_returncode proc)] @
                     map (\<lambda>line. ''LOG '' @ line) (interesting_log_lines (tr_log proc));
         err = err @ [tr_stderr proc] in
     case tr_trace proc of
       None \<Rightarrow> (Inl (OSError (Text ''No such file or directory'')), out, err)
     | Some trace \<Rightarrow> (Inr (), out @ trace_report (parse_strace trace), err))"

subsection \<open>The lines of the writing probe\<close>

datatype probe_line =
    OpenFail int exn
  | IoReply int int int nat nat "byte list"
  | Readback bool "byte list"
  | ReadbackFailed exn
  | Success
  | NoSuccess

type_synonym probe_state = "world \<times> probe_line list"

definition say :: "probe_line \<Rightarrow> (probe_state, unit) io" where
  "say line = (\<lambda>(w, out). (Inr (), w, out @ [line]))"

definition open_flags_tried :: "int list" where
  "open_flags_tried =
     [0x1C, 0x00, 0x1F, 0x0E, 0x0C, 0x04, 0x06, 0x02,
      0x3E, 0x5E, 0x16, 0x1A, 0x1D, 0x0A, 0x08, 0x20,
      0x3C, 0x7E, 0xFE, 0x100, 0x1E, 0x0F, 0x18]"

definition opcodes_tried :: "(int \<times> int \<times> bool) list" where
  "opcodes_tried = [(1, 1, True), (1, 2, True), (2, 1, True), (4, 0, True), (5, 0, True), (8, 0, True), (2, 0, True)]"

subsection \<open>The tries\<close>

text \<open>Read the first sector back; on a match close the disk. The result says whether the test returns.\<close>

definition probe_readback :: "fastlz_lib \<Rightarrow> byte list \<Rightarrow> nat \<Rightarrow> (probe_state, bool) io" where
  "probe_readback lib data disk =
     bind_io (on_fst (on_disk disk (disk_read lib 0 1))) (\<lambda>got.
     then_io (say (Readback (got = data) (take 16 got)))
     (if got = data
      then then_io (say Success) (then_io (on_fst (on_disk disk disk_close)) (ret True))
      else ret False))"

definition probe_close :: "nat \<Rightarrow> (probe_state, unit) io" where
  "probe_close disk = catch_io (on_fst (on_disk disk disk_close)) (\<lambda>_. on_fst (close_fd disk))"

definition try_flags :: "fastlz_lib \<Rightarrow> string \<Rightarrow> byte list \<Rightarrow> int \<Rightarrow> NfcAuthSession \<Rightarrow> (probe_state, bool) io" where
  "try_flags lib path data oflag session =
     bind_io (catch_io (bind_io (on_fst (open_rw session path oflag)) (\<lambda>disk. ret (Some disk)))
                (\<lambda>exc. then_io (say (OpenFail oflag exc)) (ret None))) (\<lambda>opened.
     case opened of
       None \<Rightarrow> ret False
     | Some disk \<Rightarrow>
         bind_io (on_fst (on_disk disk (try_io 2 0 data True))) (\<lambda>(rtype, rsize, body, extra).
         then_io (say (IoReply 2 0 oflag rtype (length extra) body))
         (bind_io (if rtype = NFC_AIO_MSG_IO then probe_readback lib data disk else ret False) (\<lambda>found.
          if found then ret True else then_io (probe_close disk) (ret False)))))"

definition try_opcode ::
  "fastlz_lib \<Rightarrow> string \<Rightarrow> byte list \<Rightarrow> int \<Rightarrow> int \<times> int \<times> bool \<Rightarrow> NfcAuthSession \<Rightarrow> (probe_state, bool) io" where
  "try_opcode lib path data oflag = (\<lambda>(opcode, ioflags, send_extra) session.
     bind_io (on_fst (open_rw session path oflag)) (\<lambda>disk.
     bind_io (on_fst (on_disk disk (try_io opcode ioflags data send_extra))) (\<lambda>(rtype, rsize, body, extra).
     then_io (say (IoReply opcode ioflags oflag rtype (length extra) (take 16 body)))
     (bind_io
        (if rtype = NFC_AIO_MSG_IO
         then catch_io (probe_readback lib data disk) (\<lambda>exc. then_io (say (ReadbackFailed exc)) (ret False))
         else ret False) (\<lambda>found.
      if found then ret True else then_io (probe_close disk) (ret False))))))"

text \<open>\<open>for x in xs: with self.authenticate() as session: ...\<close>, which a return ends.\<close>

fun probe_each ::
  "(world, NfcAuthSession) io \<Rightarrow> deps \<Rightarrow> (NfcAuthSession \<Rightarrow> (probe_state, bool) io) list \<Rightarrow> (probe_state, bool) io" where
  "probe_each auth dp [] = ret False"
| "probe_each auth dp (body # bodies) =
     bind_io (with_io (on_fst auth) (\<lambda>session. on_fst (auth_session_close dp session)) body) (\<lambda>found.
     if found then ret True else probe_each auth dp bodies)"

definition test_probe ::
  "(world, NfcAuthSession) io \<Rightarrow> deps \<Rightarrow> fastlz_lib \<Rightarrow> string \<Rightarrow> byte list \<Rightarrow> (probe_state, unit) io" where
  "test_probe auth dp lib path data =
     bind_io (probe_each auth dp (map (try_flags lib path data) open_flags_tried)) (\<lambda>found.
     if found then ret ()
     else bind_io
       (probe_each auth dp (concat (map (\<lambda>oflag. map (try_opcode lib path data oflag) opcodes_tried) [0x1C, 0x00, 0x0E])))
       (\<lambda>found. if found then ret () else say NoSuccess))"

subsection \<open>The report of a traced run\<close>

text \<open>
  With the trace of the reads that received the fragments of a reply, the report names no session and
  lists exactly those fragments.
\<close>

lemma run_traced_report:
  assumes "tr_trace (run (strace_cmd python file work_dir lab_pkl bufsize count) (traced_env vddk env)) = Some trace"
    and "parse_strace trace = ([], frs)" and "frs \<noteq> []"
  shows "\<exists>head err'. run_traced run python file vddk env work_dir lab_pkl bufsize count (out, err) =
    (Inr (), out @ head @ [''read fragments (dest, chunk_len, extra_len):''] @ map fragment_line frs @
       [''max chunk_len '' @ show_nat (Max (set (map (\<lambda>(_, chunk_len, _). chunk_len) frs)))], err')"
  using assms by (simp add: run_traced_def Let_def trace_report_def)

subsection \<open>The probe logs out\<close>

text \<open>The effect keeps the process well formed and the VIM sessions as they were.\<close>

definition logins_kept :: "world \<Rightarrow> world \<Rightarrow> bool" where
  "logins_kept w w' \<longleftrightarrow> (world_wf w \<longrightarrow> world_wf w' \<and> set (w_sessions w') = set (w_sessions w))"

interpretation lk: state_preorder logins_kept
  by unfold_locales (auto simp: logins_kept_def)

interpretation lks: state_preorder "\<lambda>st st' :: probe_state. logins_kept (fst st) (fst st')"
  by unfold_locales (auto intro: lk.refl_R lk.trans_R)

abbreviation logs_out :: "(probe_state, 'a) io \<Rightarrow> bool" where
  "logs_out \<equiv> keeps (\<lambda>st st'. logins_kept (fst st) (fst st'))"

lemma logins_held: "si \<in> set (w_sessions w) \<longleftrightarrow> Login si \<in> proc_held w"
  by (auto simp: proc_held_def)

lemma logins_keptI:
  "(\<And>w. world_wf w \<Longrightarrow> world_wf (snd (m w)) \<and> (\<forall>si. Login si \<in> proc_held (snd (m w)) \<longleftrightarrow> Login si \<in> proc_held w)) \<Longrightarrow>
    keeps logins_kept m"
  unfolding keeps_def logins_kept_def by (auto simp: logins_held)

lemma lk_same: "keeps proc.same_held m \<Longrightarrow> keeps logins_kept m"
  by (rule logins_keptI) (auto simp: keeps_def proc.same_held_def)

lemma lk_releases_fd: "proc.releases m {Fd fd} \<Longrightarrow> keeps logins_kept m"
  by (rule logins_keptI) (auto simp: proc.releases_def)

lemma lk_disk_close: "keeps logins_kept (on_disk fd disk_close)"
proof (rule logins_keptI)
  fix w assume wf: "world_wf w"
  show "world_wf (snd (on_disk fd disk_close w)) \<and>
      (\<forall>si. Login si \<in> proc_held (snd (on_disk fd disk_close w)) \<longleftrightarrow> Login si \<in> proc_held w)"
  proof (cases "w_disks w fd")
    case None
    then show ?thesis using wf by (simp add: on_disk_def)
  next
    case (Some d)
    then show ?thesis using on_disk_close_frees [OF wf Some] by auto
  qed
qed

text \<open>A step that takes a socket, and a rest that goes on with it.\<close>

lemma lk_take_socket:
  assumes "proc.moves {} m (\<lambda>x. {Fd x})" and "\<And>x. proc.holds {Fd x} (f x) (\<lambda>y. {Fd y})"
  shows "keeps logins_kept (bind_io m f)"
proof (rule logins_keptI)
  fix w assume wf: "world_wf w"
  obtain r w1 where m: "m w = (r, w1)" by (cases "m w")
  show "world_wf (snd (bind_io m f w)) \<and>
      (\<forall>si. Login si \<in> proc_held (snd (bind_io m f w)) \<longleftrightarrow> Login si \<in> proc_held w)"
  proof (cases r)
    case (Inl e)
    then show ?thesis using proc.moves_Inl [OF assms(1) wf, of e w1] m by auto
  next
    case (Inr x)
    have w1: "world_wf w1" "proc_held w1 = proc_held w \<union> {Fd x}"
      using proc.moves_Inr [OF assms(1) wf, of x w1] m Inr by auto
    obtain r2 w2 where f: "f x w1 = (r2, w2)" by (cases "f x w1")
    then show ?thesis
      using proc.holds_Inl [OF assms(2) w1(1), of x _ w2] proc.holds_Inr [OF assms(2) w1(1), of x _ w2] w1(2) m Inr
      by (cases r2) auto
  qed
qed

lemma holds_opened:
  "proc.holds {Fd fd} (bind_io (lift (parse_open_reply reply)) (\<lambda>(handle, sector_size).
     then_io (on_disk fd (set_opened handle sector_size)) (bind_io (lift e) (\<lambda>_. ret fd)))) (\<lambda>x. {Fd x})"
proof (cases "parse_open_reply reply")
  case (Inl e)
  then show ?thesis by (auto intro!: proc.holdsI)
next
  case (Inr p)
  obtain h ss where p: "p = (h, ss)" by (cases p)
  have "keeps disk_alive (set_opened h ss)"
    using parse_open_reply_InrD [of reply h ss] Inr p by (intro keeps_set_opened) auto
  then show ?thesis
    using Inr p by (auto intro!: proc.holds_same_then proc.holds_same_bind proc.rs.keeps_lift same_held_on_disk proc.holds_ret)
qed

lemma lk_open_rw: "keeps logins_kept (open_rw session path oflag)"
proof -
  have new: "proc.holds {Fd fd} (new_disk (nfc_disk_init fd path 0 NFC_SECTOR_SIZE NFC_COMPRESSION_NONE
      (nat NFC_AIO_BUFFER_SIZE) (nat NFC_AIO_BUFFER_COUNT))) (\<lambda>x. {Fd fd})" for fd
    using holds_new_disk [of "nfc_disk_init fd path 0 NFC_SECTOR_SIZE NFC_COMPRESSION_NONE
      (nat NFC_AIO_BUFFER_SIZE) (nat NFC_AIO_BUFFER_COUNT)"]
    by (simp add: nfc_disk_init_def disk_wf_def)
  show ?thesis
    unfolding open_rw_def Let_def
    by (intro lk_take_socket [OF moves_takeover] proc.holds_then [OF new] proc.holds_same_then proc.holds_same_bind
        same_held_on_sock same_held_on_disk alive_pre.frame_handshake alive_disk.frame_aio_prepare
        alive_disk.frame_aio_roundtrip proc.rs.keeps_lift holds_opened)
qed

lemma alive_split: "(\<And>d. keeps R (F d)) \<Longrightarrow> keeps R (\<lambda>(d, s). F d (d, s))"
  by (auto simp: keeps_def)

lemma alive_try_io: "keeps disk_alive (try_io opcode ioflags data send_extra)"
  unfolding try_io_def Let_def
  by (rule alive_split, cases send_extra)
    (simp_all only: if_True if_False,
      (intro alive_disk.dk.keeps_intros alive_disk.frame_next_op_id alive_disk.frame_on_snd
        alive_pre.frame_sendall alive_pre.frame_probe_reply)+)

lemma alive_disk_read: "keeps disk_alive (disk_read lib start num)"
proof -
  have "disk_alive (d, s) (snd (disk_read lib start num (d, s)))" for d s
  proof (cases "num < 1")
    case True
    then show ?thesis by (simp add: disk_read_def disk_alive_def)
  next
    case False
    obtain r d' s' buf where run: "readinto lib start num False
        ((d, s), \<lparr>pb_readonly = False, pb_bytes = replicate (read_length d num) 0\<rparr>) = (r, (d', s'), buf)"
      by (metis prod.collapse)
    then show ?thesis using readinto_alive [OF run] False by (simp add: disk_read_def split: sum.split)
  qed
  then show ?thesis by (auto simp: keeps_def)
qed

text \<open>The parts of a try.\<close>

lemma lks_on_fst: "keeps logins_kept m \<Longrightarrow> logs_out (on_fst m)"
  by (auto simp: keeps_def on_fst_app)

lemma lks_say: "logs_out (say line)"
  by (auto simp: keeps_def say_def lk.refl_R)

lemmas probe_intros = lks.keeps_intros lks_say lks_on_fst lk_open_rw lk_disk_close lk_releases_fd [OF releases_close_fd]
  lk_same [OF same_held_on_disk] alive_try_io alive_disk_read

lemma logs_out_readback: "logs_out (probe_readback lib data disk)"
  unfolding probe_readback_def by (auto intro!: probe_intros)

lemma logs_out_close: "logs_out (probe_close disk)"
  unfolding probe_close_def by (auto intro!: probe_intros)

lemma logs_out_try_flags: "logs_out (try_flags lib path data oflag session)"
  unfolding try_flags_def case_prod_beta
  by (auto intro!: probe_intros logs_out_readback logs_out_close split: option.split)

lemma logs_out_try_opcode: "logs_out (try_opcode lib path data oflag x session)"
  unfolding try_opcode_def case_prod_beta
  by (auto intro!: probe_intros logs_out_readback logs_out_close)

text \<open>A \<open>with\<close> of a session gives the login back; sockets that the body left open stay open.\<close>

lemma logs_out_with:
  assumes "proc.moves {} auth session_own" and "\<And>s. logs_out (body s)"
  shows "logs_out (with_io (on_fst auth) (\<lambda>s. on_fst (auth_session_close dp s)) body)"
  unfolding keeps_def
proof
  fix st :: probe_state
  obtain w out where st: "st = (w, out)" by (cases st)
  let ?m = "with_io (on_fst auth) (\<lambda>s. on_fst (auth_session_close dp s)) body"
  obtain r w1 where a: "auth w = (r, w1)" by (cases "auth w")
  show "logins_kept (fst st) (fst (snd (?m st)))"
  proof (cases r)
    case (Inl e)
    then show ?thesis
      using a st proc.moves_Inl [OF assms(1), of w e w1] by (auto simp: with_io_def on_fst_app bind_io_def logins_kept_def logins_held)
  next
    case (Inr s)
    obtain rb w2 out2 where b: "body s (w1, out) = (rb, w2, out2)" by (metis prod_cases3)
    have kept: "logins_kept w1 w2" using keepsD [OF assms(2) b] by simp
    have last: "fst (snd (?m st)) = snd (auth_session_close dp s w2)"
      using a b Inr st by (simp add: with_io_def on_fst_app bind_io_def snd_try_finally)
    show ?thesis
      unfolding last logins_kept_def
    proof
      assume "world_wf (fst st)"
      then have wf: "world_wf w" using st by simp
      have w1: "world_wf w1" "proc_held w1 = proc_held w \<union> session_own s" "session_own s \<inter> proc_held w = {}"
        using proc.moves_Inr [OF assms(1) wf, of s w1] a Inr by auto
      have w2: "world_wf w2" "\<And>si. Login si \<in> proc_held w2 \<longleftrightarrow> Login si \<in> proc_held w1"
        using kept w1(1) by (auto simp: logins_kept_def simp flip: logins_held)
      show "world_wf (snd (auth_session_close dp s w2)) \<and>
          set (w_sessions (snd (auth_session_close dp s w2))) = set (w_sessions (fst st))"
        using auth_close_frees [OF w2(1), of dp s] w2(2) w1(2,3) st by (auto simp: logins_held)
    qed
  qed
qed

lemma logs_out_each:
  assumes "proc.moves {} auth session_own"
  shows "(\<And>body s. body \<in> set bodies \<Longrightarrow> logs_out (body s)) \<Longrightarrow> logs_out (probe_each auth dp bodies)"
proof (induction bodies)
  case (Cons body bodies)
  have "logs_out (with_io (on_fst auth) (\<lambda>s. on_fst (auth_session_close dp s)) body)"
    using Cons.prems [of body] by (intro logs_out_with assms) simp
  then show ?case using Cons by (auto intro!: lks.keeps_intros)
qed (simp add: lks.keeps_ret)

text \<open>
  C40. The probe logs out. However the probe ends, with a readback, without one, or with an exception out of
  any of its calls, and whatever the servers do, the process has the VIM sessions that it had before: each
  try gives its session back before the next one starts. (The sockets of disks that were not opened stay open.)
\<close>

theorem probe_logs_out:
  assumes "world_wf w" and "test_probe (authenticate dp host user pwd vm tcp tp allow key dpath ro ssl) dp lib path data (w, out) = (r, w', out')"
  shows "world_wf w' \<and> set (w_sessions w') = set (w_sessions w)"
proof -
  have "logs_out (test_probe (authenticate dp host user pwd vm tcp tp allow key dpath ro ssl) dp lib path data)"
    unfolding test_probe_def
    by (auto intro!: lks.keeps_intros lks_say logs_out_each moves_authenticate logs_out_try_flags logs_out_try_opcode)
  from keepsD [OF this assms(2)] show ?thesis using assms(1) by (simp add: logins_kept_def)
qed

text \<open>Nobody listens at the port of authd: the first try logs in and out, and the test ends with its exception.\<close>

theorem probe_logs_out_witness:
  "\<exists>w' out'. test_probe (authenticate demo_deps ''vc'' ''u'' ''p'' ''vm-1'' 443 None True None None True True) demo_deps
      zero_run_lz ''a'' [1] (demo_world [Refuse TimeoutError], []) = (Inl TimeoutError, w', out') \<and>
    w_sessions w' = [] \<and> w_next_si w' = 1"
proof -
  let ?w = "demo_world [Refuse TimeoutError]"
  let ?run = "test_probe (authenticate demo_deps ''vc'' ''u'' ''p'' ''vm-1'' 443 None True None None True True) demo_deps
      zero_run_lz ''a'' [1] (?w, [])"
  obtain r w' out' where run: "?run = (r, w', out')" by (metis prod_cases3)
  have "world_wf ?w" "w_sessions ?w = []" by (simp_all add: world_wf_def demo_world_def)
  moreover have "fst ?run = Inl TimeoutError \<and> w_next_si (fst (snd ?run)) = 1" by code_simp
  ultimately show ?thesis using probe_logs_out [OF _ run] run by auto
qed

end
