(* ===== verification/Vddk.thy ===== *)
theory Vddk
  imports Prelude
begin

text \<open>
  The VDDK library as the scripts and the tests see it through \<open>ctypes\<close>: a parameter \<open>vddk\<close>, which gives what a call
  answers given the calls before it. The state of a caller is the calls it has made, the lines it has printed and the
  files it has written. The assignments of \<open>argtypes\<close> and \<open>restype\<close> are the types of the calls. Texts of the library are
  ASCII, and it stores no more bytes of a read than the buffer has.
\<close>

subsection \<open>The interface of the library\<close>

datatype VixDiskLibCreds =
    UidPasswdCreds "string option" "string option"
  | SessionIdCreds "string option" "string option" "string option"

record VixDiskLibConnectParams =
  vmxSpec :: "string option"
  serverName :: "string option"
  thumbPrint :: "string option"
  privateUse :: int
  credType :: nat
  creds :: VixDiskLibCreds
  port :: nat
  nfcHostPort :: nat
  vimApiVer :: "string option"

text \<open>A structure starts as zeroes, which the union shows as a name and a password that are \<open>None\<close>.\<close>

definition empty_params :: VixDiskLibConnectParams where
  "empty_params = \<lparr>vmxSpec = None, serverName = None, thumbPrint = None, privateUse = 0, credType = 0,
     creds = UidPasswdCreds None None, port = 0, nfcHostPort = 0, vimApiVer = None\<rparr>"

datatype vddk_call =
    InitEx nat nat "string option" "string option"
  | ConnectEx VixDiskLibConnectParams nat "string option" "string option"
  | OpenDisk nat string nat
  | ReadSectors nat nat nat "byte list"
  | WriteSectors nat nat nat "byte list"
  | ListTransportModes
  | GetTransportMode nat
  | CloseDisk nat
  | DisconnectVddk nat
  | ExitVddk
  | GetErrorText nat
  | FreeErrorText nat

text \<open>
  The return code of a call, the handle or address that it stores or returns, the bytes that a read
  stores from the start of its buffer, and the string at an address.
\<close>

record vddk =
  vd_err :: "vddk_call list \<Rightarrow> vddk_call \<Rightarrow> nat"
  vd_handle :: "vddk_call list \<Rightarrow> vddk_call \<Rightarrow> nat"
  vd_bytes :: "vddk_call list \<Rightarrow> vddk_call \<Rightarrow> byte list"
  vd_text :: "vddk_call list \<Rightarrow> nat \<Rightarrow> string option"

record trace_state =
  ts_calls :: "vddk_call list"
  ts_out :: "string list"
  ts_files :: "(string \<times> string) list"

definition print_line :: "string \<Rightarrow> trace_state \<Rightarrow> ('e + unit) \<times> trace_state" where
  "print_line line = (\<lambda>s. (Inr (), s\<lparr>ts_out := ts_out s @ [line]\<rparr>))"

definition write_file :: "string \<times> string \<Rightarrow> trace_state \<Rightarrow> ('e + unit) \<times> trace_state" where
  "write_file file = (\<lambda>s. (Inr (), s\<lparr>ts_files := ts_files s @ [file]\<rparr>))"

text \<open>Make a call; its result is the return code and the handle or address.\<close>

definition vddk_do :: "vddk \<Rightarrow> vddk_call \<Rightarrow> trace_state \<Rightarrow> ('e + nat \<times> nat) \<times> trace_state" where
  "vddk_do lib call = (\<lambda>s. (Inr (vd_err lib (ts_calls s) call, vd_handle lib (ts_calls s) call),
     s\<lparr>ts_calls := ts_calls s @ [call]\<rparr>))"

text \<open>A read into \<open>buf\<close>: its return code and \<open>buf.raw\<close> after it.\<close>

definition vddk_read :: "vddk \<Rightarrow> nat \<Rightarrow> nat \<Rightarrow> nat \<Rightarrow> byte list \<Rightarrow>
    trace_state \<Rightarrow> ('e + nat \<times> byte list) \<times> trace_state" where
  "vddk_read lib disk start n buf = (\<lambda>s.
     let call = ReadSectors disk start n buf; got = take (length buf) (vd_bytes lib (ts_calls s) call) in
     (Inr (vd_err lib (ts_calls s) call, got @ drop (length got) buf), s\<lparr>ts_calls := ts_calls s @ [call]\<rparr>))"

end
