(* ===== verification/VddkTrace.thy ===== *)
theory VddkTrace
  imports Vddk Probes
begin

text \<open>
  \<open>vddk_open_trace.py\<close> and \<open>vddk_read_trace.py\<close> under \<open>docs/probing_samples\<close>: scripts that open a disk with the
  VDDK library through \<open>ctypes\<close> and read sectors of it, for the capture of the protocol.

  The library is the parameter of \<open>Vddk\<close>; the directory of the trace can be written. A failed call ends the script
  with \<open>SystemExit\<close>, which no handler catches.
\<close>

subsection \<open>Scripts that exit\<close>

text \<open>What \<open>SystemExit\<close> says: the step, the code and the text.\<close>

datatype system_exit = SystemExit string nat "string option"

type_synonym 'a script = "trace_state \<Rightarrow> (system_exit + 'a) \<times> trace_state"

definition script_ret :: "'a \<Rightarrow> 'a script" where
  "script_ret x = (\<lambda>s. (Inr x, s))"

definition script_bind :: "'a script \<Rightarrow> ('a \<Rightarrow> 'b script) \<Rightarrow> 'b script" where
  "script_bind m f = (\<lambda>s. case m s of (Inl e, s') \<Rightarrow> (Inl e, s') | (Inr x, s') \<Rightarrow> f x s')"

definition script_then :: "unit script \<Rightarrow> 'b script \<Rightarrow> 'b script" where
  "script_then m k = script_bind m (\<lambda>_. k)"

definition check :: "vddk \<Rightarrow> nat \<Rightarrow> string \<Rightarrow> unit script" where
  "check lib err what =
     (if err \<noteq> 0
      then script_bind (vddk_do lib (GetErrorText err)) (\<lambda>(_, msg). \<lambda>s.
           let text = vd_text lib (ts_calls s) msg in
           script_bind (vddk_do lib (FreeErrorText msg)) (\<lambda>_ s. (Inl (SystemExit what err text), s)) s)
      else script_ret ())"

subsection \<open>The scripts\<close>

definition VDDK_DIR :: string where
  "VDDK_DIR = ''/home/ubuntu/workspace/vmware_nbd_tests/vddk''"

definition VIXDISKLIB_CRED_UID :: nat where
  "VIXDISKLIB_CRED_UID = 1"

definition OPEN_READ_ONLY :: nat where
  "OPEN_READ_ONLY = 4"

definition SECTOR :: nat where
  [simp]: "SECTOR = 512"

definition trace_config :: "string \<Rightarrow> string" where
  "trace_config directory =
     ''tmpDirectory='' @ directory @ newline @
     ''log.fileName='' @ directory @ ''/vddk.log'' @ newline @
     ''log.fileLevel=verbose'' @ newline @
     ''vixDiskLib.nfc.LogLevel=4'' @ newline @
     ''vixDiskLib.transport.LogLevel=4'' @ newline"

definition trace_params :: VixDiskLibConnectParams where
  "trace_params = empty_params\<lparr>vmxSpec := Some ''<sanitized>'', serverName := Some ''<sanitized>'',
     thumbPrint := Some ''<sanitized>'', credType := VIXDISKLIB_CRED_UID,
     creds := UidPasswdCreds (Some ''<sanitized>'') (Some ''<sanitized>''), port := 443\<rparr>"

definition trace_path :: string where
  "trace_path = ''[datastore0] test-coriolis-jenkins-rocky9/test-coriolis-jenkins-rocky9-000007.vmdk''"

text \<open>What both scripts do up to the open disk, and after the reads.\<close>

definition trace_open :: "vddk \<Rightarrow> string \<Rightarrow> (nat \<times> nat) script" where
  "trace_open lib directory =
     (let config_path = directory @ ''/vddk.config'' in
      script_then (write_file (config_path, trace_config directory))
     (script_bind (vddk_do lib (InitEx 8 0 (Some VDDK_DIR) (Some config_path))) (\<lambda>(err, _).
      script_then (check lib err ''InitEx'')
     (script_bind (vddk_do lib (ConnectEx trace_params 1 (Some ''snapshot-13442'') (Some ''nbd''))) (\<lambda>(err, conn).
      script_then (check lib err ''ConnectEx'')
     (script_then (print_line ''ConnectEx ok'')
     (script_bind (vddk_do lib (OpenDisk conn trace_path OPEN_READ_ONLY)) (\<lambda>(err, disk).
      script_then (check lib err ''Open'')
     (script_then (print_line ''Open ok'')
     (script_ret (conn, disk)))))))))))"

definition trace_close :: "vddk \<Rightarrow> nat \<Rightarrow> nat \<Rightarrow> unit script" where
  "trace_close lib conn disk =
     script_bind (vddk_do lib (CloseDisk disk)) (\<lambda>_.
     script_bind (vddk_do lib (DisconnectVddk conn)) (\<lambda>_.
     script_bind (vddk_do lib ExitVddk) (\<lambda>_. script_ret ())))"

definition open_trace_main :: "vddk \<Rightarrow> unit script" where
  "open_trace_main lib =
     script_bind (trace_open lib ''/tmp/vddk-open-trace'') (\<lambda>(conn, disk).
     script_bind (vddk_read lib disk 0 1 (replicate 512 0)) (\<lambda>(err, raw).
     script_then (check lib err ''Read'')
     (script_then (print_line (''Read ok first16 '' @ show_hex (take 16 raw)))
     (trace_close lib conn disk))))"

definition trace_reads :: "(nat \<times> nat) list" where
  "trace_reads = [(0, 1), (0, 2), (1, 1), (8, 8), (0, 128), (0, 129), (256, 64)]"

definition read_report :: "nat \<Rightarrow> nat \<Rightarrow> byte list \<Rightarrow> string" where
  "read_report start n raw =
     ''Read start='' @ show_nat start @ '' n='' @ show_nat n @ '' first16='' @ show_hex (take 16 raw) @
     '' nonzero='' @ show_nat (length (filter (\<lambda>b. b \<noteq> 0) raw))"

fun read_loop_trace :: "vddk \<Rightarrow> nat \<Rightarrow> (nat \<times> nat) list \<Rightarrow> unit script" where
  "read_loop_trace lib disk [] = script_ret ()"
| "read_loop_trace lib disk ((start, n) # reads) =
     script_bind (vddk_read lib disk start n (replicate (n * SECTOR) 0)) (\<lambda>(err, raw).
     script_then (check lib err (''Read '' @ show_nat start @ ''+'' @ show_nat n))
     (script_then (print_line (read_report start n raw))
     (read_loop_trace lib disk reads)))"

definition read_trace_main :: "vddk \<Rightarrow> unit script" where
  "read_trace_main lib =
     script_bind (trace_open lib ''/tmp/vddk-read-trace'') (\<lambda>(conn, disk).
     script_then (read_loop_trace lib disk trace_reads)
     (trace_close lib conn disk))"

subsection \<open>Which calls are made\<close>

text \<open>
  The reference: calls with the names of their steps, made one after the other until one returns a code other
  than 0; then its text is asked for and given back, and nothing else is called.
\<close>

fun run_calls :: "vddk \<Rightarrow> vddk_call list \<Rightarrow> (vddk_call \<times> string) list \<Rightarrow> system_exit option \<times> vddk_call list" where
  "run_calls lib h [] = (None, h)"
| "run_calls lib h ((c, what) # steps) =
     (let err = vd_err lib h c; ask = GetErrorText err; msg = vd_handle lib (h @ [c]) ask in
      if err \<noteq> 0
      then (Some (SystemExit what err (vd_text lib (h @ [c, ask]) msg)), h @ [c, ask, FreeErrorText msg])
      else run_calls lib (h @ [c]) steps)"

definition then_calls :: "system_exit option \<times> vddk_call list \<Rightarrow> vddk_call list \<Rightarrow> system_exit option \<times> vddk_call list" where
  "then_calls r cs = (case r of (Some x, h) \<Rightarrow> (Some x, h) | (None, h) \<Rightarrow> (None, h @ cs))"

fun script_calls :: "(system_exit + 'a) \<times> trace_state \<Rightarrow> system_exit option \<times> vddk_call list" where
  "script_calls (Inl x, s) = (Some x, ts_calls s)"
| "script_calls (Inr _, s) = (None, ts_calls s)"

lemmas script_ops = script_bind_def script_then_def script_ret_def vddk_do_def vddk_read_def print_line_def
  write_file_def check_def Let_def

lemma run_calls_append:
  "run_calls lib h (xs @ ys) =
    (case run_calls lib h xs of (Some x, h') \<Rightarrow> (Some x, h') | (None, h') \<Rightarrow> run_calls lib h' ys)"
  by (induction lib h xs rule: run_calls.induct) (simp_all add: Let_def)

definition read_steps :: "nat \<Rightarrow> (nat \<times> nat) list \<Rightarrow> (vddk_call \<times> string) list" where
  "read_steps disk = map (\<lambda>(start, n). (ReadSectors disk start n (replicate (n * SECTOR) 0),
     ''Read '' @ show_nat start @ ''+'' @ show_nat n))"

definition open_steps :: "string \<Rightarrow> nat \<Rightarrow> (vddk_call \<times> string) list" where
  "open_steps directory conn =
     [(InitEx 8 0 (Some VDDK_DIR) (Some (directory @ ''/vddk.config'')), ''InitEx''),
      (ConnectEx trace_params 1 (Some ''snapshot-13442'') (Some ''nbd''), ''ConnectEx''),
      (OpenDisk conn trace_path OPEN_READ_ONLY, ''Open'')]"

text \<open>The connection and the disk that the library stored.\<close>

definition stored_conn :: "vddk \<Rightarrow> vddk_call list \<Rightarrow> string \<Rightarrow> nat" where
  "stored_conn lib h directory =
     vd_handle lib (h @ map fst (take 1 (open_steps directory 0))) (ConnectEx trace_params 1 (Some ''snapshot-13442'') (Some ''nbd''))"

definition stored_disk :: "vddk \<Rightarrow> vddk_call list \<Rightarrow> string \<Rightarrow> nat" where
  "stored_disk lib h directory = (let conn = stored_conn lib h directory in
     vd_handle lib (h @ map fst (take 2 (open_steps directory conn))) (OpenDisk conn trace_path OPEN_READ_ONLY))"

lemma trace_open_calls:
  "script_calls (trace_open lib directory s) =
    run_calls lib (ts_calls s) (open_steps directory (stored_conn lib (ts_calls s) directory))"
  by (simp add: trace_open_def open_steps_def stored_conn_def script_ops)

lemma trace_open_InrD:
  assumes "trace_open lib directory s = (Inr x, s')"
  shows "x = (stored_conn lib (ts_calls s) directory, stored_disk lib (ts_calls s) directory)"
  using assms by (auto simp: trace_open_def open_steps_def stored_conn_def stored_disk_def script_ops split: if_splits)

lemma read_loop_calls:
  "script_calls (read_loop_trace lib disk reads s) = run_calls lib (ts_calls s) (read_steps disk reads)"
proof (induction lib disk reads arbitrary: s rule: read_loop_trace.induct)
  case (2 lib disk start n reads)
  let ?c = "ReadSectors disk start n (replicate (n * SECTOR) 0)"
  show ?case
    by (simp add: script_ops read_steps_def 2 del: SECTOR_def)
qed (simp add: script_ret_def read_steps_def)

lemma calls_after_open:
  assumes "\<And>s1. script_calls (k (stored_conn lib (ts_calls s) directory, stored_disk lib (ts_calls s) directory) s1) =
      then_calls (run_calls lib (ts_calls s1) steps) cs"
  shows "script_calls (script_bind (trace_open lib directory) k s) =
    then_calls (run_calls lib (ts_calls s) (open_steps directory (stored_conn lib (ts_calls s) directory) @ steps)) cs"
proof -
  obtain r s1 where op: "trace_open lib directory s = (r, s1)" by (cases "trace_open lib directory s")
  then have "script_calls (r, s1) = run_calls lib (ts_calls s) (open_steps directory (stored_conn lib (ts_calls s) directory))"
    using trace_open_calls [of lib directory s] by simp
  then show ?thesis
    using op trace_open_InrD [of lib directory s _ s1] assms [of s1]
    by (cases r) (auto simp: script_bind_def run_calls_append then_calls_def dest: sym)
qed

lemma calls_before_close:
  assumes "script_calls (m s) = run_calls lib (ts_calls s) steps"
  shows "script_calls (script_then m (trace_close lib conn disk) s) =
    then_calls (run_calls lib (ts_calls s) steps) [CloseDisk disk, DisconnectVddk conn, ExitVddk]"
proof -
  obtain r s1 where "m s = (r, s1)" by (cases "m s")
  then show ?thesis using assms [symmetric] by (cases r) (simp_all add: trace_close_def script_ops then_calls_def)
qed

text \<open>
  The reading script calls VDDK in order. Whatever the library answers, the script makes the calls of
  its steps until the first that fails, with the connection and the disk that the library stored; then it
  asks for the text of the error, gives it back and exits with the step, the code and the text, and
  closes nothing; when no step fails it closes the disk, then the connection, then the library.
\<close>

theorem read_trace_calls:
  "script_calls (read_trace_main lib s) =
    (let h = ts_calls s; conn = stored_conn lib h ''/tmp/vddk-read-trace''; disk = stored_disk lib h ''/tmp/vddk-read-trace'' in
     then_calls (run_calls lib h (open_steps ''/tmp/vddk-read-trace'' conn @ read_steps disk trace_reads))
       [CloseDisk disk, DisconnectVddk conn, ExitVddk])"
  unfolding read_trace_main_def Let_def
  by (rule calls_after_open) (simp add: calls_before_close read_loop_calls)

text \<open>The opening script does the same with one sector.\<close>

lemma open_trace_calls:
  "script_calls (open_trace_main lib s) =
    (let h = ts_calls s; conn = stored_conn lib h ''/tmp/vddk-open-trace''; disk = stored_disk lib h ''/tmp/vddk-open-trace'' in
     then_calls (run_calls lib h (open_steps ''/tmp/vddk-open-trace'' conn @ [(ReadSectors disk 0 1 (replicate 512 0), ''Read'')]))
       [CloseDisk disk, DisconnectVddk conn, ExitVddk])"
  unfolding open_trace_main_def Let_def
  by (rule calls_after_open) (simp add: trace_close_def script_ops then_calls_def)

subsection \<open>What is printed\<close>

text \<open>A library whose calls succeed and whose reads store the sectors of a disk with the content \<open>img\<close>.\<close>

definition serves_image :: "vddk \<Rightarrow> byte list \<Rightarrow> bool" where
  "serves_image lib img \<longleftrightarrow> (\<forall>h c. vd_err lib h c = 0) \<and>
     (\<forall>h disk start n buf. vd_bytes lib h (ReadSectors disk start n buf) = buf_slice img (start * SECTOR) (n * SECTOR))"

lemma read_loop_prints:
  assumes "serves_image lib img" and "list_all (\<lambda>(start, n). (start + n) * SECTOR \<le> length img) reads"
  shows "\<exists>s'. read_loop_trace lib disk reads s = (Inr (), s') \<and>
    ts_out s' = ts_out s @ map (\<lambda>(start, n). read_report start n (buf_slice img (start * SECTOR) (n * SECTOR))) reads"
  using assms(2)
proof (induction reads arbitrary: s)
  case (Cons x reads)
  obtain start n where x: "x = (start, n)" by (cases x)
  let ?c = "ReadSectors disk start n (replicate (n * SECTOR) 0)"
  let ?raw = "buf_slice img (start * SECTOR) (n * SECTOR)"
  let ?s = "s\<lparr>ts_calls := ts_calls s @ [?c], ts_out := ts_out s @ [read_report start n ?raw]\<rparr>"
  have "length ?raw = n * SECTOR" using Cons.prems x by (auto simp: buf_slice_def min_def add_mult_distrib)
  then have "read_loop_trace lib disk (x # reads) s = read_loop_trace lib disk reads ?s"
    using assms(1) x by (simp add: serves_image_def script_ops del: SECTOR_def)
  moreover obtain s' where "read_loop_trace lib disk reads ?s = (Inr (), s')"
    "ts_out s' = ts_out ?s @ map (\<lambda>(start, n). read_report start n (buf_slice img (start * SECTOR) (n * SECTOR))) reads"
    using Cons.IH [of ?s] Cons.prems by auto
  ultimately show ?case using x by simp
qed (simp add: script_ret_def)

text \<open>With such a library the scripts print what is on the disk, in the order of their reads.\<close>

lemma read_trace_prints:
  assumes "serves_image lib img" and "320 * SECTOR \<le> length img"
  shows "\<exists>s'. read_trace_main lib s = (Inr (), s') \<and> ts_out s' = ts_out s @ [''ConnectEx ok'', ''Open ok''] @
    map (\<lambda>(start, n). read_report start n (buf_slice img (start * SECTOR) (n * SECTOR))) trace_reads"
proof -
  have ok: "vd_err lib h c = 0" for h c using assms(1) by (simp add: serves_image_def)
  obtain conn disk s1 where op: "trace_open lib ''/tmp/vddk-read-trace'' s = (Inr (conn, disk), s1)"
    and out: "ts_out s1 = ts_out s @ [''ConnectEx ok'', ''Open ok'']"
    using ok by (simp add: trace_open_def script_ops)
  have "list_all (\<lambda>(start, n). (start + n) * SECTOR \<le> length img) trace_reads"
    using assms(2) by (simp add: trace_reads_def)
  from read_loop_prints [OF assms(1) this, of disk s1] show ?thesis
    using op out by (auto simp: read_trace_main_def trace_close_def script_ops)
qed

end
