(* ===== verification/VddkBinding.thy ===== *)
theory VddkBinding
  imports Vddk Lab Resources
begin

text \<open>
  \<open>tests/integration/vixdisklib.py\<close>: the \<open>ctypes\<close> binding of VDDK that the library replaces, and that the tests and the
  probes run beside it. Its methods are effects on the calls made so far; an error code becomes a \<open>RuntimeError\<close>
  with the text of the library or of the binding.

  The two context managers are instances of \<open>bracket\<close>, the interface that also those of \<open>openvixdisklib.py\<close> and
  \<open>nfc_auth.py\<close> implement: what VDDK handed out is given back, whatever it answers.
\<close>

subsection \<open>Arguments\<close>

definition c_uint32 :: "int \<Rightarrow> nat" where
  "c_uint32 i = nat (i mod 2 ^ 32)"

definition c_uint64 :: "int \<Rightarrow> nat" where
  "c_uint64 i = nat (i mod 2 ^ 64)"

text \<open>\<open>s.encode()\<close>, as the string of its bytes.\<close>

definition encode :: "string \<Rightarrow> string" where
  "encode s = map char_of (map (unat :: byte \<Rightarrow> nat) (encode_utf8 s))"

text \<open>
  \<open>if s: s = s.encode()\<close> and then \<open>s\<close> as a \<open>c_char_p\<close> argument: an empty \<open>str\<close> is not encoded, and refused by \<open>ctypes\<close>.
\<close>

definition c_char_p :: "string option \<Rightarrow> exn + string option" where
  "c_char_p s = (case s of
     None \<Rightarrow> Inr None
   | Some s \<Rightarrow> if s = [] then Inl (OtherError (Text ''ctypes.ArgumentError'')) else Inr (Some (encode s)))"

text \<open>\<open>int(s)\<close>: digits with single underscores between them, a sign, white space around.\<close>

fun digits_value :: "nat \<Rightarrow> string \<Rightarrow> nat option" where
  "digits_value acc [] = Some acc"
| "digits_value acc (c # cs) =
     (let n = (of_char c :: nat) in
      if 48 \<le> n \<and> n \<le> 57 then digits_value (10 * acc + (n - 48)) cs
      else if c = CHR ''_''
      then (case cs of
              [] \<Rightarrow> None
            | d # _ \<Rightarrow> (let m = (of_char d :: nat) in if 48 \<le> m \<and> m \<le> 57 then digits_value acc cs else None))
      else None)"

definition py_int :: "string \<Rightarrow> int option" where
  "py_int s =
     (let s = rev (dropWhile is_space (rev (dropWhile is_space s)));
          (sign, ds) = (if starts_with s ''-'' then (-1, tl s) else if starts_with s ''+'' then (1, tl s) else (1, s)) in
      if ds = [] \<or> hd ds = CHR ''_'' then None else map_option (\<lambda>n. sign * int n) (digits_value 0 ds))"

subsection \<open>Errors\<close>

definition VIX_OK :: nat where
  "VIX_OK = 0"
definition VIX_E_OUT_OF_MEMORY :: nat where
  "VIX_E_OUT_OF_MEMORY = 2"
definition VIX_E_HOST_NETWORK_CONN_REFUSED :: nat where
  "VIX_E_HOST_NETWORK_CONN_REFUSED = 14009"
definition VIX_E_CANNOT_CONNECT_TO_HOST :: nat where
  "VIX_E_CANNOT_CONNECT_TO_HOST = 18000"

text \<open>The advice that replaces the text of the library.\<close>

definition known_error :: "nat \<Rightarrow> string option" where
  "known_error err =
     (if err = VIX_E_OUT_OF_MEMORY then Some (
        ''The ESXi host performing the CBT export ran out of RAM. '' @
        ''The host performing the export is automatically chosen '' @
        ''by vCenter, so enough RAM to run the export is required '' @
        ''on all hosts. To force the export from the specific host '' @
        ''the VM is on, create a Coriolis endpoint with the DNS '' @
        ''name/IP address of that host.'')
      else if err = VIX_E_HOST_NETWORK_CONN_REFUSED then Some (
        ''The ESXi host performing the CBT export refused '' @
        ''connection. The host is chosen automatically by vCenter, '' @
        ''so please ensure that the Coriolis deployment '' @
        ''can dial TCP/902 on all of the ESXi hosts of a vSphere, '' @
        ''and that DNS name resolution and firewalls are setup to '' @
        ''facilitate this. Alternatively, try connecting Coriolis '' @
        ''directly to the specific ESXi host which is running the '' @
        ''VM(s) to be migrated by creating a Coriolis endpoint '' @
        ''using the DNS name/IP address of the host itself.'')
      else if err = VIX_E_CANNOT_CONNECT_TO_HOST then Some (
        ''Coriolis lost connection to the ESXi host performing the '' @
        ''CBT export. If the Coriolis Endpoint connects to a '' @
        ''vSphere host, please try connecting Coriolis to the ESXi '' @
        ''host directly. If problem persists, try re-enabling CBT '' @
        ''on the VM, or moving it to another ESXi host.'')
      else None)"

text \<open>The string at an address, decoded; a null pointer has no \<open>decode\<close>.\<close>

definition c_text :: "vddk \<Rightarrow> nat \<Rightarrow> (trace_state, string) io" where
  "c_text lib addr = (\<lambda>s. case vd_text lib (ts_calls s) addr of
     None \<Rightarrow> (Inl (OtherError (Text ''AttributeError'')), s) | Some text \<Rightarrow> (Inr text, s))"

definition check_err :: "vddk \<Rightarrow> nat \<Rightarrow> nat list option \<Rightarrow> (trace_state, unit) io" where
  "check_err lib err allowed_values =
     (let allowed_values = (case allowed_values of None \<Rightarrow> [VIX_OK] | Some vs \<Rightarrow> vs) in
      if err \<notin> set allowed_values
      then bind_io (vddk_do lib (GetErrorText err)) (\<lambda>(_, err_msg).
           bind_io (c_text lib err_msg) (\<lambda>err_msg_copy.
           then_io (vddk_do lib (FreeErrorText err_msg))
           (raise (RuntimeError (Text (case known_error err of None \<Rightarrow> err_msg_copy | Some msg \<Rightarrow> msg))))))
      else ret ())"

text \<open>A call whose return code is checked; its result is the handle that it stores.\<close>

definition checked :: "vddk \<Rightarrow> vddk_call \<Rightarrow> (trace_state, nat) io" where
  "checked lib call = bind_io (vddk_do lib call) (\<lambda>(err, handle). then_io (check_err lib err None) (ret handle))"

subsection \<open>The constructor\<close>

definition VIX_COMPATIBILITY_MODES :: "string list" where
  "VIX_COMPATIBILITY_MODES = [''6.0'', ''6.5'', ''6.7'', ''7.0'', ''8.0'']"

definition parse_version :: "string \<Rightarrow> exn + int \<times> int" where
  "parse_version version =
     (let refused = Inl (ValueError (Text (''Unsupported vixDiskLib version format '' @ version))) in
      case split_all (CHR ''.'') version of
        [major, minor] \<Rightarrow> (case (py_int major, py_int minor) of (Some a, Some b) \<Rightarrow> Inr (a, b) | _ \<Rightarrow> refused)
      | _ \<Rightarrow> refused)"

fun init_versions :: "vddk \<Rightarrow> string option \<Rightarrow> string list \<Rightarrow> (trace_state, string option) io" where
  "init_versions lib config_path [] = ret None"
| "init_versions lib config_path (version # versions) =
     bind_io (lift (parse_version version)) (\<lambda>(major, minor).
     bind_io
       (catch_io
          (bind_io (lift (c_char_p config_path)) (\<lambda>config.
           then_io (checked lib (InitEx (c_uint32 major) (c_uint32 minor) None config)) (ret True)))
          (\<lambda>_. ret False)) (\<lambda>ok.
     if ok then ret (Some version) else init_versions lib config_path versions))"

definition vddk_init :: "vddk \<Rightarrow> string option \<Rightarrow> string option \<Rightarrow> (trace_state, string) io" where
  "vddk_init lib config_path vixdisklib_compatibility_version =
     (let target_versions = (case vixdisklib_compatibility_version of
            Some v \<Rightarrow> if v = [] then VIX_COMPATIBILITY_MODES else [v] | None \<Rightarrow> VIX_COMPATIBILITY_MODES) in
      bind_io (init_versions lib config_path (rev target_versions)) (\<lambda>version_used.
      case version_used of
        None \<Rightarrow> raise (RuntimeError (Text ''Could not initialize vixDiskLib with any of the target versions''))
      | Some v \<Rightarrow> ret v))"

subsection \<open>The methods\<close>

definition vddk_transport_modes :: "vddk \<Rightarrow> (trace_state, string list) io" where
  "vddk_transport_modes lib =
     bind_io (vddk_do lib ListTransportModes) (\<lambda>(_, addr).
     bind_io (c_text lib addr) (\<lambda>modes. ret (split_all (CHR '':'') modes)))"

definition vddk_transport_mode :: "vddk \<Rightarrow> nat \<Rightarrow> (trace_state, string) io" where
  "vddk_transport_mode lib disk_handle = bind_io (vddk_do lib (GetTransportMode disk_handle)) (\<lambda>(_, addr). c_text lib addr)"

definition connect_params ::
  "string \<Rightarrow> string option \<Rightarrow> string \<Rightarrow> string \<Rightarrow> string option \<Rightarrow> int \<Rightarrow> VixDiskLibConnectParams" where
  "connect_params server_name thumbprint username password vmx_spec tcp_port =
     (let when_given = (\<lambda>s. if truthy s then map_option encode s else None) in
      empty_params\<lparr>vmxSpec := when_given vmx_spec, serverName := Some (encode server_name), thumbPrint := when_given thumbprint,
        credType := 1, creds := UidPasswdCreds (Some (encode username)) (Some (encode password)), port := c_uint32 tcp_port\<rparr>)"

definition vddk_connect ::
  "vddk \<Rightarrow> string \<Rightarrow> string option \<Rightarrow> string \<Rightarrow> string \<Rightarrow> string option \<Rightarrow> string option \<Rightarrow> bool \<Rightarrow> string option \<Rightarrow> int \<Rightarrow>
     (trace_state, nat) io" where
  "vddk_connect lib server_name thumbprint username password vmx_spec snapshot_ref read_only transport_modes tcp_port =
     bind_io (lift (c_char_p snapshot_ref)) (\<lambda>snapshot.
     bind_io (lift (c_char_p transport_modes)) (\<lambda>modes.
     checked lib (ConnectEx (connect_params server_name thumbprint username password vmx_spec tcp_port)
       (of_bool read_only) snapshot modes)))"

definition vddk_disconnect :: "vddk \<Rightarrow> nat \<Rightarrow> (trace_state, unit) io" where
  "vddk_disconnect lib conn = then_io (checked lib (DisconnectVddk conn)) (ret ())"

definition vddk_open :: "vddk \<Rightarrow> nat \<Rightarrow> string \<Rightarrow> int \<Rightarrow> (trace_state, nat) io" where
  "vddk_open lib conn disk_path flags = checked lib (OpenDisk conn (encode disk_path) (c_uint32 flags))"

definition vddk_close :: "vddk \<Rightarrow> nat \<Rightarrow> (trace_state, unit) io" where
  "vddk_close lib disk_handle = then_io (checked lib (CloseDisk disk_handle)) (ret ())"

text \<open>\<open>read\<close> runs on the calls and the caller's buffer.\<close>

definition vddk_read_into :: "vddk \<Rightarrow> nat \<Rightarrow> int \<Rightarrow> int \<Rightarrow> (trace_state \<times> byte list, unit) io" where
  "vddk_read_into lib disk_handle start_sector num_sectors = (\<lambda>(s, buf).
     case vddk_read lib disk_handle (c_uint64 start_sector) (c_uint64 num_sectors) buf s of
       (Inl e, s') \<Rightarrow> (Inl e, s', buf)
     | (Inr (err, raw), s') \<Rightarrow> on_fst (check_err lib err None) (s', raw))"

definition vddk_write :: "vddk \<Rightarrow> nat \<Rightarrow> int \<Rightarrow> int \<Rightarrow> byte list \<Rightarrow> (trace_state, unit) io" where
  "vddk_write lib disk_handle start_sector num_sectors buf =
     then_io (checked lib (WriteSectors disk_handle (c_uint64 start_sector) (c_uint64 num_sectors) buf)) (ret ())"

definition vddk_exit :: "vddk \<Rightarrow> (trace_state, unit) io" where
  "vddk_exit lib = then_io (vddk_do lib ExitVddk) (ret ())"

subsection \<open>What VDDK has handed out\<close>

datatype vddk_resource = VConn nat | VDisk nat

text \<open>The connections and disks that the library gave and that were not given back, after given calls.\<close>

fun held_step :: "vddk \<Rightarrow> vddk_call list \<Rightarrow> vddk_call \<Rightarrow> vddk_resource set \<Rightarrow> vddk_resource set" where
  "held_step lib h (ConnectEx p r sn m) R =
     (if vd_err lib h (ConnectEx p r sn m) = VIX_OK then insert (VConn (vd_handle lib h (ConnectEx p r sn m))) R else R)"
| "held_step lib h (OpenDisk c path flags) R =
     (if vd_err lib h (OpenDisk c path flags) = VIX_OK then insert (VDisk (vd_handle lib h (OpenDisk c path flags))) R else R)"
| "held_step lib h (DisconnectVddk c) R = R - {VConn c}"
| "held_step lib h (CloseDisk d) R = R - {VDisk d}"
| "held_step lib h _ R = R"

fun held_from :: "vddk \<Rightarrow> vddk_call list \<Rightarrow> vddk_resource set \<Rightarrow> vddk_call list \<Rightarrow> vddk_resource set" where
  "held_from lib h R [] = R"
| "held_from lib h R (c # cs) = held_from lib (h @ [c]) (held_step lib h c R) cs"

definition vddk_held :: "vddk \<Rightarrow> vddk_call list \<Rightarrow> vddk_resource set" where
  "vddk_held lib calls = held_from lib [] {} calls"

lemma vddk_held_snoc: "vddk_held lib (calls @ [c]) = held_step lib calls c (vddk_held lib calls)"
proof -
  have "held_from lib h R (cs @ [c]) = held_step lib (h @ cs) c (held_from lib h R cs)" for h R cs
    by (induction lib h R cs rule: held_from.induct) simp_all
  then show ?thesis by (simp add: vddk_held_def)
qed

text \<open>VDDK hands out no handle that is still in use.\<close>

definition fresh_handles :: "vddk \<Rightarrow> bool" where
  "fresh_handles lib \<longleftrightarrow>
     (\<forall>h p r sn m. vd_err lib h (ConnectEx p r sn m) = VIX_OK \<longrightarrow> VConn (vd_handle lib h (ConnectEx p r sn m)) \<notin> vddk_held lib h) \<and>
     (\<forall>h c path flags. vd_err lib h (OpenDisk c path flags) = VIX_OK \<longrightarrow> VDisk (vd_handle lib h (OpenDisk c path flags)) \<notin> vddk_held lib h)"

interpretation vd: resources "\<lambda>s. fresh_handles lib" "\<lambda>s. vddk_held lib (ts_calls s)" for lib .

text \<open>Calls that hand nothing out and give nothing back.\<close>

definition neutral_call :: "vddk_call \<Rightarrow> bool" where
  "neutral_call c \<longleftrightarrow> (\<forall>lib h R. held_step lib h c R = R)"

lemma neutral_calls [simp]:
  "neutral_call (GetErrorText e)" "neutral_call (FreeErrorText a)" "neutral_call (InitEx a b d e')" "neutral_call ExitVddk"
  "neutral_call ListTransportModes" "neutral_call (GetTransportMode d')" "neutral_call (ReadSectors d' i n buf)"
  "neutral_call (WriteSectors d' i n buf)"
  by (simp_all add: neutral_call_def)

lemma vd_do: "neutral_call c \<Longrightarrow> keeps (vd.same_held lib) (vddk_do lib c)"
  by (simp add: keeps_def vd.same_held_def vddk_do_def vddk_held_snoc neutral_call_def)

lemma vd_c_text: "keeps (vd.same_held lib) (c_text lib addr)"
  by (simp add: keeps_def vd.same_held_def c_text_def split: option.split)

lemma vd_print: "keeps (vd.same_held lib) (print_line line)"
  and vd_write_file: "keeps (vd.same_held lib) (write_file file)"
  by (simp_all add: keeps_def vd.same_held_def print_line_def write_file_def)

lemma vd_check_err: "keeps (vd.same_held lib) (check_err lib err allowed)"
  unfolding check_err_def Let_def case_prod_beta
  by (auto intro!: vd.rs.keeps_intros vd_do vd_c_text)

lemma vd_checked: "neutral_call c \<Longrightarrow> keeps (vd.same_held lib) (checked lib c)"
  unfolding checked_def case_prod_beta by (intro vd.rs.keeps_intros vd_do vd_check_err)

text \<open>An error is always raised; its text is asked for once, and given back where it can be read.\<close>

lemma check_err_ok [simp]: "check_err lib VIX_OK None = ret ()"
  by (simp add: check_err_def)

lemma check_err_raises:
  "err \<noteq> VIX_OK \<Longrightarrow> \<exists>e s'. check_err lib err None s = (Inl e, s') \<and>
    (case vd_text lib (ts_calls s @ [GetErrorText err]) (vd_handle lib (ts_calls s) (GetErrorText err)) of
       None \<Rightarrow> ts_calls s' = ts_calls s @ [GetErrorText err]
     | Some text \<Rightarrow> e = RuntimeError (Text (case known_error err of None \<Rightarrow> text | Some msg \<Rightarrow> msg)) \<and>
         ts_calls s' = ts_calls s @ [GetErrorText err, FreeErrorText (vd_handle lib (ts_calls s) (GetErrorText err))])"
  by (auto simp: check_err_def vddk_do_def c_text_def bind_io_def then_io_def Let_def split: option.split)

lemma checked_run:
  "checked lib c s = (if vd_err lib (ts_calls s) c = VIX_OK
     then (Inr (vd_handle lib (ts_calls s) c), s\<lparr>ts_calls := ts_calls s @ [c]\<rparr>)
     else (case check_err lib (vd_err lib (ts_calls s) c) None (s\<lparr>ts_calls := ts_calls s @ [c]\<rparr>) of
             (Inl e, s') \<Rightarrow> (Inl e, s') | (Inr _, s') \<Rightarrow> (Inr (vd_handle lib (ts_calls s) c), s')))"
  by (simp add: checked_def vddk_do_def bind_io_def then_io_def split: prod.split sum.split)

lemma vd_take:
  assumes "\<And>h R. held_step lib h c R = (if vd_err lib h c = VIX_OK then insert (res (vd_handle lib h c)) R else R)"
    and "\<And>h. fresh_handles lib \<Longrightarrow> vd_err lib h c = VIX_OK \<Longrightarrow> res (vd_handle lib h c) \<notin> vddk_held lib h"
  shows "vd.moves lib {} (checked lib c) (\<lambda>x. {res x})"
proof (rule vd.movesI)
  fix s e s' assume wf: "fresh_handles lib" and run: "checked lib c s = (Inl e, s')"
  then have err: "vd_err lib (ts_calls s) c \<noteq> VIX_OK" by (auto simp: checked_run)
  let ?s = "s\<lparr>ts_calls := ts_calls s @ [c]\<rparr>"
  have "check_err lib (vd_err lib (ts_calls s) c) None ?s = (Inl e, s')"
    using run err by (auto simp: checked_run split: prod.splits sum.splits)
  from vd.same_heldD [OF vd_check_err wf this]
  show "fresh_handles lib \<and> vddk_held lib (ts_calls s') = vddk_held lib (ts_calls s) - {}"
    using err assms(1) by (simp add: vddk_held_snoc)
next
  fix s x s' assume wf: "fresh_handles lib" and run: "checked lib c s = (Inr x, s')"
  have ok: "vd_err lib (ts_calls s) c = VIX_OK"
  proof (rule ccontr)
    assume err: "vd_err lib (ts_calls s) c \<noteq> VIX_OK"
    obtain e s1 where "check_err lib (vd_err lib (ts_calls s) c) None (s\<lparr>ts_calls := ts_calls s @ [c]\<rparr>) = (Inl e, s1)"
      using check_err_raises [OF err] by blast
    then show False using run err by (simp add: checked_run)
  qed
  then have "x = vd_handle lib (ts_calls s) c" "s' = s\<lparr>ts_calls := ts_calls s @ [c]\<rparr>" using run by (simp_all add: checked_run)
  then show "fresh_handles lib \<and> vddk_held lib (ts_calls s') = (vddk_held lib (ts_calls s) - {}) \<union> {res x} \<and>
      {res x} \<inter> (vddk_held lib (ts_calls s) - {}) = {}"
    using wf ok assms by (simp add: vddk_held_snoc)
qed

lemma vd_give:
  assumes "\<And>h R. held_step lib h c R = R - {x}"
  shows "vd.releases lib (then_io (checked lib c) (ret ())) {x}"
proof -
  have "vddk_held lib (ts_calls (snd (checked lib c s))) = vddk_held lib (ts_calls s) - {x}" if "fresh_handles lib" for s
  proof (cases "vd_err lib (ts_calls s) c = VIX_OK")
    case True
    then show ?thesis using assms by (simp add: checked_run vddk_held_snoc)
  next
    case False
    obtain r s1 where ch: "check_err lib (vd_err lib (ts_calls s) c) None (s\<lparr>ts_calls := ts_calls s @ [c]\<rparr>) = (r, s1)"
      by (metis prod.collapse)
    then show ?thesis
      using vd.same_heldD [OF vd_check_err that ch] False assms
      by (cases r) (simp_all add: checked_run vddk_held_snoc)
  qed
  then show ?thesis by (simp add: vd.releases_def)
qed

lemma moves_vddk_connect:
  "vd.moves lib {} (vddk_connect lib srv tp user pwd spec snap ro modes p) (\<lambda>c. {VConn c})"
  unfolding vddk_connect_def
  by (intro vd.moves_same_bind vd.rs.keeps_lift vd_take) (auto simp: fresh_handles_def)

lemma moves_vddk_open: "vd.moves lib {} (vddk_open lib conn path flags) (\<lambda>d. {VDisk d})"
  unfolding vddk_open_def by (rule vd_take) (auto simp: fresh_handles_def)

text \<open>\<open>with handle.connect(...) as conn\<close> and \<open>with handle.open(conn, ...) as disk\<close>\<close>

interpretation vconnect_ctx: bracket "\<lambda>s. fresh_handles lib" "\<lambda>s. vddk_held lib (ts_calls s)"
  "vddk_connect lib srv tp user pwd spec snap ro modes p" "vddk_disconnect lib" "\<lambda>c. {VConn c}" "\<lambda>c s. True"
  for lib srv tp user pwd spec snap ro modes p
  using vd_give [OF held_step.simps(3), unfolded vd.releases_def] moves_vddk_connect
  by unfold_locales (simp_all add: vddk_disconnect_def)

interpretation vopen_ctx: bracket "\<lambda>s. fresh_handles lib" "\<lambda>s. vddk_held lib (ts_calls s)"
  "vddk_open lib conn path flags" "vddk_close lib" "\<lambda>d. {VDisk d}" "\<lambda>d s. True"
  for lib conn path flags
  using vd_give [OF held_step.simps(4), unfolded vd.releases_def] moves_vddk_open
  by unfold_locales (simp_all add: vddk_close_def)

end
