(* ===== verification/VddkProbes.thy ===== *)
theory VddkProbes
  imports VddkBinding Probes
begin

text \<open>
  The probes under \<open>docs/probing_samples\<close> that drive VDDK through the binding of the tests: \<open>_worker\<close> of
  \<open>vddk_aio_bufsize_probe.py\<close>, which runs under \<open>strace\<close>, and \<open>test_write\<close> of \<open>vddk_write_trace.py\<close>. The library path, and
  what the class \<open>TestBase\<close> that is not in the repository gives (the arguments of \<open>connect\<close>, the path and the pattern), are
  parameters; the directory of the worker can be written.

  Unlike the scripts of \<open>VddkTrace\<close>, they give back what VDDK handed out, whatever fails.
\<close>

subsection \<open>The worker\<close>

definition worker_reads :: "(int \<times> string) list" where
  "worker_reads = [(129, ''129s''), (4097, ''2MiB+512'')]"

text \<open>A read into a buffer that is not looked at.\<close>

definition read_away :: "vddk \<Rightarrow> nat \<Rightarrow> int \<Rightarrow> int \<Rightarrow> byte list \<Rightarrow> (trace_state, unit) io" where
  "read_away lib disk start num buf = (\<lambda>s. case vddk_read_into lib disk start num (s, buf) of (r, s', _) \<Rightarrow> (r, s'))"

fun worker_loop :: "vddk \<Rightarrow> nat \<Rightarrow> (int \<times> string) list \<Rightarrow> (trace_state, unit) io" where
  "worker_loop lib disk [] = ret ()"
| "worker_loop lib disk ((n_sectors, label) # reads) =
     bind_io (lift (get_buffer (n_sectors * 512))) (\<lambda>buf.
     then_io (read_away lib disk 0 n_sectors (pb_bytes buf))
     (then_io (print_line (''read '' @ label @ '' ok''))
     (worker_loop lib disk reads)))"

definition worker_use :: "vddk \<Rightarrow> nat \<Rightarrow> (trace_state, unit) io" where
  "worker_use lib disk =
     bind_io (vddk_transport_mode lib disk) (\<lambda>mode.
     then_io (print_line (''transport '' @ mode)) (worker_loop lib disk worker_reads))"

definition worker :: "vddk \<Rightarrow> LabEnv \<Rightarrow> string \<Rightarrow> int \<Rightarrow> int \<Rightarrow> (trace_state, unit) io" where
  "worker lib lab work_dir buf_size_in_64kb buf_count =
     (let config = vddk_config work_dir buf_size_in_64kb buf_count in
      then_io (write_file config)
     (then_io (vddk_init lib (Some (fst config)) (Some ''8.0''))
     (then_io
       (with_io
          (vddk_connect lib (lab_host lab) (Some (lab_thumbprint lab)) (lab_username lab) (lab_password lab)
             (Some (lab_vmx_spec lab)) None True (Some ''nbd'') (int (lab_port lab))) (vddk_disconnect lib)
          (\<lambda>conn. with_io (vddk_open lib conn (lab_disk_path lab) VIXDISKLIB_FLAG_OPEN_READ_ONLY) (vddk_close lib) (worker_use lib)))
     (vddk_exit lib))))"

subsection \<open>The traced write\<close>

text \<open>The state is that of VDDK and the caller's buffer.\<close>

definition write_back :: "vddk \<Rightarrow> nat \<Rightarrow> (trace_state \<times> byte list, unit) io" where
  "write_back lib disk = (\<lambda>(s, buf).
     then_io (on_fst (vddk_write lib disk 0 1 buf)) (vddk_read_into lib disk 0 1) (s, buf))"

definition test_write ::
  "vddk \<Rightarrow> (trace_state, nat) io \<Rightarrow> string \<Rightarrow> int \<Rightarrow> byte list \<Rightarrow> (trace_state, unit) io" where
  "test_write lib connect disk_path sector_size expected =
     then_io (vddk_init lib (Some ''/tmp/vddk_nfc.conf'') (Some ''8.0''))
     (bind_io (lift (get_buffer sector_size)) (\<lambda>buf.
      then_io (raise_if (length expected \<noteq> length (pb_bytes buf)) (ValueError (Text ''Can only assign sequence of same size'')))
     (\<lambda>s. (case with_io (on_fst connect) (\<lambda>conn. on_fst (vddk_disconnect lib conn))
               (\<lambda>conn. with_io (on_fst (vddk_open lib conn disk_path 0)) (\<lambda>disk. on_fst (vddk_close lib disk)) (write_back lib))
               (s, expected) of
             (Inl e, s', _) \<Rightarrow> (Inl e, s')
           | (Inr _, s', buf) \<Rightarrow> print_line (''DISK_PATH '' @ disk_path @ '' ok '' @ show_hex (take 8 buf)) s'))))"

subsection \<open>Everything is given back\<close>

lemma vd_init: "keeps (vd.same_held lib) (vddk_init lib config version)"
proof -
  have "keeps (vd.same_held lib) (init_versions lib config vs)" for vs
    by (induction lib config vs rule: init_versions.induct)
      (auto intro!: vd.rs.keeps_intros vd_checked split: prod.split, simp add: keeps_def vd.rs.refl_R)
  then show ?thesis unfolding vddk_init_def Let_def by (auto intro!: vd.rs.keeps_intros simp del: init_versions.simps split: option.split)
qed

lemma vd_read_into:
  assumes "vddk_read_into lib disk start num (s, buf) = (r, s', buf')"
  shows "vd.same_held lib s s' \<and> length buf' = length buf"
proof -
  obtain err raw s1 where rd: "vddk_read lib disk (c_uint64 start) (c_uint64 num) buf s = (Inr (err, raw) :: exn + nat \<times> byte list, s1)"
    and s1: "vd.same_held lib s s1" "length raw = length buf"
    by (simp add: vddk_read_def Let_def vd.same_held_def vddk_held_snoc)
  have "check_err lib err None s1 = (r, s')" "buf' = raw"
    using assms rd by (auto simp: vddk_read_into_def on_fst_app)
  then show ?thesis using keepsD [OF vd_check_err] s1 vd.rs.trans_R by blast
qed

lemma vd_read_away: "keeps (vd.same_held lib) (read_away lib disk start num buf)"
  unfolding keeps_def read_away_def using vd_read_into by (auto split: prod.splits)

lemma vd_worker_use: "keeps (vd.same_held lib) (worker_use lib disk)"
proof -
  have "keeps (vd.same_held lib) (worker_loop lib disk reads)" for reads
    by (induction lib disk reads rule: worker_loop.induct)
      (simp_all only: worker_loop.simps, (intro vd.rs.keeps_intros vd_read_away vd_print | simp)+)
  then show ?thesis
    unfolding worker_use_def vddk_transport_mode_def case_prod_beta
    by (auto intro!: vd.rs.keeps_intros vd_do vd_c_text vd_print)
qed

text \<open>The library is closed by nothing but the last call.\<close>

definition no_exit :: "trace_state \<Rightarrow> trace_state \<Rightarrow> bool" where
  "no_exit s s' \<longleftrightarrow> (ExitVddk \<in> set (ts_calls s') \<longrightarrow> ExitVddk \<in> set (ts_calls s))"

interpretation ne: state_preorder no_exit
  by unfold_locales (auto simp: no_exit_def)

lemma ne_do: "c \<noteq> ExitVddk \<Longrightarrow> keeps no_exit (vddk_do lib c)"
  and ne_c_text: "keeps no_exit (c_text lib addr)"
  and ne_print: "keeps no_exit (print_line line)"
  and ne_file: "keeps no_exit (write_file file)"
  by (auto simp: keeps_def no_exit_def vddk_do_def c_text_def print_line_def write_file_def split: option.split)

lemma ne_check_err: "keeps no_exit (check_err lib err allowed)"
  unfolding check_err_def Let_def case_prod_beta by (auto intro!: ne.keeps_intros ne_do ne_c_text)

lemma ne_checked: "c \<noteq> ExitVddk \<Longrightarrow> keeps no_exit (checked lib c)"
  unfolding checked_def case_prod_beta by (intro ne.keeps_intros ne_do ne_check_err)

lemma ne_init: "keeps no_exit (vddk_init lib config version)"
proof -
  have "keeps no_exit (init_versions lib config vs)" for vs
    by (induction lib config vs rule: init_versions.induct)
      (auto intro!: ne.keeps_intros ne_checked split: prod.split, simp add: keeps_def ne.refl_R)
  then show ?thesis unfolding vddk_init_def Let_def by (auto intro!: ne.keeps_intros simp del: init_versions.simps split: option.split)
qed

lemma ne_read_away: "keeps no_exit (read_away lib disk start num buf)"
  unfolding keeps_def
proof
  fix s :: trace_state
  let ?c = "ReadSectors disk (c_uint64 start) (c_uint64 num) buf"
  let ?s1 = "s\<lparr>ts_calls := ts_calls s @ [?c]\<rparr>"
  obtain r s' where ch: "check_err lib (vd_err lib (ts_calls s) ?c) None ?s1 = (r, s')" by (metis prod.collapse)
  have "no_exit ?s1 s'" by (rule keepsD [OF ne_check_err ch])
  then show "no_exit s (snd (read_away lib disk start num buf s))"
    using ch by (simp add: read_away_def vddk_read_into_def vddk_read_def Let_def on_fst_app no_exit_def)
qed

lemma ne_worker_use: "keeps no_exit (worker_use lib disk)"
proof -
  have "keeps no_exit (worker_loop lib disk reads)" for reads
    by (induction lib disk reads rule: worker_loop.induct)
      (simp_all only: worker_loop.simps, (intro ne.keeps_intros ne_read_away ne_print | simp)+)
  then show ?thesis
    unfolding worker_use_def vddk_transport_mode_def case_prod_beta
    by (auto intro!: ne.keeps_intros ne_do ne_c_text ne_print)
qed

lemma ne_with: "keeps no_exit enter \<Longrightarrow> (\<And>h. keeps no_exit (leave h)) \<Longrightarrow> (\<And>h. keeps no_exit (body h)) \<Longrightarrow>
    keeps no_exit (with_io enter leave body)"
  unfolding with_io_def by (intro ne.keeps_intros)

text \<open>
  The worker gives everything back. Whatever VDDK answers, and wherever the worker fails, every connection
  and every disk that VDDK handed out to it has been given back when it ends; and it closes the library exactly when
  nothing failed, as its last call.
\<close>

theorem worker_gives_back:
  assumes "fresh_handles lib" and "worker lib lab work_dir bufsize count s = (r, s')" and "ExitVddk \<notin> set (ts_calls s)"
  shows "vddk_held lib (ts_calls s') = vddk_held lib (ts_calls s) \<and>
    (if r = Inr () then last (ts_calls s') = ExitVddk else ExitVddk \<notin> set (ts_calls s'))"
proof -
  let ?config = "vddk_config work_dir bufsize count"
  let ?sessions = "with_io
      (vddk_connect lib (lab_host lab) (Some (lab_thumbprint lab)) (lab_username lab) (lab_password lab)
         (Some (lab_vmx_spec lab)) None True (Some ''nbd'') (int (lab_port lab))) (vddk_disconnect lib)
      (\<lambda>conn. with_io (vddk_open lib conn (lab_disk_path lab) VIXDISKLIB_FLAG_OPEN_READ_ONLY) (vddk_close lib) (worker_use lib))"
  let ?m = "then_io (write_file ?config) (then_io (vddk_init lib (Some (fst ?config)) (Some ''8.0'')) ?sessions)"
  have "keeps (vd.same_held lib) ?sessions"
    by (intro vconnect_ctx.with_same_held vopen_ctx.with_same_held vd_worker_use) (simp_all add: keeps_def)
  then have held: "keeps (vd.same_held lib) ?m" by (intro vd.rs.keeps_intros vd_write_file vd_init)
  have quiet: "keeps no_exit ?m"
    unfolding vddk_connect_def vddk_disconnect_def vddk_open_def vddk_close_def
    by (intro ne.keeps_intros ne_with ne_file ne_init ne_checked ne_worker_use) simp_all
  obtain r1 s1 where m: "?m s = (r1, s1)" by (cases "?m s")
  have "worker lib lab work_dir bufsize count s = then_io ?m (vddk_exit lib) s"
    by (auto simp: worker_def Let_def then_io_def bind_io_def split: prod.split sum.split)
  then have run: "(r, s') = (case r1 of Inl e \<Rightarrow> (Inl e, s1) | Inr _ \<Rightarrow> (Inr (), s1\<lparr>ts_calls := ts_calls s1 @ [ExitVddk]\<rparr>))"
    using assms(2) m by (cases r1) (simp_all add: vddk_exit_def vddk_do_def then_io_def bind_io_def)
  show ?thesis
    using run vd.same_heldD [OF held assms(1) m] keepsD [OF quiet m] assms(3)
    by (cases r1) (simp_all add: vddk_held_snoc no_exit_def)
qed

text \<open>VDDK numbers its handles by the calls; the host runs out of memory when the disk is opened.\<close>

definition demo_vddk :: vddk where
  "demo_vddk = \<lparr>vd_err = (\<lambda>h c. case c of OpenDisk conn path flags \<Rightarrow> VIX_E_OUT_OF_MEMORY | _ \<Rightarrow> VIX_OK),
     vd_handle = (\<lambda>h c. length h), vd_bytes = (\<lambda>h c. []), vd_text = (\<lambda>h a. Some ''nbd'')\<rparr>"

lemma demo_vddk_simps:
  "vd_err demo_vddk h c = (case c of OpenDisk conn path flags \<Rightarrow> VIX_E_OUT_OF_MEMORY | _ \<Rightarrow> VIX_OK)"
  "vd_handle demo_vddk h c = length h" "vd_text demo_vddk h a = Some ''nbd''" "VIX_E_OUT_OF_MEMORY \<noteq> VIX_OK"
  by (simp_all add: demo_vddk_def) (simp add: VIX_OK_def VIX_E_OUT_OF_MEMORY_def)

lemma demo_vddk_fresh: "fresh_handles demo_vddk"
proof -
  have "\<forall>x\<in>vddk_held demo_vddk h. (case x of VConn i \<Rightarrow> i < length h | VDisk i \<Rightarrow> i < length h)" for h
  proof (induction h rule: rev_induct)
    case (snoc c h)
    show ?case
    proof
      fix x assume "x \<in> vddk_held demo_vddk (h @ [c])"
      then have "x \<in> vddk_held demo_vddk h \<or> x = VConn (length h) \<or> x = VDisk (length h)"
        by (cases c) (auto simp: vddk_held_snoc demo_vddk_simps)
      then show "case x of VConn i \<Rightarrow> i < length (h @ [c]) | VDisk i \<Rightarrow> i < length (h @ [c])"
        using snoc by (auto split: vddk_resource.splits)
    qed
  qed (simp add: vddk_held_def)
  then show ?thesis by (fastforce simp: fresh_handles_def demo_vddk_simps)
qed

theorem worker_gives_back_witness:
  "\<exists>e s'. worker demo_vddk demo_lab ''/tmp'' 32 1 \<lparr>ts_calls = [], ts_out = [], ts_files = []\<rparr> = (Inl (RuntimeError e), s') \<and>
     length (ts_calls s') = 6 \<and> DisconnectVddk 1 \<in> set (ts_calls s') \<and> vddk_held demo_vddk (ts_calls s') = {} \<and> ExitVddk \<notin> set (ts_calls s')"
proof -
  let ?s = "\<lparr>ts_calls = [], ts_out = [], ts_files = []\<rparr>"
  obtain r s' where run: "worker demo_vddk demo_lab ''/tmp'' 32 1 ?s = (r, s')" by (metis prod.collapse)
  have "parse_version ''8.0'' = Inr (8, 0)" by code_simp
  then have "\<exists>e s'. worker demo_vddk demo_lab ''/tmp'' 32 1 ?s = (Inl (RuntimeError e), s') \<and>
      length (ts_calls s') = 6 \<and> DisconnectVddk 1 \<in> set (ts_calls s')"
    by (simp add: worker_def Let_def write_file_def vddk_init_def vddk_connect_def vddk_open_def vddk_disconnect_def c_char_p_def
        vddk_config_def path_join_def checked_run demo_vddk_simps with_io_def catch_io_def bind_io_def then_io_def try_finally_def
        check_err_def vddk_do_def c_text_def)
  then obtain e where "r = Inl (RuntimeError e)" "length (ts_calls s') = 6 \<and> DisconnectVddk 1 \<in> set (ts_calls s')"
    using run by auto
  then show ?thesis using worker_gives_back [OF demo_vddk_fresh run] run by (auto simp: vddk_held_def)
qed

subsection \<open>The traced write gives everything back\<close>

interpretation vdb: resources "\<lambda>st :: trace_state \<times> byte list. fresh_handles lib" "\<lambda>st. vddk_held lib (ts_calls (fst st))" for lib .

lemma vdb_moves:
  assumes "vd.moves lib P m own"
  shows "vdb.moves lib P (on_fst m) own"
proof (rule vdb.movesI)
  fix st e st' assume w: "fresh_handles lib" "P \<subseteq> vddk_held lib (ts_calls (fst st))" and "on_fst m st = (Inl e, st')"
  then have "m (fst st) = (Inl e, fst st')" by (cases st) (auto simp: on_fst_app prod_eq_iff)
  from vd.moves_Inl [OF assms w this] show "fresh_handles lib \<and>
      vddk_held lib (ts_calls (fst st')) = vddk_held lib (ts_calls (fst st)) - P" .
next
  fix st x st' assume w: "fresh_handles lib" "P \<subseteq> vddk_held lib (ts_calls (fst st))" and "on_fst m st = (Inr x, st')"
  then have "m (fst st) = (Inr x, fst st')" by (cases st) (auto simp: on_fst_app prod_eq_iff)
  from vd.moves_Inr [OF assms w this] show "fresh_handles lib \<and>
      vddk_held lib (ts_calls (fst st')) = vddk_held lib (ts_calls (fst st)) - P \<union> own x \<and>
      own x \<inter> (vddk_held lib (ts_calls (fst st)) - P) = {}" .
qed

lemma vdb_releases: "vd.releases lib m P \<Longrightarrow> vdb.releases lib (on_fst m) P"
  by (auto simp: vd.releases_def vdb.releases_def on_fst_app)

lemma vdb_write_back: "keeps (vdb.same_held lib) (write_back lib disk)"
  unfolding keeps_def
proof
  fix st :: "trace_state \<times> byte list"
  obtain s buf where st: "st = (s, buf)" by (cases st)
  obtain r s1 where wr: "vddk_write lib disk 0 1 buf s = (r, s1)" by (cases "vddk_write lib disk 0 1 buf s")
  have "keeps (vd.same_held lib) (vddk_write lib disk 0 1 buf)"
    unfolding vddk_write_def by (intro vd.rs.keeps_intros vd_checked neutral_calls)
  from keepsD [OF this wr] have s1: "vd.same_held lib s s1" .
  obtain r2 s2 b2 where rd: "vddk_read_into lib disk 0 1 (s1, buf) = (r2, s2, b2)" by (metis surj_pair)
  have "vd.same_held lib s s2" using vd_read_into [OF rd] s1 vd.rs.trans_R by blast
  then show "vdb.same_held lib st (snd (write_back lib disk st))"
    using st wr rd s1
    by (cases r) (simp_all add: write_back_def then_io_def bind_io_def on_fst_app vd.same_held_def vdb.same_held_def)
qed

lemma test_write_gives_back:
  assumes "fresh_handles lib" and "vd.moves lib {} connect (\<lambda>c. {VConn c})" and "test_write lib connect path ss expected s = (r, s')"
  shows "vddk_held lib (ts_calls s') = vddk_held lib (ts_calls s)"
proof -
  let ?inner = "\<lambda>conn. with_io (on_fst (vddk_open lib conn path 0)) (\<lambda>disk. on_fst (vddk_close lib disk)) (write_back lib)"
  let ?run = "with_io (on_fst connect) (\<lambda>conn. on_fst (vddk_disconnect lib conn)) ?inner"
  have close: "vdb.releases lib (on_fst (vddk_close lib d)) {VDisk d}" for d
    unfolding vddk_close_def by (rule vdb_releases, rule vd_give) simp
  have disc: "vdb.releases lib (on_fst (vddk_disconnect lib c)) {VConn c}" for c
    unfolding vddk_disconnect_def by (rule vdb_releases, rule vd_give) simp
  have inner: "keeps (vdb.same_held lib) (?inner conn)" for conn
    by (rule vdb.same_of_moves, rule vdb.moves_with [OF vdb_moves [OF moves_vddk_open]]) (rule vdb_write_back, rule close)
  have run: "keeps (vdb.same_held lib) ?run"
    by (rule vdb.same_of_moves, rule vdb.moves_with [OF vdb_moves [OF assms(2)] inner disc])
  have last: "keeps (vd.same_held lib) (\<lambda>s. case ?run (s, expected) of
      (Inl e, s', _) \<Rightarrow> (Inl e, s') | (Inr _, s', buf) \<Rightarrow> print_line (''DISK_PATH '' @ path @ '' ok '' @ show_hex (take 8 buf)) s')"
    unfolding keeps_def
  proof
    fix s :: trace_state
    obtain r s1 b1 where r: "?run (s, expected) = (r, s1, b1)" by (metis surj_pair)
    have "vd.same_held lib s s1" using keepsD [OF run r] by (simp add: vd.same_held_def vdb.same_held_def)
    then show "vd.same_held lib s (snd (case ?run (s, expected) of
      (Inl e, s', _) \<Rightarrow> (Inl e, s') | (Inr _, s', buf) \<Rightarrow> print_line (''DISK_PATH '' @ path @ '' ok '' @ show_hex (take 8 buf)) s'))"
      using r by (cases r) (simp_all add: print_line_def vd.same_held_def)
  qed
  have "keeps (vd.same_held lib) (test_write lib connect path ss expected)"
    unfolding test_write_def by (intro vd.rs.keeps_intros vd_init last)
  from vd.same_heldD [OF this assms(1,3)] show ?thesis by simp
qed

end
