(* ===== verification/Spec2Isabelle.thy ===== *)
theory Spec2Isabelle
  imports NfcSkip NfcTicket VixArgs StressTest ProbeRuns VddkTrace VddkProbes
begin

text \<open>
  OpenVixDiskLib (\<open>src/openvixdisklib\<close>): a Python replacement for VMware's VixDiskLib that reads and writes the
  VMDKs of a vSphere VM over NFC. \<open>openvixdisklib.py\<close> is the VDDK-shaped handle; it logs in to the VIM server and
  gets a ticket and an authd connection from \<open>nfc_auth.py\<close>, opens the disk with \<open>open_disk\<close> of \<open>nfc_open.py\<close>, and
  reads, writes and closes through the \<open>NfcDisk\<close> object of \<open>nfc_open.py\<close>, which compresses with \<open>fastlz.py\<close>.

  Conventions. An operation is a function from a state to a result and a new state (\<open>io\<close> of \<open>Prelude\<close>): the
  result is \<open>Inl\<close> an exception or \<open>Inr\<close> a value, and the state survives an exception, so that \<open>try\<close>, \<open>finally\<close>
  and \<open>except ...: raise\<close> are combinators. Python integers that cannot be negative in the source are \<open>nat\<close>,
  the arguments of the caller are \<open>int\<close>; the 32- and 64-bit fields of the wire are packed by \<open>struct_pack\<close>,
  which raises \<open>struct.error\<close> out of range. Bytes are \<open>8 word\<close>. Strings have code points below 256. The
  definitions are executable and the witnesses evaluate them.

  \<^item> \<open>Prelude\<close>: exceptions, effects, what the combinators keep (locale \<open>state_preorder\<close>), byte buffers (locale
    \<open>byte_store\<close>). \<open>PyStruct\<close>: \<open>struct\<close> and the string encodings (locale \<open>wire_codec\<close>).
  \<^item> \<open>Socket\<close>: a socket as a stream of segments, a shutdown and faults, with \<open>_recvn_into\<close> and \<open>_recvn\<close>;
    the locales \<open>rx_frame\<close> and \<open>sock_frame\<close> collect what receiving, and sending and receiving, keep.
  \<^item> \<open>FastLz\<close>: \<open>fastlz.py\<close> over the parameter \<open>fastlz_lib\<close> (pyfastlz) with its contract \<open>pyfastlz_ok\<close>.
  \<^item> \<open>NfcWire\<close>: the constants, classic messages and AIO headers of \<open>nfc_open.py\<close>. \<open>NfcDisk\<close>: the class \<open>NfcDisk\<close>,
    every method (locale \<open>disk_frame\<close>).
  \<^item> \<open>NfcRead\<close>: \<open>readinto\<close> against a server that answers with fragments of the disk. \<open>NfcReadSafety\<close>: \<open>readinto\<close>
    against any server. \<open>NfcSkip\<close>: the packed mode and its reference rebuild. \<open>NfcWrite\<close>: termination of
    \<open>write\<close> and its refinement of a reference server that stores what the frames say. \<open>NfcSession\<close>: the life of
    a disk object as a step relation, its invariant, and the closing exchange. \<open>SectorStore\<close>: a disk object
    refines an array of bytes: any sequence of reads and writes with any server that keeps the protocol (\<open>serves\<close>).
  \<^item> \<open>World\<close>: the state that the rest shares: socket objects, disk objects, VIM sessions, and a log of what was
    dialled, negotiated and asked for; the network is an arbitrary script, and pyVmomi, pyVim and \<open>hashlib\<close>
    are the parameter \<open>deps\<close>. \<open>NfcAuth\<close>: every function of \<open>nfc_auth.py\<close>.
  \<^item> \<open>Resources\<close>: which sockets and logins an operation takes, keeps and gives back (locale \<open>resources\<close>), and
    context managers (locale \<open>bracket\<close>), interpreted on the process.
  \<^item> \<open>NfcAuthSpec\<close>: the resources of \<open>nfc_auth.py\<close>, thumbprints, \<open>_readline\<close>, the authd dialogue. \<open>NfcLogin\<close>: pinning
    of the management and of the ESXi certificate. \<open>NfcTicket\<close>: the ticket call and the device key.
  \<^item> \<open>NfcOpen\<close>: taking over the socket, the handshake and \<open>open_disk\<close>. \<open>NfcOpenSpec\<close>: its bytes with a server that
    answers, what every opened disk is, and that a failed open leaves nothing.
  \<^item> \<open>VixHandle\<close>: \<open>openvixdisklib.py\<close>. \<open>VixArgs\<close>: its argument parsers. \<open>VixHandleSpec\<close>: its context managers lose
    nothing, read-only use stays read-only, and the sector size of \<open>write\<close>.
  \<^item> \<open>VixStore\<close>: reads and writes of the handle are those of its disk object, and the two ends of the life of a disk.
    \<open>FreshFds\<close>: connecting, opening and logging out change only socket and disk objects that they made (locale
    \<open>guarded\<close>). \<open>VixProcess\<close>: a process with any number of connections and handles as a step relation; who owns
    what in every reachable state, and that callers do not disturb each other.
  \<^item> \<open>Probes\<close>: the functions of the scripts of \<open>docs/probing_samples\<close> that work on the NFC protocol: the reader of
    \<open>strace\<close> output of \<open>vddk_aio_bufsize_probe.py\<close> and the functions of \<open>nfc_write_probe.py\<close>. \<open>ProbeRuns\<close>: their runs, the
    report of a traced VDDK and the tries of \<open>test_probe\<close>, which logs out of every session however it ends.
  \<^item> \<open>Vddk\<close>: the proprietary library that this one replaces, as a parameter. \<open>VddkTrace\<close>: \<open>vddk_open_trace.py\<close> and
    \<open>vddk_read_trace.py\<close>, and the calls that they make. \<open>VddkBinding\<close>: its \<open>ctypes\<close> binding \<open>tests/integration/vixdisklib.py\<close>,
    whose context managers are instances of \<open>bracket\<close> too. \<open>VddkProbes\<close>: the probes over the binding, which give back
    all that VDDK handed out.
  \<^item> \<open>Lab\<close>: the settings and patterns of \<open>tests/integration/base.py\<close>. \<open>StressTest\<close>: the stress test as a client of the library,
    whose assertion on descriptors holds for every network.
  \<^item> This theory: a disk opened, used and closed from end to end.

  Loops. The receive loops, the read loop and the line loop have termination proofs (each round adds a
  byte, a fragment adds at least one byte to the count, a line has at most 4096 bytes). The write loop
  does not advance with an AIO buffer size of 0: it is a \<open>partial_function\<close>, and \<open>NfcWrite.write_returns\<close> proves
  that it returns on every disk that \<open>open_disk\<close> can make. The reader of the trace moves at least one byte
  forward per round. No fuel is used.

  Not modelled. Time: a timeout is a fault of the network that can come at any point. TLS itself: a layer
  is a byte stream with a certificate, or a refusal. Threads: an object is used by one caller at a time, and the
  callers of different handles interleave call by call (\<open>VixProcess\<close>). \<open>KeyboardInterrupt\<close> and other exceptions
  outside \<open>Exception\<close>. The log messages. Of \<open>vddk_aio_bufsize_probe.py\<close> only \<open>main\<close>, which makes and removes a VM in
  the lab through pyVmomi and starts the runs. Of the tests those whose assertions are about a live server; the
  stress test, the binding of VDDK and the rebuild of a packed read (\<open>_rebuild_skip\<close>), which is the
  specification of the packed mode, are modelled.

  Taken as given. \<open>setsockopt\<close> fails only on a closed descriptor; were it to fail otherwise,
  \<open>takeover_authd_socket\<close> would leave its duplicate open, which the theorems about resources do not see. A VIM
  session counts as given back once \<open>Disconnect\<close> is called, also when the call raises: what the theorems promise is
  that the program asks for the logout. Strings have code points below 256 and \<open>upper\<close> is that of ASCII. The
  output of \<open>strace\<close> is that of its option \<open>-x\<close>.
\<close>

subsection \<open>Open, use and close\<close>

text \<open>
  C1. A disk is an array of bytes, from end to end. Take a connection and an \<open>open\<close> with flags that it allows;
  a VIM server that grants the ticket; an authd that greets, shows an acceptable certificate and answers; an NFC
  server that answers every step of the opening, decodes every request and answers it from its image; and
  any sequence of reads and writes of 512-byte sectors that fits the protocol. Then \<open>open\<close> returns a handle, every
  \<open>read\<close> into a fresh buffer and every \<open>write\<close> returns what the array of bytes returns, the server ends with the final
  array, and \<open>close\<close> returns normally with both sockets closed. Over the whole life the client sends to authd
  exactly the four commands, and to the NFC server exactly the open script, one request per call under
  consecutive \<open>opId\<close>s from 4 on, and the closing exchange; and it consumes exactly the NFC server's replies.
\<close>

theorem disk_life_refines_store:
  assumes "nfc_compression flags = Inr c" and "ro \<longleftrightarrow> flags AND 4 \<noteq> 0" and "ro \<or> \<not> cn_read_only conn"
    and "ssl \<longleftrightarrow> cn_transport_mode conn = ''nbdssl''"
    and "get_nfc_ticket dp (cn_si conn) (cn_vm_moref conn) None None ro (if ro then None else Some path) w = (Inr t, w0)"
    and "w_script w0 = Accept g gcert # Accept l lcert # nfc_script ssl raw rcert s scert @ es"
    and "avail (rx g) = l0 @ 10 # rest0" and "reply_line ''220'' l0"
    and "room l = None" and "avail (rx l) = l1 @ 10 # l2 @ 10 # l3 @ 10 # rest1"
    and "reply_line ''220'' l1" and "reply_line ''200'' l2" and "reply_line ''200'' l3"
    and "is_ascii (tk_session_id t)" and "is_ascii (ticket_service t ssl)"
    and "case tk_thumbprint t of None \<Rightarrow> True | Some tp \<Rightarrow> cn_allow_untrusted conn \<or> tp = [] \<or> cert_matches dp tp lcert"
    and "close_fault l = None" and "room s = None" and "close_fault s = None"
    and "args_fit ''vddk'' ''nbdmode'' NFC_PROTOCOL_VERSION path c b n" and "replies_fit v b1 b2 b3 c1 c2 c3 reply"
    and "parse_open_reply reply = Inr (hn, 512)" and d: "d = opened_disk fd path hn 512 c b n"
    and "pyfastlz_ok lib" and "lz_compresses lib" and "list_all (op_fits d) xs" and "u32 (5 + length xs)"
    and "served lib hn 4 img (requests lib d 4 xs) stream img'" and "u32 (length e1)" and "u32 (length e2)"
    and av: "avail (rx s) = open_replies v b1 b2 b3 c1 c2 c3 reply @ stream @
      aio_msg NFC_AIO_MSG_CLOSE_FILE (4 + length xs) e1 @ aio_msg NFC_AIO_MSG_CLOSE_SESSION (5 + length xs) e2 @ rest"
  shows "\<exists>h w1 w2 w3 sa s3. handle_open dp conn path flags b n w = (Inr h, w1) \<and>
    handle_run lib h xs w1 = Some (Inr (fst (store_run 512 xs img)), w2) \<and> img' = snd (store_run 512 xs img) \<and>
    handle_close h w2 = (Inr (), w3) \<and> \<not> fd_open w3 (dh_disk h) \<and> \<not> fd_open w3 (dh_authd_sock h) \<and>
    w_socks w1 (dh_authd_sock h) = Some sa \<and> tx sa = map byte_of_char (authd_script t ssl) \<and>
    w_socks w3 (dh_disk h) = Some s3 \<and> avail (rx s3) = rest \<and>
    tx s3 = open_script ''vddk'' ''nbdmode'' NFC_PROTOCOL_VERSION path ro (nat b) (nat n) @ concat (requests lib d 4 xs) @
      aio_msg NFC_AIO_MSG_CLOSE_FILE (4 + length xs) (le_bytes 8 hn) @
      aio_msg NFC_AIO_MSG_CLOSE_SESSION (5 + length xs) (le_bytes 4 0) @ nfc_frame NFC_MSG_SESSION_COMPLETE []"
proof -
  obtain h w1 s2 sa where open_run: "handle_open dp conn path flags b n w =
      (Inr h, put_disk h w1 (opened_disk (dh_disk h) path hn 512 c b n, s2))"
    and s2: "is_open s2" "room s2 = None" "close_fault s2 = close_fault s"
    and av2: "avail (rx s2) = stream @ aio_msg NFC_AIO_MSG_CLOSE_FILE (4 + length xs) e1 @
        aio_msg NFC_AIO_MSG_CLOSE_SESSION (5 + length xs) e2 @ rest"
    and tx2: "tx s2 = open_script ''vddk'' ''nbdmode'' NFC_PROTOCOL_VERSION path ro (nat b) (nat n)"
    and wf: "disk_wf (opened_disk (dh_disk h) path hn 512 c b n)"
    and a: "dh_authd_sock h \<noteq> dh_disk h" "w_socks w1 (dh_authd_sock h) = Some sa" "is_open sa"
      "close_fault sa = close_fault l" "tx sa = map byte_of_char (authd_script t ssl)"
    using handle_open_ok [OF assms(1-16,18,20-22) av] by metis
  let ?d = "opened_disk (dh_disk h) path hn 512 c b n"
  have op: "nd_op_id ?d = 4" "\<not> nd_closed ?d" "nd_handle ?d = hn" "nd_sector_size ?d = 512" by (simp_all add: opened_disk_def)
  have same: "op_fits ?d = op_fits d" "requests lib ?d op ys = requests lib d op ys" for op ys
    unfolding d by (rule opened_disk_same)+
  have u: "u32 (4 + length xs)" using assms(27) by (simp add: u32_def)
  let ?d3 = "?d\<lparr>nd_op_id := 4 + length xs\<rparr>"
  let ?s3 = "s2\<lparr>rx := consume (length stream) (rx s2), tx := tx s2 @ concat (requests lib d 4 xs)\<rparr>"
  have run: "client_run lib xs (?d, s2) = Some (Inr (fst (store_run 512 xs img)), ?d3, ?s3)"
    and img': "img' = snd (store_run 512 xs img)"
    using client_run_ok [OF wf assms(24,25) _ _ s2(1,2) _ av2, of xs img img'] assms(26,28) op u same by simp_all
  have use: "handle_run lib h xs (put_disk h w1 (?d, s2)) =
      Some (Inr (fst (store_run 512 xs img)), put_disk h w1 (?d3, ?s3))"
    using handle_run_client [OF wf op(4), of xs lib h w1 s2] assms(26) same run by simp
  have wf3: "disk_wf ?d3" "\<not> nd_closed ?d3" using wf op by (simp_all add: disk_wf_def)
  have av3: "avail (rx ?s3) = aio_msg NFC_AIO_MSG_CLOSE_FILE (nd_op_id ?d3) e1 @
      aio_msg NFC_AIO_MSG_CLOSE_SESSION (nd_op_id ?d3 + 1) e2 @ rest"
    using av2 by (simp add: eval_nat_numeral)
  obtain w4 s4 where "handle_close h (put_disk h w1 (?d3, ?s3)) = (Inr (), w4)" "\<not> fd_open w4 (dh_disk h)"
    "\<not> fd_open w4 (dh_authd_sock h)" "w_socks w4 (dh_disk h) = Some s4" "avail (rx s4) = rest"
    "tx s4 = tx ?s3 @ aio_msg NFC_AIO_MSG_CLOSE_FILE (4 + length xs) (le_bytes 8 hn) @
      aio_msg NFC_AIO_MSG_CLOSE_SESSION (5 + length xs) (le_bytes 4 0) @ nfc_frame NFC_MSG_SESSION_COMPLETE []"
    using life_close [OF wf3 _ _ _ _ av3 assms(29,30) a(1-3)] s2 assms(17,19,27) a(4) op by auto
  moreover have "w_socks (put_disk h w1 (?d, s2)) (dh_authd_sock h) = Some sa" using a(1,2) by (simp add: put_disk_def)
  ultimately show ?thesis
    using open_run use img' tx2 a(5)
    by (intro exI [of _ h] exI [of _ "put_disk h w1 (?d, s2)"] exI [of _ "put_disk h w1 (?d3, ?s3)"] exI [of _ w4]
        exI [of _ sa] exI [of _ s4]) simp
qed

definition demo_sector_reply :: "byte list" where
  "demo_sector_reply = replicate 8 0 @ le_bytes 8 77 @ le_bytes 4 2 @ replicate 16 0 @ le_bytes 4 512"

definition demo_life_ops :: "disk_op list" where
  "demo_life_ops = [WriteOp 1 1 (replicate 512 7), ReadOp 1 1]"

definition demo_server_sock :: "byte list \<Rightarrow> sock" where
  "demo_server_sock stream = demo_sock [Data (open_replies 11 [] [] [] [] [] [] demo_sector_reply @ stream @
     aio_msg 5 6 [] @ aio_msg 3 7 []), Eof]"

definition demo_life_handle :: DiskHandle where
  "demo_life_handle = \<lparr>dh_disk = 4, dh_authd_sock = 3, dh_transport_mode = ''nbd''\<rparr>"

definition demo_nbd :: Connection where
  "demo_nbd = (demo_conn False)\<lparr>cn_transport_mode := ''nbd''\<rparr>"

theorem disk_life_refines_store_witness:
  "\<exists>stream h w1 w2 w3 sa. handle_open demo_deps demo_nbd ''[ds] vm/vm.vmdk'' 32 65536 1
      (demo_world (demo_authd (Some [7]) @ nfc_script False (demo_sock []) None (demo_server_sock stream) None)) = (Inr h, w1) \<and>
    handle_run zero_run_lz h demo_life_ops w1 = Some (Inr [[], replicate 512 7], w2) \<and>
    handle_close h w2 = (Inr (), w3) \<and> \<not> fd_open w3 (dh_disk h) \<and> \<not> fd_open w3 (dh_authd_sock h) \<and>
    w_socks w1 (dh_authd_sock h) = Some sa \<and> tx sa = map byte_of_char (authd_script demo_ticket False)"
proof -
  let ?path = "''[ds] vm/vm.vmdk''"
  let ?d = "opened_disk 4 ?path 77 512 2 65536 1" and ?img = "replicate 2048 (0 :: byte)"
  let ?l0 = "map byte_of_char ''220 authd'' @ [13]" and ?l1 = "map byte_of_char ''220 ok'' @ [13]"
  let ?l2 = "map byte_of_char ''200 ok'' @ [13]" and ?l3 = "map byte_of_char ''200 Connect'' @ [13]"
  let ?greet = "demo_sock [Data (map byte_of_char (''220 authd'' @ crlf))]"
  have d: "disk_wf ?d" "nd_handle ?d = 77" "nd_sector_size ?d = 512" by (simp_all add: opened_disk_def disk_wf_def)
  have ops: "list_all (op_fits ?d) demo_life_ops" "list_all (op_inside (nd_sector_size ?d) (length ?img)) demo_life_ops"
    "u32 (4 + length demo_life_ops)"
    by (simp_all add: demo_life_ops_def opened_disk_def write_length_def sector_offset_def read_in_range_def read_length_def u32_def)
  obtain stream img' where srv: "served zero_run_lz 77 4 ?img (requests zero_run_lz ?d 4 demo_life_ops) stream img'"
    using served_total [OF d(1) zero_run_lz_ok ops(1,3,2)] d(2) by auto
  let ?nfc = "demo_server_sock stream"
  let ?w = "demo_world (demo_authd (Some [7]) @ nfc_script False (demo_sock []) None ?nfc None)"
  obtain w0 where ticket: "get_nfc_ticket demo_deps (cn_si demo_nbd) (cn_vm_moref demo_nbd) None None False
      (if False then None else Some ?path) ?w = (Inr demo_ticket, w0)" and "w_script w0 = w_script ?w"
    by (simp add: get_nfc_ticket_def nfc_service_def register_nfc_types_def set_registered_def virtual_disk_key_def log_act_def then_io_def
        bind_io_def demo_world_def demo_nbd_def demo_conn_def demo_deps_def demo_chain_def)
  then have script: "w_script w0 = Accept ?greet None # Accept demo_authd_sock (Some [7]) #
      nfc_script False (demo_sock []) None ?nfc None @ []"
    by (simp add: demo_world_def demo_authd_def)
  have conn: "nfc_compression 32 = Inr 2" "False \<longleftrightarrow> (32 :: int) AND 4 \<noteq> 0" "False \<or> \<not> cn_read_only demo_nbd"
    "False \<longleftrightarrow> cn_transport_mode demo_nbd = ''nbdssl''"
    by code_simp+
  have lines: "avail (rx ?greet) = ?l0 @ 10 # []" "reply_line ''220'' ?l0" "room demo_authd_sock = None"
    "avail (rx demo_authd_sock) = ?l1 @ 10 # ?l2 @ 10 # ?l3 @ 10 # [9]"
    "reply_line ''220'' ?l1" "reply_line ''200'' ?l2" "reply_line ''200'' ?l3"
    "is_ascii (tk_session_id demo_ticket)" "is_ascii (ticket_service demo_ticket False)"
    "case tk_thumbprint demo_ticket of None \<Rightarrow> True
      | Some tp \<Rightarrow> cn_allow_untrusted demo_nbd \<or> tp = [] \<or> cert_matches demo_deps tp (Some [7])"
    "close_fault demo_authd_sock = None"
    by code_simp+
  have fit: "args_fit ''vddk'' ''nbdmode'' NFC_PROTOCOL_VERSION ?path 2 65536 1"
    "replies_fit 11 [] [] [] [] [] [] demo_sector_reply" "parse_open_reply demo_sector_reply = Inr (77, 512)"
    by code_simp+
  have sock: "room ?nfc = None" "close_fault ?nfc = None"
    "avail (rx ?nfc) = open_replies 11 [] [] [] [] [] [] demo_sector_reply @ stream @
      aio_msg NFC_AIO_MSG_CLOSE_FILE (4 + length demo_life_ops) [] @
      aio_msg NFC_AIO_MSG_CLOSE_SESSION (5 + length demo_life_ops) [] @ []"
    by (simp_all add: demo_server_sock_def demo_sock_def demo_life_ops_def)
  have store: "fst (store_run 512 demo_life_ops ?img) = [[], replicate 512 7]"
    by (simp add: demo_life_ops_def buf_slice_def buf_assign_def)
  have u: "u32 (5 + length demo_life_ops)" "u32 (length ([] :: byte list))" by (simp_all add: demo_life_ops_def u32_def)
  show ?thesis
    using disk_life_refines_store [OF conn ticket script lines sock(1,2) fit refl zero_run_lz_ok zero_run_compresses
        ops(1) u(1) srv u(2,2) sock(3)] store by fastforce
qed

text \<open>
  C2. A disk from end to end. On the layer that authd gave, with a server that answers every step and sends the
  requested sectors as fragments in any order, raw or FastLZ, and any segmentation of the stream:
  \<open>open_disk\<close> succeeds, \<open>read\<close> of the handle fills the caller's buffer with exactly the bytes of the disk, and
  \<open>close\<close> returns normally with both sockets closed. Over the whole life the client sends exactly the open
  script, one read request with \<open>opId\<close> 4, the two closing requests with 5 and 6 and the session-complete
  message, and consumes exactly the server's replies.
\<close>

theorem open_read_close:
  assumes "nfc_layer session w = (Inr fd, w1)" and "w_socks w1 fd = Some s" and "is_open s" and "room s = None"
    and "close_fault s = None" and "w_socks w1 a = Some sa" and "is_open sa" and "close_fault sa = None" and "a \<noteq> fd"
    and "args_fit name op version path c b n" and "replies_fit v b1 b2 b3 c1 c2 c3 reply"
    and "parse_open_reply reply = Inr (hn, ss)" and d: "d = opened_disk fd path hn ss c b n"
    and "1 \<le> num" and "read_in_range d start num" and "\<not> pb_readonly buf" and "read_length d num \<le> length (pb_bytes buf)"
    and "length D = read_length d num" and "reply_for lib D fs" and "u32 (length e1)" and "u32 (length e2)"
    and av: "avail (rx s) = open_replies v b1 b2 b3 c1 c2 c3 reply @
      concat (map (reply_frame 4 offset (length D)) fs) @ aio_msg NFC_AIO_MSG_CLOSE_FILE 5 e1 @
      aio_msg NFC_AIO_MSG_CLOSE_SESSION 6 e2 @ rest"
    and h: "h = \<lparr>dh_disk = fd, dh_authd_sock = a, dh_transport_mode = mode\<rparr>"
  shows "\<exists>w2 w3 w4 s4. open_disk session path name op version ro c b n w = (Inr fd, w2) \<and>
    handle_read lib h start num False (w2, buf) =
      (Inr \<lparr>rr_uncompressed_length = length D, rr_compressed_length = extra_total fs, rr_fragments = []\<rparr>,
       w3, buf\<lparr>pb_bytes := D @ drop (length D) (pb_bytes buf)\<rparr>) \<and>
    handle_close h w3 = (Inr (), w4) \<and> \<not> fd_open w4 fd \<and> \<not> fd_open w4 a \<and>
    w_socks w4 fd = Some s4 \<and> avail (rx s4) = rest \<and>
    tx s4 = tx s @ open_script name op version path ro (nat b) (nat n) @
      aio_hdr NFC_AIO_MSG_IO 44 4 @ read_request d start num @
      aio_msg NFC_AIO_MSG_CLOSE_FILE 5 (le_bytes 8 hn) @ aio_msg NFC_AIO_MSG_CLOSE_SESSION 6 (le_bytes 4 0) @
      nfc_frame NFC_MSG_SESSION_COMPLETE []"
proof -
  have ds: "dh_disk h = fd" "dh_authd_sock h = a" by (simp_all add: h)
  obtain s2 where open_run: "open_disk session path name op version ro c b n w = (Inr fd, put_disk h w1 (d, s2))"
    and s2: "is_open s2" "room s2 = None" "close_fault s2 = close_fault s"
      "avail (rx s2) = concat (map (reply_frame 4 offset (length D)) fs) @ aio_msg 5 5 e1 @ aio_msg 3 6 e2 @ rest"
      "tx s2 = tx s @ open_script name op version path ro (nat b) (nat n)" and wf: "disk_wf d"
    using life_open [OF assms(1-4,10-12) ds(1) av] d by auto
  let ?d3 = "d\<lparr>nd_op_id := 5\<rparr>" and ?k = "60 * length fs + extra_total fs"
  let ?s3 = "s2\<lparr>rx := consume ?k (rx s2), tx := tx s2 @ aio_hdr NFC_AIO_MSG_IO 44 4 @ read_request d start num\<rparr>"
  have op: "nd_op_id d = 4" "\<not> nd_closed d" "nd_handle d = hn" by (simp_all add: d opened_disk_def)
  have "readinto lib start num False ((d, s2), buf) =
      (Inr \<lparr>rr_uncompressed_length = length D, rr_compressed_length = extra_total fs, rr_fragments = []\<rparr>,
       (?d3, ?s3), buf\<lparr>pb_bytes := D @ drop (length D) (pb_bytes buf)\<rparr>)"
    using readinto_ok [OF wf assms(14,15) _ assms(16,17) s2(1,2) assms(18,19)] s2(4) op by (simp add: u32_def)
  note read_run = handle_read_run [OF this, of h w1]
  have wf3: "disk_wf ?d3" "\<not> nd_closed ?d3" using wf op by (simp_all add: disk_wf_def)
  have av3: "avail (rx ?s3) = aio_msg NFC_AIO_MSG_CLOSE_FILE (nd_op_id ?d3) e1 @ aio_msg NFC_AIO_MSG_CLOSE_SESSION (nd_op_id ?d3 + 1) e2 @ rest"
    using s2(4) by (simp add: length_reply_frames)
  obtain w4 s4 where "handle_close h (put_disk h w1 (?d3, ?s3)) = (Inr (), w4)" "\<not> fd_open w4 fd" "\<not> fd_open w4 a"
    "w_socks w4 fd = Some s4" "avail (rx s4) = rest"
    "tx s4 = tx ?s3 @ aio_msg 5 5 (le_bytes 8 hn) @ aio_msg 3 6 (le_bytes 4 0) @ nfc_frame 4 []"
    using life_close [OF wf3 _ _ _ _ av3, of h w1 sa] s2 assms(5-9,20,21) ds op by (auto simp: u32_def)
  then show ?thesis
    using open_run read_run s2(5)
    by (intro exI [of _ "put_disk h w1 (d, s2)"] exI [of _ "put_disk h w1 (?d3, ?s3)"] exI [of _ w4] exI [of _ s4]) simp
qed

definition demo_small_reply :: "byte list" where
  "demo_small_reply = replicate 8 0 @ le_bytes 8 77 @ le_bytes 4 2 @ replicate 16 0 @ le_bytes 4 2"

definition demo_life_sock :: sock where
  "demo_life_sock = demo_sock [Data (open_replies 11 [] [] [] [] [] [] demo_small_reply),
     Data (concat (map (reply_frame 4 6 4) demo_frags)), Data (aio_msg 5 5 []), Data (aio_msg 3 6 []), Eof]"

theorem open_read_close_witness:
  "\<exists>w2 w3 w4. open_disk (demo_session False) ''[ds] a.vmdk'' ''vddk'' ''nbdmode'' 11 True 2 65536 1
      (demo_authed [Accept demo_life_sock None]) = (Inr 4, w2) \<and>
    handle_read zero_run_lz demo_life_handle 3 2 False (w2, \<lparr>pb_readonly = False, pb_bytes = [9, 9, 9, 9, 8]\<rparr>) =
      (Inr \<lparr>rr_uncompressed_length = 4, rr_compressed_length = 3, rr_fragments = []\<rparr>, w3,
       \<lparr>pb_readonly = False, pb_bytes = [0, 0, 3, 4, 8]\<rparr>) \<and>
    handle_close demo_life_handle w3 = (Inr (), w4) \<and> \<not> fd_open w4 4 \<and> \<not> fd_open w4 3"
proof -
  let ?d = "opened_disk 4 ''[ds] a.vmdk'' 77 2 2 65536 1"
  obtain w1 where w1: "nfc_layer (demo_session False) (demo_authed [Accept demo_life_sock None]) = (Inr 4, w1)"
    and s: "w_socks w1 4 = Some demo_life_sock" and a: "w_socks w1 3 = Some (demo_sock [])"
    by (simp add: nfc_layer_def demo_session_def demo_authed_def demo_world_def demo_life_sock_def layer_defs)
  have fit: "args_fit ''vddk'' ''nbdmode'' 11 ''[ds] a.vmdk'' 2 65536 1" "replies_fit 11 [] [] [] [] [] [] demo_small_reply"
    "parse_open_reply demo_small_reply = Inr (77, 2)" and d: "read_in_range ?d 3 2" "read_length ?d 2 = 4"
    by code_simp+
  have sock: "is_open demo_life_sock" "room demo_life_sock = None" "close_fault demo_life_sock = None"
    "is_open (demo_sock [])" "close_fault (demo_sock []) = None"
    "avail (rx demo_life_sock) = open_replies 11 [] [] [] [] [] [] demo_small_reply @
      concat (map (reply_frame 4 6 (length [0, 0, 3, 4 :: byte])) demo_frags) @
      aio_msg NFC_AIO_MSG_CLOSE_FILE 5 [] @ aio_msg NFC_AIO_MSG_CLOSE_SESSION 6 [] @ []"
    by (simp_all add: demo_life_sock_def demo_sock_def flip: numeral_2_eq_2)
  have "extra_total demo_frags = 3" by (simp add: demo_frags_def frag_extra_def)
  then show ?thesis
    using open_read_close [OF w1 s sock(1-3) a sock(4,5) _ fit refl _ d(1) _ _ _ demo_reply _ _ sock(6) demo_life_handle_def,
        of "\<lparr>pb_readonly = False, pb_bytes = [9, 9, 9, 9, 8]\<rparr>" True] d(2)
    by (auto simp: u32_def)
qed

end
